(* ===== verification/Prelude.thy ===== *)
theory Prelude
  imports Main "HOL-Library.Word" "HOL-Library.Multiset"
begin

text \<open>
  Shared vocabulary of the development.

  \<^item> The effect type of the Go code: a computation takes the outside world and either
    returns a value or panics, in both cases leaving a world behind. Go errors are ordinary
    values (type \<open>goerr\<close>), panics are not.
  \<^item> Go maps, which may be nil, and Go machine integers.
  \<^item> The parts of the Go standard library the operator uses: decimal formatting
    (\<open>strconv.FormatInt\<close>, the verb \<open>%d\<close>) and \<open>strconv.ParseInt\<close> in base 10.
  \<^item> The notion \<open>pres R m\<close>, "the computation \<open>m\<close> only moves the world along \<open>R\<close>",
    with a locale that lifts it through the combinators once and for all.
\<close>

named_theorems go_simps "equations that run the effect combinators"
named_theorems run_simps "what it takes for a compound computation to return"

section \<open>Machine integers\<close>

type_synonym int32 = "32 word"
type_synonym int64 = "64 word"

section \<open>Errors, panics and computations\<close>

datatype goerr =
    NotFound
  | ApiErr string
  | Invalid string string "(string \<times> int \<times> string) list"
    \<comment> \<open>kind, object name, and per field its path, value and complaint\<close>
  | Errorf string
  | Wrap goerr string

datatype gopanic = NilMapWrite | NilDeref | IndexOutOfRange | ForeignPanic string

datatype 'a result = Ret 'a | Panic gopanic

type_synonym ('w, 'a) M = "'w \<Rightarrow> 'a result \<times> 'w"

definition ret :: "'a \<Rightarrow> ('w, 'a) M" where
  "ret x w = (Ret x, w)"

definition panic :: "gopanic \<Rightarrow> ('w, 'a) M" where
  "panic p w = (Panic p, w)"

definition bindM :: "('w, 'a) M \<Rightarrow> ('a \<Rightarrow> ('w, 'b) M) \<Rightarrow> ('w, 'b) M" where
  "bindM m f w = (case m w of (Ret x, w') \<Rightarrow> f x w' | (Panic p, w') \<Rightarrow> (Panic p, w'))"

text \<open>A call that leaves the program (API server, clock, LDAP server): it cannot panic.\<close>

definition callM :: "('w \<Rightarrow> 'a \<times> 'w) \<Rightarrow> ('w, 'a) M" where
  "callM f w = (case f w of (x, w') \<Rightarrow> (Ret x, w'))"

text \<open>Go's \<open>defer d()\<close> around the rest \<open>m\<close> of the function: \<open>d\<close> runs on return and on panic.\<close>

definition deferM :: "('w, unit) M \<Rightarrow> ('w, 'a) M \<Rightarrow> ('w, 'a) M" where
  "deferM d m w =
     (case m w of (r, w1) \<Rightarrow>
        (case d w1 of (Ret _, w2) \<Rightarrow> (r, w2) | (Panic p, w2) \<Rightarrow> (Panic p, w2)))"

text \<open>\<open>if err := m; err != nil { return h(err) }; k\<close>\<close>

definition checkM :: "('w, goerr option) M \<Rightarrow> (goerr \<Rightarrow> ('w, 'a) M) \<Rightarrow> ('w, 'a) M \<Rightarrow> ('w, 'a) M" where
  "checkM m h k = bindM m (\<lambda>e. case e of Some err \<Rightarrow> h err | None \<Rightarrow> k)"

text \<open>A loop over \<open>xs\<close> whose body may end the whole function early with an error.\<close>

fun forErr :: "'a list \<Rightarrow> ('a \<Rightarrow> ('w, goerr option) M) \<Rightarrow> ('w, goerr option) M" where
  "forErr [] b = ret None"
| "forErr (x # xs) b = checkM (b x) (\<lambda>err. ret (Some err)) (forErr xs b)"

text \<open>A loop whose body never ends the function early.\<close>

fun forAll :: "'a list \<Rightarrow> ('a \<Rightarrow> ('w, unit) M) \<Rightarrow> ('w, unit) M" where
  "forAll [] b = ret ()"
| "forAll (x # xs) b = bindM (b x) (\<lambda>_. forAll xs b)"

lemma ret_apply [go_simps]: "ret x w = (Ret x, w)"
  by (simp add: ret_def)

lemma panic_apply [go_simps]: "panic p w = (Panic p, w)"
  by (simp add: panic_def)

lemma bindM_ret [go_simps]: "bindM (ret x) f = f x"
  by (simp add: bindM_def ret_def fun_eq_iff)

lemma bindM_panic [go_simps]: "bindM (panic p) f = panic p"
  by (simp add: bindM_def panic_def fun_eq_iff)

lemma bindM_assoc: "bindM (bindM m f) g = bindM m (\<lambda>x. bindM (f x) g)"
  by (simp add: bindM_def fun_eq_iff split: prod.splits result.splits)

lemma bindM_ret_right: "bindM m ret = m"
  by (simp add: bindM_def ret_def fun_eq_iff split: prod.splits result.splits)

lemma bindM_eq_Ret:
  "bindM m f w = (Ret y, w') \<longleftrightarrow> (\<exists>x w1. m w = (Ret x, w1) \<and> f x w1 = (Ret y, w'))"
  by (auto simp: bindM_def split: prod.splits result.splits)

lemma bindM_eq_Panic:
  "bindM m f w = (Panic p, w') \<longleftrightarrow>
     m w = (Panic p, w') \<or> (\<exists>x w1. m w = (Ret x, w1) \<and> f x w1 = (Panic p, w'))"
  by (auto simp: bindM_def split: prod.splits result.splits)

lemma callM_eq_Ret [go_simps]: "callM f w = (Ret x, w') \<longleftrightarrow> f w = (x, w')"
  by (auto simp: callM_def split: prod.splits)

lemma callM_not_Panic [go_simps]: "callM f w \<noteq> (Panic p, w')"
  by (auto simp: callM_def split: prod.splits)

lemma checkM_apply:
  "checkM m h k w =
     (case m w of (Ret (Some err), w1) \<Rightarrow> h err w1
        | (Ret None, w1) \<Rightarrow> k w1
        | (Panic p, w1) \<Rightarrow> (Panic p, w1))"
  by (simp add: checkM_def bindM_def split: prod.splits result.splits option.splits)

lemma case_sum_run:
  "(case r of Inl a \<Rightarrow> f a | Inr b \<Rightarrow> g b) w = y \<longleftrightarrow>
     (\<exists>a. r = Inl a \<and> f a w = y) \<or> (\<exists>b. r = Inr b \<and> g b w = y)"
  by (cases r) simp_all

lemma case_option_run:
  "(case r of None \<Rightarrow> f | Some b \<Rightarrow> g b) w = y \<longleftrightarrow> r = None \<and> f w = y \<or> (\<exists>b. r = Some b \<and> g b w = y)"
  by (cases r) simp_all

lemma case_prod_run: "(case p of (a, b) \<Rightarrow> f a b) w = y \<longleftrightarrow> (\<exists>a b. p = (a, b) \<and> f a b w = y)"
  by (cases p) simp

lemma if_run: "(if c then f else g) w = y \<longleftrightarrow> c \<and> f w = y \<or> \<not> c \<and> g w = y"
  by simp

lemma checkM_eq_Ret:
  "checkM m h k w = (Ret y, w') \<longleftrightarrow>
     (\<exists>w1. m w = (Ret None, w1) \<and> k w1 = (Ret y, w')) \<or>
     (\<exists>err w1. m w = (Ret (Some err), w1) \<and> h err w1 = (Ret y, w'))"
  by (auto simp: checkM_def bindM_eq_Ret split: option.splits)

lemmas run_simps_base [run_simps] = ret_apply panic_apply bindM_eq_Ret callM_eq_Ret checkM_eq_Ret
  case_sum_run case_option_run case_prod_run if_run

lemma forAll_append: "forAll (xs @ ys) b = bindM (forAll xs b) (\<lambda>_. forAll ys b)"
  by (induction xs) (simp_all add: bindM_ret bindM_assoc)

lemma forAll_map: "forAll (map g xs) b = forAll xs (\<lambda>x. b (g x))"
  by (induction xs) simp_all

lemma forAll_cong: "(\<And>x. x \<in> set xs \<Longrightarrow> b x = c x) \<Longrightarrow> forAll xs b = forAll xs c"
  by (induction xs) simp_all

lemma forAll_returns:
  "(\<And>x w. x \<in> set xs \<Longrightarrow> \<exists>w'. b x w = (Ret (), w')) \<Longrightarrow> \<exists>w'. forAll xs b w = (Ret (), w')"
proof (induction xs arbitrary: w)
  case (Cons x xs)
  obtain w1 where "b x w = (Ret (), w1)" using Cons.prems by (metis list.set_intros(1))
  moreover obtain w2 where "forAll xs b w1 = (Ret (), w2)" using Cons by (metis list.set_intros(2))
  ultimately show ?case by (auto simp: bindM_def)
qed (simp add: ret_def)

section \<open>Computations that move the world along a relation\<close>

definition pres :: "('w \<Rightarrow> 'w \<Rightarrow> bool) \<Rightarrow> ('w, 'a) M \<Rightarrow> bool" where
  "pres R m \<longleftrightarrow> (\<forall>w r w'. m w = (r, w') \<longrightarrow> R w w')"

lemma presI: "(\<And>w r w'. m w = (r, w') \<Longrightarrow> R w w') \<Longrightarrow> pres R m"
  by (simp add: pres_def)

lemma presD: "pres R m \<Longrightarrow> m w = (r, w') \<Longrightarrow> R w w'"
  by (auto simp: pres_def)

lemma pres_mono: "pres R m \<Longrightarrow> (\<And>w w'. R w w' \<Longrightarrow> S w w') \<Longrightarrow> pres S m"
  by (auto simp: pres_def)

locale world_order =
  fixes R :: "'w \<Rightarrow> 'w \<Rightarrow> bool"
  assumes R_refl: "R w w"
    and R_trans: "R u v \<Longrightarrow> R v w \<Longrightarrow> R u w"
begin

lemma pres_ret: "pres R (ret x)"
  by (simp add: pres_def ret_def R_refl)

lemma pres_panic: "pres R (panic p)"
  by (simp add: pres_def panic_def R_refl)

text \<open>The rest of a sequence need only be looked at for results the first part can have.\<close>

lemma pres_bindM_reach:
  assumes m: "pres R m" and f: "\<And>x w w1. m w = (Ret x, w1) \<Longrightarrow> pres R (f x)"
  shows "pres R (bindM m f)"
proof (rule presI)
  fix w r w'
  assume run: "bindM m f w = (r, w')"
  obtain r1 w1 where m1: "m w = (r1, w1)" by (cases "m w")
  have step: "R w w1" by (rule presD [OF m m1])
  show "R w w'"
  proof (cases r1)
    case (Ret x)
    with run m1 have "f x w1 = (r, w')" by (simp add: bindM_def)
    from presD [OF f [OF m1 [unfolded Ret]] this] step show ?thesis by (blast intro: R_trans)
  next
    case (Panic p)
    with run m1 step show ?thesis by (simp add: bindM_def)
  qed
qed

lemma pres_bindM: "pres R m \<Longrightarrow> (\<And>x. pres R (f x)) \<Longrightarrow> pres R (bindM m f)"
  by (rule pres_bindM_reach)

lemma pres_callM: "(\<And>w x w'. f w = (x, w') \<Longrightarrow> R w w') \<Longrightarrow> pres R (callM f)"
  by (rule presI) (auto simp: callM_def split: prod.splits)

lemma pres_checkM:
  "pres R m \<Longrightarrow> (\<And>err. pres R (h err)) \<Longrightarrow> pres R k \<Longrightarrow> pres R (checkM m h k)"
  unfolding checkM_def by (rule pres_bindM) (auto split: option.splits)

lemma pres_deferM:
  assumes "pres R d" and "pres R m"
  shows "pres R (deferM d m)"
proof (rule presI)
  fix w r w'
  assume run: "deferM d m w = (r, w')"
  obtain r1 w1 where m: "m w = (r1, w1)" by (cases "m w")
  obtain r2 w2 where d: "d w1 = (r2, w2)" by (cases "d w1")
  from run m d have "w' = w2" by (auto simp: deferM_def split: result.splits)
  with presD [OF assms(2) m] presD [OF assms(1) d] show "R w w'"
    by (auto intro: R_trans)
qed

lemma pres_forErr: "(\<And>x. x \<in> set xs \<Longrightarrow> pres R (b x)) \<Longrightarrow> pres R (forErr xs b)"
  by (induction xs) (auto intro: pres_ret pres_checkM)

lemma pres_forAll: "(\<And>x. x \<in> set xs \<Longrightarrow> pres R (b x)) \<Longrightarrow> pres R (forAll xs b)"
  by (induction xs) (auto intro: pres_ret pres_bindM)

lemmas pres_intros =
  pres_ret pres_panic pres_bindM pres_callM pres_checkM pres_deferM pres_forErr pres_forAll

end

text \<open>Keeping a predicate on worlds is a special case.\<close>

interpretation keeps: world_order "\<lambda>w w'. P w \<longrightarrow> P w'" for P :: "'w \<Rightarrow> bool"
  by unfold_locales auto

text \<open>What is true of every value a computation can return.\<close>

definition yields :: "('a \<Rightarrow> bool) \<Rightarrow> ('w, 'a) M \<Rightarrow> bool" where
  "yields P m \<longleftrightarrow> (\<forall>w x w'. m w = (Ret x, w') \<longrightarrow> P x)"

lemma yieldsD: "yields P m \<Longrightarrow> m w = (Ret x, w') \<Longrightarrow> P x"
  by (auto simp: yields_def)

lemma yields_ret: "yields P (ret x) \<longleftrightarrow> P x"
  by (simp add: yields_def ret_def)

lemma yields_panic: "yields P (panic p)"
  by (simp add: yields_def panic_def)

lemma yields_bindM: "(\<And>x w w1. m w = (Ret x, w1) \<Longrightarrow> yields P (f x)) \<Longrightarrow> yields P (bindM m f)"
  unfolding yields_def bindM_eq_Ret by blast

lemma deferM_eq_Ret:
  "deferM d m w = (Ret y, w') \<longleftrightarrow> (\<exists>w1 x. m w = (Ret y, w1) \<and> d w1 = (Ret x, w'))"
  by (auto simp: deferM_def split: prod.splits result.splits)

lemma yields_deferM: "yields P m \<Longrightarrow> yields P (deferM d m)"
  unfolding yields_def deferM_def by (auto split: prod.splits result.splits)

lemma yields_checkM: "(\<And>e. yields P (h e)) \<Longrightarrow> yields P k \<Longrightarrow> yields P (checkM m h k)"
  unfolding checkM_def by (rule yields_bindM) (auto split: option.splits)

text \<open>Computations that always return.\<close>

definition noPanic :: "('w, 'a) M \<Rightarrow> bool" where
  "noPanic m \<longleftrightarrow> (\<forall>w. \<exists>x w'. m w = (Ret x, w'))"

lemma noPanicD: "noPanic m \<Longrightarrow> \<exists>x w'. m w = (Ret x, w')"
  by (simp add: noPanic_def)

lemma noPanic_ret: "noPanic (ret x)"
  by (simp add: noPanic_def ret_def)

lemma noPanic_callM: "noPanic (callM f)"
  by (simp add: noPanic_def callM_def split: prod.splits)

lemma noPanic_bindM: "noPanic m \<Longrightarrow> (\<And>x. noPanic (f x)) \<Longrightarrow> noPanic (bindM m f)"
  unfolding noPanic_def bindM_def by (metis (no_types, lifting) case_prod_conv result.simps(5))

lemma noPanic_checkM: "noPanic m \<Longrightarrow> (\<And>e. noPanic (h e)) \<Longrightarrow> noPanic k \<Longrightarrow> noPanic (checkM m h k)"
  unfolding checkM_def by (rule noPanic_bindM) (auto split: option.splits)

lemma noPanic_forErr: "(\<And>x. x \<in> set xs \<Longrightarrow> noPanic (b x)) \<Longrightarrow> noPanic (forErr xs b)"
  by (induction xs) (auto intro: noPanic_ret noPanic_checkM)

lemmas noPanic_intros = noPanic_ret noPanic_callM noPanic_bindM noPanic_checkM noPanic_forErr

text \<open>An invariant of the successful rounds holds after a successful loop.\<close>

lemma forErr_success_inv:
  assumes "\<And>x w w'. x \<in> set xs \<Longrightarrow> P w \<Longrightarrow> b x w = (Ret None, w') \<Longrightarrow> P w'"
    and "P w" and "forErr xs b w = (Ret None, w')"
  shows "P w'"
  using assms
proof (induction xs arbitrary: w)
  case (Cons x xs)
  from Cons.prems(3) obtain w1 where x: "b x w = (Ret None, w1)" and rest: "forErr xs b w1 = (Ret None, w')"
    by (auto simp: run_simps)
  have "P w1" by (rule Cons.prems(1) [OF _ Cons.prems(2) x]) simp
  with rest show ?case by (intro Cons.IH [OF Cons.prems(1)]) auto
qed (simp add: ret_def)

text \<open>If each round establishes its own fact and no round spoils another, success establishes all.\<close>

lemma forErr_success_establishes:
  assumes est: "\<And>x w w'. x \<in> set xs \<Longrightarrow> b x w = (Ret None, w') \<Longrightarrow> P x w'"
    and keep: "\<And>x y w w'. x \<in> set xs \<Longrightarrow> P y w \<Longrightarrow> b x w = (Ret None, w') \<Longrightarrow> P y w'"
    and run: "forErr xs b w = (Ret None, w')"
  shows "\<forall>x \<in> set xs. P x w'"
  using assms
proof (induction xs arbitrary: w)
  case (Cons x xs)
  from Cons.prems(3) obtain w1 where x: "b x w = (Ret None, w1)" and rest: "forErr xs b w1 = (Ret None, w')"
    by (auto simp: run_simps)
  have px: "P x w1" by (rule Cons.prems(1) [OF _ x]) simp
  have "P x w'"
  proof (rule forErr_success_inv [where P = "P x", OF _ px rest])
    show "P x v" if "y \<in> set xs" "P x u" "b y u = (Ret None, v)" for y u v
      by (rule Cons.prems(2) [OF _ that(2,3)]) (use that(1) in simp)
  qed
  moreover have "\<forall>x \<in> set xs. P x w'"
    by (rule Cons.IH [OF Cons.prems(1) Cons.prems(2) rest]) auto
  ultimately show ?case by simp
qed simp

lemma forErr_establishes:
  assumes "\<And>x w w'. x \<in> set xs \<Longrightarrow> b x w = (Ret None, w') \<Longrightarrow> P x w'"
    and "\<And>x y. x \<in> set xs \<Longrightarrow> pres (\<lambda>w w'. P y w \<longrightarrow> P y w') (b x)"
    and "forErr xs b w = (Ret None, w')"
  shows "\<forall>x \<in> set xs. P x w'"
  by (rule forErr_success_establishes [OF assms(1) _ assms(3)]) (blast dest: presD [OF assms(2)])+

section \<open>Go maps\<close>

text \<open>\<open>None\<close> is the nil map: reading it is fine, writing to it panics.\<close>

type_synonym 'v gomap = "(string \<rightharpoonup> 'v) option"

definition mapGet :: "'v gomap \<Rightarrow> string \<Rightarrow> 'v option" where
  "mapGet m k = (case m of None \<Rightarrow> None | Some f \<Rightarrow> f k)"

text \<open>\<open>m[k]\<close> with a zero value \<open>z\<close> for absent keys.\<close>

definition mapIndex :: "'v \<Rightarrow> 'v gomap \<Rightarrow> string \<Rightarrow> 'v" where
  "mapIndex z m k = (case mapGet m k of None \<Rightarrow> z | Some v \<Rightarrow> v)"

text \<open>\<open>m[k] = v\<close>\<close>

definition mapPut :: "'v gomap \<Rightarrow> string \<Rightarrow> 'v \<Rightarrow> ('w, 'v gomap) M" where
  "mapPut m k v = (case m of None \<Rightarrow> panic NilMapWrite | Some f \<Rightarrow> ret (Some (f(k \<mapsto> v))))"

lemma mapGet_simps [simp]:
  "mapGet None k = None"
  "mapGet (Some f) k = f k"
  by (simp_all add: mapGet_def)

lemma mapGet_fun [simp]:
  "mapGet None = Map.empty"
  "mapGet (Some f) = f"
  by (simp_all add: fun_eq_iff)

lemma mapPut_simps [go_simps]:
  "mapPut None k v = panic NilMapWrite"
  "mapPut (Some f) k v = ret (Some (f(k \<mapsto> v)))"
  by (simp_all add: mapPut_def)

section \<open>Decimal numbers\<close>

definition digitChar :: "nat \<Rightarrow> char" where
  "digitChar d = char_of (48 + d)"

fun showNat :: "nat \<Rightarrow> string" where
  "showNat n = (if n < 10 then [digitChar n] else showNat (n div 10) @ [digitChar (n mod 10)])"

declare showNat.simps [simp del]

text \<open>\<open>strconv.FormatInt(n, 10)\<close>, \<open>strconv.Itoa\<close> and the verb \<open>%d\<close> of \<open>fmt.Sprintf\<close>.\<close>

definition formatInt :: "int \<Rightarrow> string" where
  "formatInt n = (if n < 0 then CHR ''-'' # showNat (nat (- n)) else showNat (nat n))"

datatype numError = ErrSyntax | ErrRange

definition digitVal :: "char \<Rightarrow> nat option" where
  "digitVal c = (let d = of_char c in if 48 \<le> d \<and> d \<le> (57 :: nat) then Some (d - 48) else None)"

text \<open>The loop of \<open>strconv.ParseUint\<close> in base 10 at 64 bits.\<close>

fun parseUintLoop :: "nat \<Rightarrow> string \<Rightarrow> numError + nat" where
  "parseUintLoop n [] = Inr n"
| "parseUintLoop n (c # cs) =
     (case digitVal c of
        None \<Rightarrow> Inl ErrSyntax
      | Some d \<Rightarrow> if n * 10 + d \<ge> 2 ^ 64 then Inl ErrRange else parseUintLoop (n * 10 + d) cs)"

definition parseUint :: "string \<Rightarrow> numError + nat" where
  "parseUint s = (if s = [] then Inl ErrSyntax else parseUintLoop 0 s)"

text \<open>\<open>strconv.ParseInt(s, 10, 64)\<close>\<close>

definition parseInt :: "string \<Rightarrow> numError + int" where
  "parseInt s =
     (case s of
        [] \<Rightarrow> Inl ErrSyntax
      | c # cs \<Rightarrow>
          (let neg = (c = CHR ''-''); body = (if c = CHR ''+'' \<or> c = CHR ''-'' then cs else s) in
           case parseUint body of
             Inl e \<Rightarrow> Inl e
           | Inr un \<Rightarrow>
               if \<not> neg \<and> un \<ge> 2 ^ 63 then Inl ErrRange
               else if neg \<and> un > 2 ^ 63 then Inl ErrRange
               else Inr (if neg then - int un else int un)))"

lemma of_char_digitChar: "d < 10 \<Longrightarrow> of_char (digitChar d) = 48 + d"
  by (simp add: digitChar_def)

lemma digitVal_digitChar [simp]: "d < 10 \<Longrightarrow> digitVal (digitChar d) = Some d"
  by (simp add: digitVal_def of_char_digitChar)

lemma digitChar_inject: "a < 10 \<Longrightarrow> b < 10 \<Longrightarrow> digitChar a = digitChar b \<longleftrightarrow> a = b"
  by (metis add_left_cancel of_char_digitChar)

lemma showNat_not_Nil [simp]: "showNat n \<noteq> []"
  by (subst showNat.simps) simp

lemma set_showNat: "c \<in> set (showNat n) \<Longrightarrow> \<exists>d < 10. c = digitChar d"
proof (induction n rule: showNat.induct)
  case (1 n)
  show ?case
  proof (cases "n < 10")
    case True
    with "1.prems" show ?thesis by (subst (asm) showNat.simps) auto
  next
    case False
    with "1.prems" consider "c \<in> set (showNat (n div 10))" | "c = digitChar (n mod 10)"
      by (subst (asm) showNat.simps) auto
    then show ?thesis
    proof cases
      case 1
      with False "1.IH" show ?thesis by simp
    next
      case 2
      moreover have "n mod 10 < 10" by simp
      ultimately show ?thesis by blast
    qed
  qed
qed

lemma sign_not_in_showNat: "CHR ''-'' \<notin> set (showNat n)" "CHR ''+'' \<notin> set (showNat n)"
proof -
  have "digitChar d \<noteq> CHR ''-''" "digitChar d \<noteq> CHR ''+''" if "d < 10" for d
    using of_char_digitChar [OF that] by auto
  then show "CHR ''-'' \<notin> set (showNat n)" "CHR ''+'' \<notin> set (showNat n)"
    by (metis set_showNat)+
qed

lemma parseUintLoop_append:
  "parseUintLoop a (s @ t) =
     (case parseUintLoop a s of Inl e \<Rightarrow> Inl e | Inr b \<Rightarrow> parseUintLoop b t)"
  by (induction s arbitrary: a) (auto split: option.splits)

lemma parseUintLoop_showNat: "n < 2 ^ 64 \<Longrightarrow> parseUintLoop 0 (showNat n) = Inr n"
proof (induction n rule: showNat.induct)
  case (1 n)
  show ?case
  proof (cases "n < 10")
    case True
    then show ?thesis by (subst showNat.simps) simp
  next
    case False
    moreover have "n div 10 < 2 ^ 64" using "1.prems" by simp
    ultimately have "parseUintLoop 0 (showNat (n div 10)) = Inr (n div 10)"
      using "1.IH" by simp
    moreover have "n div 10 * 10 + n mod 10 = n" by simp
    ultimately show ?thesis
      using False "1.prems"
      by (subst showNat.simps) (simp add: parseUintLoop_append)
  qed
qed

lemma showNat_inject [simp]: "showNat m = showNat n \<longleftrightarrow> m = n"
proof (induction m arbitrary: n rule: showNat.induct)
  case (1 m)
  show ?case
  proof (cases "m < 10 \<or> n < 10")
    case True
    then show ?thesis
      by (auto simp: showNat.simps [of m] showNat.simps [of n] digitChar_inject
          append_eq_Cons_conv Cons_eq_append_conv)
  next
    case False
    then have "showNat m = showNat n \<longleftrightarrow> m div 10 = n div 10 \<and> m mod 10 = n mod 10"
      using "1.IH" by (simp add: showNat.simps [of m] showNat.simps [of n] digitChar_inject)
    also have "\<dots> \<longleftrightarrow> m = n" by (metis div_mult_mod_eq)
    finally show ?thesis .
  qed
qed

lemma hd_showNat_sign: "hd (showNat n) \<noteq> CHR ''-''" "hd (showNat n) \<noteq> CHR ''+''"
  using sign_not_in_showNat [of n] by (metis hd_in_set showNat_not_Nil)+

lemma formatInt_inject [simp]: "formatInt a = formatInt b \<longleftrightarrow> a = b"
proof -
  have "showNat k \<noteq> CHR ''-'' # showNat l" for k l
    using hd_showNat_sign [of k] by (metis list.sel(1))
  then show ?thesis
    by (auto simp: formatInt_def split: if_splits) (metis)+
qed

lemma parseInt_formatInt:
  assumes "- (2 ^ 63) \<le> n" and "n < 2 ^ 63"
  shows "parseInt (formatInt n) = Inr n"
proof (cases "n < 0")
  case True
  then have "nat (- n) < 2 ^ 64" using assms by simp
  then have "parseUint (showNat (nat (- n))) = Inr (nat (- n))"
    by (simp add: parseUint_def parseUintLoop_showNat)
  with True assms show ?thesis
    by (simp add: formatInt_def parseInt_def Let_def)
next
  case False
  then have "nat n < 2 ^ 64" using assms by simp
  then have parse: "parseUint (showNat (nat n)) = Inr (nat n)"
    by (simp add: parseUint_def parseUintLoop_showNat)
  obtain c cs where cs: "showNat (nat n) = c # cs"
    by (meson neq_Nil_conv showNat_not_Nil)
  with hd_showNat_sign [of "nat n"] have "c \<noteq> CHR ''-''" "c \<noteq> CHR ''+''" by simp_all
  with False assms parse cs show ?thesis
    by (simp add: formatInt_def parseInt_def Let_def)
qed

end
