(* ===== verification/K8s_Types.thy ===== *)
theory K8s_Types
  imports Prelude
begin

text \<open>
  The Kubernetes API types the operator fills in or reads (packages \<open>k8s.io/api\<close> and
  \<open>apimachinery\<close>), cut down to the fields the sources under \<open>src/\<close> mention.
  Embedding of \<open>ObjectMeta\<close> in Go is record extension here, so one selector
  \<open>ObjectMeta\<close> serves every kind of object. Sub-structures that the operator only passes
  along (resource requirements, \<open>envFrom\<close> sources, the rest of a volume claim) are kept as
  verbatim strings. A Go struct literal that leaves fields out is an update of the
  corresponding \<open>zero\<close> value.
\<close>

section \<open>Metadata\<close>

text \<open>\<open>metav1.Time\<close>: \<open>None\<close> is the zero time, otherwise seconds since the epoch.\<close>

type_synonym time = "int64 option"

definition isZero :: "time \<Rightarrow> bool" where
  "isZero t \<longleftrightarrow> t = None"

text \<open>\<open>Time.Unix()\<close>; the zero time is the first of January of year 1.\<close>

definition unixOf :: "time \<Rightarrow> int" where
  "unixOf t = (case t of None \<Rightarrow> - 62135596800 | Some s \<Rightarrow> sint s)"

record ownerReference =
  orAPIVersion :: string
  orKind :: string
  orName :: string
  orUID :: string
  orController :: bool

record objectMeta =
  Name :: string
  Namespace :: string
  UID :: string
  Labels :: "string gomap"
  Annotations :: "string gomap"
  CreationTimestamp :: time
  OwnerReferences :: "ownerReference list"

definition zeroMeta :: objectMeta where
  "zeroMeta = \<lparr>Name = '''', Namespace = '''', UID = '''', Labels = None, Annotations = None,
     CreationTimestamp = None, OwnerReferences = []\<rparr>"

record k8sobj =
  ObjectMeta :: objectMeta

type_synonym nsname = "string \<times> string" \<comment> \<open>namespace and name\<close>

definition objkey :: "'x k8sobj_scheme \<Rightarrow> nsname" where
  "objkey o1 = (Namespace (ObjectMeta o1), Name (ObjectMeta o1))"

text \<open>The API server stamps every object it stores; an unstamped one is new.\<close>

definition created :: "'x k8sobj_scheme \<Rightarrow> bool" where
  "created o1 \<longleftrightarrow> \<not> isZero (CreationTimestamp (ObjectMeta o1))"

section \<open>Volumes\<close>

record typedLocalObjectReference =
  refAPIGroup :: "string option"
  refKind :: string
  refName :: string

record persistentVolumeClaimSpec =
  DataSource :: "typedLocalObjectReference option"
  pvcOther :: string

record persistentVolumeClaim = k8sobj +
  pvcSpec :: persistentVolumeClaimSpec

datatype volumeSource =
    SecretVolume string
  | EmptyDir
  | ConfigMapVolume string int32
  | PvcVolume string

record volume =
  volName :: string
  volSource :: volumeSource

record volumeMount =
  vmName :: string
  MountPath :: string

section \<open>Containers and pods\<close>

datatype envVarSource = FieldRef string | OtherEnvSource string

record envVar =
  envName :: string
  envValue :: string
  envValueFrom :: "envVarSource option"

type_synonym envFromSource = string
type_synonym resourceRequirements = string

record containerPort =
  cpName :: string
  containerPortNo :: int32

record probe =
  probePath :: string
  probePort :: string
  InitialDelaySeconds :: int32
  PeriodSeconds :: int32
  FailureThreshold :: int32

record container =
  cName :: string
  Image :: string
  ImagePullPolicy :: string
  Command :: "string list"
  Args :: "string list"
  VolumeMounts :: "volumeMount list"
  Resources :: resourceRequirements
  Ports :: "containerPort list"
  Env :: "envVar list"
  EnvFrom :: "envFromSource list"
  StartupProbe :: "probe option"
  cRunAsUser :: "int64 option"

definition zeroContainer :: container where
  "zeroContainer = \<lparr>cName = '''', Image = '''', ImagePullPolicy = '''', Command = [], Args = [],
     VolumeMounts = [], Resources = '''', Ports = [], Env = [], EnvFrom = [],
     StartupProbe = None, cRunAsUser = None\<rparr>"

record podSecurityContext =
  FSGroup :: "int64 option"
  RunAsUser :: "int64 option"
  RunAsGroup :: "int64 option"
  SELinuxOptions :: "unit option"
  WindowsOptions :: "unit option"

record toleration =
  tolKey :: string
  tolOperator :: string
  tolValue :: string
  tolEffect :: string

record topologySpreadConstraint =
  MaxSkew :: int32
  TopologyKey :: string
  WhenUnsatisfiable :: string
  tscMatchLabels :: "string \<rightharpoonup> string"

record nodeSelectorRequirement =
  nsrKey :: string
  nsrOperator :: string

record preferredSchedulingTerm =
  pstWeight :: int32
  pstMatchExpressions :: "nodeSelectorRequirement list"

record labelSelectorRequirement =
  lsrKey :: string
  lsrOperator :: string
  lsrValues :: "string list"

record weightedPodAffinityTerm =
  wpaWeight :: int32
  wpaMatchLabels :: "string \<rightharpoonup> string"
  wpaMatchExpressions :: "labelSelectorRequirement list"
  wpaTopologyKey :: string

record podAffinity =
  NodeAffinityPreferred :: "preferredSchedulingTerm list"
  PodAntiAffinityPreferred :: "weightedPodAffinityTerm list"

record podSpec =
  ServiceAccountName :: string
  TopologySpreadConstraints :: "topologySpreadConstraint list"
  Affinity :: "podAffinity option"
  Tolerations :: "toleration list"
  Subdomain :: string
  psImagePullSecrets :: "string list"
  InitContainers :: "container list"
  Containers :: "container list"
  SecurityContext :: "podSecurityContext option"
  Volumes :: "volume list"
  RestartPolicy :: string

definition zeroPodSpec :: podSpec where
  "zeroPodSpec = \<lparr>ServiceAccountName = '''', TopologySpreadConstraints = [], Affinity = None,
     Tolerations = [], Subdomain = '''', psImagePullSecrets = [], InitContainers = [],
     Containers = [], SecurityContext = None, Volumes = [], RestartPolicy = ''''\<rparr>"

record podTemplateSpec =
  ptLabels :: "string gomap"
  ptSpec :: podSpec

section \<open>Workloads, services, secrets, snapshots\<close>

record statefulSet = k8sobj +
  stsSelector :: "string \<rightharpoonup> string"
  stsServiceName :: string
  stsReplicas :: "int32 option"
  stsTemplate :: podTemplateSpec
  stsVolumeClaimTemplates :: "persistentVolumeClaim list"
  stsCurrentReplicas :: int32 \<comment> \<open>Status.CurrentReplicas\<close>

record deployment = k8sobj +
  depSelector :: "string \<rightharpoonup> string"
  depReplicas :: "int32 option"
  depTemplate :: podTemplateSpec
  depStatusReplicas :: int32
  depStatusReadyReplicas :: int32

record job = k8sobj +
  jobTemplate :: podTemplateSpec
  jobCompletionTime :: "time option"
  jobFailed :: int32
  jobSucceeded :: int32

record servicePort =
  spName :: string
  spPort :: int32

record service = k8sobj +
  svcClusterIP :: string
  svcSelector :: "string \<rightharpoonup> string"
  svcPorts :: "servicePort list"

record secret = k8sobj +
  Data :: "string gomap"

record volumeSnapshot = k8sobj +
  vsClassName :: "string option"
  vsSourcePVC :: "string option"

section \<open>Zero values of the objects\<close>

text \<open>\<open>var x T\<close> followed by setting name and namespace.\<close>

definition named :: "string \<Rightarrow> string \<Rightarrow> objectMeta" where
  "named ns n = zeroMeta\<lparr>Name := n, Namespace := ns\<rparr>"

definition zeroPodTemplate :: podTemplateSpec where
  "zeroPodTemplate = \<lparr>ptLabels = None, ptSpec = zeroPodSpec\<rparr>"

definition newPVC :: "string \<Rightarrow> string \<Rightarrow> persistentVolumeClaim" where
  "newPVC ns n = \<lparr>ObjectMeta = named ns n, pvcSpec = \<lparr>DataSource = None, pvcOther = ''''\<rparr>\<rparr>"

definition newSecret :: "string \<Rightarrow> string \<Rightarrow> secret" where
  "newSecret ns n = \<lparr>ObjectMeta = named ns n, Data = None\<rparr>"

definition newSTS :: "string \<Rightarrow> string \<Rightarrow> statefulSet" where
  "newSTS ns n = \<lparr>ObjectMeta = named ns n, stsSelector = Map.empty, stsServiceName = '''',
     stsReplicas = None, stsTemplate = zeroPodTemplate, stsVolumeClaimTemplates = [],
     stsCurrentReplicas = 0\<rparr>"

definition newDeployment :: "string \<Rightarrow> string \<Rightarrow> deployment" where
  "newDeployment ns n = \<lparr>ObjectMeta = named ns n, depSelector = Map.empty, depReplicas = None,
     depTemplate = zeroPodTemplate, depStatusReplicas = 0, depStatusReadyReplicas = 0\<rparr>"

definition newJob :: "string \<Rightarrow> string \<Rightarrow> job" where
  "newJob ns n = \<lparr>ObjectMeta = named ns n, jobTemplate = zeroPodTemplate,
     jobCompletionTime = None, jobFailed = 0, jobSucceeded = 0\<rparr>"

definition newService :: "string \<Rightarrow> string \<Rightarrow> service" where
  "newService ns n = \<lparr>ObjectMeta = named ns n, svcClusterIP = '''', svcSelector = Map.empty,
     svcPorts = []\<rparr>"

definition newSnapshot :: "string \<Rightarrow> string \<Rightarrow> volumeSnapshot" where
  "newSnapshot ns n = \<lparr>ObjectMeta = named ns n, vsClassName = None, vsSourcePVC = None\<rparr>"

lemma meta_named [simp]:
  "Name (named ns n) = n" "Namespace (named ns n) = ns" "UID (named ns n) = ''''"
  "Labels (named ns n) = None" "Annotations (named ns n) = None"
  "CreationTimestamp (named ns n) = None" "OwnerReferences (named ns n) = []"
  by (simp_all add: named_def zeroMeta_def)

lemma ObjectMeta_new [simp]:
  "ObjectMeta (newPVC ns n) = named ns n"
  "ObjectMeta (newSecret ns n) = named ns n"
  "ObjectMeta (newSTS ns n) = named ns n"
  "ObjectMeta (newDeployment ns n) = named ns n"
  "ObjectMeta (newJob ns n) = named ns n"
  "ObjectMeta (newService ns n) = named ns n"
  "ObjectMeta (newSnapshot ns n) = named ns n"
  by (simp_all add: newPVC_def newSecret_def newSTS_def newDeployment_def newJob_def
      newService_def newSnapshot_def)

lemma objkey_new [simp]:
  "objkey (newPVC ns n) = (ns, n)"
  "objkey (newSecret ns n) = (ns, n)"
  "objkey (newSTS ns n) = (ns, n)"
  "objkey (newDeployment ns n) = (ns, n)"
  "objkey (newJob ns n) = (ns, n)"
  "objkey (newService ns n) = (ns, n)"
  "objkey (newSnapshot ns n) = (ns, n)"
  by (simp_all add: objkey_def)

section \<open>Well-formed pods\<close>

text \<open>
  What the API server demands of a pod, and what the operator's templates have to meet:
  distinct volume names, and every mount of every container refers to a volume. Claim
  templates of a stateful set act as further volumes \<open>extra\<close>.
\<close>

definition podVolumeNames :: "podSpec \<Rightarrow> string list" where
  "podVolumeNames p = map volName (Volumes p)"

definition podContainers :: "podSpec \<Rightarrow> container list" where
  "podContainers p = InitContainers p @ Containers p"

definition podWellFormed :: "string list \<Rightarrow> podSpec \<Rightarrow> bool" where
  "podWellFormed extra p \<longleftrightarrow>
     distinct (extra @ podVolumeNames p) \<and> Containers p \<noteq> [] \<and>
     distinct (map cName (podContainers p)) \<and>
     list_all (\<lambda>c. distinct (map MountPath (VolumeMounts c)) \<and>
       list_all (\<lambda>m. vmName m \<in> set (extra @ podVolumeNames p)) (VolumeMounts c)) (podContainers p)"

end
