(* ===== verification/Api_Types.thy ===== *)
theory Api_Types
  imports K8s_Types
begin

text \<open>
  The custom resources of \<open>src/api/v1alpha1\<close> (\<open>DirectoryService\<close>, \<open>DirectoryBackup\<close>,
  \<open>DirectoryRestore\<close>), the lookup of a secret name by DN, and the admission webhook of
  \<open>DirectoryService\<close>. Field names are those of the Go structs, with a prefix where a
  Kubernetes type already uses the name.
\<close>

section \<open>Resource specifications\<close>

record directorySecrets =
  MasterSecretName :: string
  SSLSecretName :: string
  TruststoreSecretName :: string

record directoryPodTemplate =
  tImage :: string
  tImagePullPolicy :: string
  tImagePullSecrets :: "string list"
  tResources :: resourceRequirements
  Certificates :: directorySecrets
  VolumeClaimSpec :: persistentVolumeClaimSpec
  ScriptConfigMapName :: string
  tInitEnvFrom :: "envFromSource list"
  tEnv :: "envVar list"
  tEnvFrom :: "envFromSource list"
  VolumeSnapshotClassName :: string
  tServiceAccountName :: string

record directorySnapshotSpec =
  snapEnabled :: bool
  PeriodMinutes :: int32
  SnapshotsRetained :: int32
  DirectoryInstance :: int32

record directoryPasswords =
  SecretName :: string
  Key :: string
  Create :: bool

text \<open>The next two are declared by the API but used by no resource.\<close>

record directoryKeystores =
  ksSecretName :: string

record trustStore =
  tsSecretName :: string
  tsKeyName :: string
  tsCreate :: bool

record directoryProxy =
  proxyEnabled :: bool
  proxyImage :: string
  proxyReplicas :: int32
  PrimaryGroupID :: string
  proxyResources :: resourceRequirements

record directoryServiceSpec =
  specLabels :: "string gomap"
  PodTemplate :: directoryPodTemplate
  Replicas :: "int32 option"
  Passwords :: "directoryPasswords gomap"
  Snapshots :: directorySnapshotSpec
  Proxy :: directoryProxy

section \<open>Resource status\<close>

record snapshotStatus =
  LastSnapshotTimeStamp :: int64

record directoryProxyStatus =
  statusReplicas :: int32
  statusReadyReplicas :: int32
  proxyServerMessage :: string

record directoryServiceStatus =
  Active :: "string list"
  CurrentReplicas :: "int32 option"
  ServerMessage :: string
  ProxyStatus :: directoryProxyStatus
  SnapshotStatus :: snapshotStatus

record directoryService = k8sobj +
  dsKind :: string
  Spec :: directoryServiceSpec
  Status :: directoryServiceStatus

text \<open>\<open>BackupStatus\<close> and \<open>DirectoryRestoreStatus\<close> have the same two fields.\<close>

record backupStatus =
  StartTimestamp :: "time option"
  CompletionTimestamp :: "time option"

record directoryBackup = k8sobj +
  dbKind :: string
  dbPodTemplate :: directoryPodTemplate
  ClaimToBackup :: string
  dbStatus :: backupStatus

record directoryRestore = k8sobj +
  drKind :: string
  drPodTemplate :: directoryPodTemplate
  SourcePVCName :: string
  drStatus :: backupStatus

section \<open>Group version and secret names\<close>

definition GroupVersion :: string where
  "GroupVersion = ''directory.forgerock.io/v1alpha1''"

definition zeroPasswords :: directoryPasswords where
  "zeroPasswords = \<lparr>SecretName = '''', Key = '''', Create = False\<rparr>"

definition SecretNameForDN :: "directoryService \<Rightarrow> string \<Rightarrow> string" where
  "SecretNameForDN ds pathRef = SecretName (mapIndex zeroPasswords (Passwords (Spec ds)) pathRef)"

abbreviation dsName :: "directoryService \<Rightarrow> string" where
  "dsName ds \<equiv> Name (ObjectMeta ds)"

abbreviation dsNamespace :: "directoryService \<Rightarrow> string" where
  "dsNamespace ds \<equiv> Namespace (ObjectMeta ds)"

section \<open>The admission webhook\<close>

definition Default :: "directoryService \<Rightarrow> directoryService" where
  "Default r =
     (if Replicas (Spec r) = None then r\<lparr>Spec := (Spec r)\<lparr>Replicas := Some 1\<rparr>\<rparr> else r)"

text \<open>Dereferencing \<open>r.Spec.Replicas\<close> panics on nil; the comparison is signed.\<close>

definition ValidateCreate :: "directoryService \<Rightarrow> ('w, goerr option) M" where
  "ValidateCreate r =
     (case Replicas (Spec r) of
        None \<Rightarrow> panic NilDeref
      | Some n \<Rightarrow>
          (let allErrs = (if 6 < sint n then [(''spec.Replicas'', sint n, ''must not exceed 6'')] else []) in
           if length allErrs = 0 then ret None
           else ret (Some (Invalid ''DirectoryService'' (dsName r) allErrs))))"

definition ValidateUpdate :: "directoryService \<Rightarrow> directoryService \<Rightarrow> ('w, goerr option) M" where
  "ValidateUpdate r old = ret None"

definition ValidateDelete :: "directoryService \<Rightarrow> ('w, goerr option) M" where
  "ValidateDelete r = ret None"

text \<open>The API server calls the mutating webhook before the validating one.\<close>

definition admitCreate :: "directoryService \<Rightarrow> ('w, goerr option \<times> directoryService) M" where
  "admitCreate r = (let d = Default r in bindM (ValidateCreate d) (\<lambda>e. ret (e, d)))"

definition admitUpdate ::
  "directoryService \<Rightarrow> directoryService \<Rightarrow> ('w, goerr option \<times> directoryService) M" where
  "admitUpdate r old = (let d = Default r in bindM (ValidateUpdate d old) (\<lambda>e. ret (e, d)))"

lemma Default_idem: "Default (Default r) = Default r"
  by (simp add: Default_def)

lemma Default_replicas: "Replicas (Spec (Default r)) = Some (case Replicas (Spec r) of None \<Rightarrow> 1 | Some n \<Rightarrow> n)"
  by (auto simp: Default_def split: option.splits)

lemma Default_meta [simp]: "ObjectMeta (Default r) = ObjectMeta r"
  by (simp add: Default_def)

text \<open>
  Property C28. Creation through the webhook never panics: whatever replica count the resource
  has, or none at all, it is admitted exactly when the count after defaulting is at most 6, the
  admitted object carries an explicit count, and everything but an absent count is untouched.
  A rejection names the resource and the offending value.
\<close>

theorem admitCreate_spec:
  "admitCreate r w =
     (let n = (case Replicas (Spec r) of None \<Rightarrow> 1 | Some k \<Rightarrow> k);
          d = r\<lparr>Spec := (Spec r)\<lparr>Replicas := Some n\<rparr>\<rparr> in
      (Ret (if sint n \<le> 6 then None
            else Some (Invalid ''DirectoryService'' (dsName r) [(''spec.Replicas'', sint n, ''must not exceed 6'')]), d), w))"
  by (cases "Replicas (Spec r)")
    (auto simp: admitCreate_def ValidateCreate_def Default_def Let_def go_simps)

end
