(* ===== verification/Environment.thy ===== *)
theory Environment
  imports Api_Types
begin

text \<open>
  What the operator relies on but does not implement. The Kubernetes client and API server,
  controller-runtime's helpers, the clock, the random source, Go's map iteration order and
  unstable sort, the event recorder and the LDAP library are one parameter, the record
  \<open>env\<close>, over an arbitrary type \<open>'w\<close> of outside worlds; every definition that uses one of
  them takes it as an argument.

  Documented behaviour is stated by predicates on \<open>env\<close> (\<open>env_documented\<close> and its parts)
  through a ghost function \<open>view\<close> that reads the object store off a world. No other actor
  writes to the store while a call runs; a failing write may or may not have been carried out.

  The locale \<open>kind_store\<close> is the interface between the store and its clients: it is
  interpreted for each of the ten kinds of object, and everything the components need about
  \<open>CreateOrUpdate\<close> is proved in it once. \<open>mutate_fn\<close> and \<open>create_only\<close> are the contracts of
  the callbacks the components pass to \<open>CreateOrUpdate\<close>.
\<close>

section \<open>The object store\<close>

datatype kind = KPvc | KSecret | KSts | KDep | KSvc | KSnap | KJob | KDs | KDb | KDr

record store =
  pvcs :: "nsname \<rightharpoonup> persistentVolumeClaim"
  secrets :: "nsname \<rightharpoonup> secret"
  statefulsets :: "nsname \<rightharpoonup> statefulSet"
  deployments :: "nsname \<rightharpoonup> deployment"
  services :: "nsname \<rightharpoonup> service"
  snapshots :: "nsname \<rightharpoonup> volumeSnapshot"
  jobs :: "nsname \<rightharpoonup> job"
  directoryservices :: "nsname \<rightharpoonup> directoryService"
  directorybackups :: "nsname \<rightharpoonup> directoryBackup"
  directoryrestores :: "nsname \<rightharpoonup> directoryRestore"

definition agree :: "kind \<Rightarrow> (kind \<times> nsname) set \<Rightarrow> (nsname \<rightharpoonup> 'o) \<Rightarrow> (nsname \<rightharpoonup> 'o) \<Rightarrow> bool" where
  "agree kd K m m' \<longleftrightarrow> (\<forall>k. (kd, k) \<notin> K \<longrightarrow> m' k = m k)"

text \<open>The stores differ at most in the objects \<open>K\<close>.\<close>

definition same_except :: "(kind \<times> nsname) set \<Rightarrow> store \<Rightarrow> store \<Rightarrow> bool" where
  "same_except K s s' \<longleftrightarrow>
     agree KPvc K (pvcs s) (pvcs s') \<and> agree KSecret K (secrets s) (secrets s') \<and>
     agree KSts K (statefulsets s) (statefulsets s') \<and> agree KDep K (deployments s) (deployments s') \<and>
     agree KSvc K (services s) (services s') \<and> agree KSnap K (snapshots s) (snapshots s') \<and>
     agree KJob K (jobs s) (jobs s') \<and> agree KDs K (directoryservices s) (directoryservices s') \<and>
     agree KDb K (directorybackups s) (directorybackups s') \<and>
     agree KDr K (directoryrestores s) (directoryrestores s')"

lemma agree_refl [simp]: "agree kd K m m"
  by (simp add: agree_def)

lemma agree_trans: "agree kd K m m' \<Longrightarrow> agree kd K m' m'' \<Longrightarrow> agree kd K m m''"
  by (simp add: agree_def)

lemma agree_mono: "agree kd K m m' \<Longrightarrow> K \<subseteq> L \<Longrightarrow> agree kd L m m'"
  by (auto simp: agree_def)

lemma agree_upd: "(kd, k) \<in> K \<Longrightarrow> agree kd K m (m(k := v))"
  by (simp add: agree_def)

lemma agree_empty: "agree kd {} m m' \<longleftrightarrow> m' = m"
  by (auto simp: agree_def)

lemma same_except_refl: "same_except K s s"
  by (simp add: same_except_def)

lemma same_except_trans: "same_except K s s' \<Longrightarrow> same_except K s' s'' \<Longrightarrow> same_except K s s''"
  unfolding same_except_def by (meson agree_trans)

lemma same_except_mono: "same_except K s s' \<Longrightarrow> K \<subseteq> L \<Longrightarrow> same_except L s s'"
  unfolding same_except_def by (meson agree_mono)

lemma same_except_empty: "same_except {} s s' \<longleftrightarrow> s' = s"
  by (cases s, cases s') (auto simp: same_except_def agree_empty)

definition stays :: "(kind \<times> nsname) set \<Rightarrow> ('w \<Rightarrow> store) \<Rightarrow> 'w \<Rightarrow> 'w \<Rightarrow> bool" where
  "stays K view w w' \<longleftrightarrow> same_except K (view w) (view w')"

lemma stays_empty: "stays {} view w w' \<longleftrightarrow> view w' = view w"
  by (simp add: stays_def same_except_empty)

lemma stays_mono: "stays K view w w' \<Longrightarrow> K \<subseteq> L \<Longrightarrow> stays L view w w'"
  by (auto simp: stays_def intro: same_except_mono)

interpretation frame: world_order "stays K view" for K :: "(kind \<times> nsname) set" and view :: "'w \<Rightarrow> store"
  by unfold_locales (auto simp: stays_def intro: same_except_refl same_except_trans)

lemma pres_stays_mono: "pres (stays K view) m \<Longrightarrow> K \<subseteq> L \<Longrightarrow> pres (stays L view) m"
  by (erule pres_mono) (rule stays_mono)

section \<open>The client of one kind of object\<close>

text \<open>
  A callback of \<open>CreateOrUpdate\<close> works on the object and on the variables \<open>'l\<close> of the
  enclosing function that it captures.
\<close>

type_synonym ('w, 'o, 'l) mutateFn = "'o \<Rightarrow> 'l \<Rightarrow> ('w, goerr option \<times> 'o \<times> 'l) M"

record ('w, 'o, 'l) kclient =
  kGet :: "nsname \<Rightarrow> 'w \<Rightarrow> (goerr + 'o) \<times> 'w"
  kCreate :: "'o \<Rightarrow> 'w \<Rightarrow> (goerr + 'o) \<times> 'w"
  kUpdate :: "'o \<Rightarrow> 'w \<Rightarrow> (goerr + 'o) \<times> 'w"
  kStatusUpdate :: "'o \<Rightarrow> 'w \<Rightarrow> (goerr + 'o) \<times> 'w"
  kDelete :: "'o \<Rightarrow> 'w \<Rightarrow> goerr option \<times> 'w"
  kList :: "string \<Rightarrow> (string \<rightharpoonup> string) \<Rightarrow> 'w \<Rightarrow> (goerr + 'o list) \<times> 'w"
  kCreateOrUpdate :: "'o \<Rightarrow> 'l \<Rightarrow> ('w, 'o, 'l) mutateFn \<Rightarrow> ('w, goerr option \<times> 'o \<times> 'l) M"

text \<open>\<open>client.IgnoreNotFound\<close>\<close>

definition IgnoreNotFound :: "goerr \<Rightarrow> goerr option" where
  "IgnoreNotFound e = (if e = NotFound then None else Some e)"

subsection \<open>Documented behaviour\<close>

text \<open>\<open>Get\<close> reads the store; stored objects have their own key and a creation timestamp.\<close>

definition get_documented ::
  "(store \<Rightarrow> nsname \<rightharpoonup> 'x k8sobj_scheme) \<Rightarrow> ('w \<Rightarrow> store) \<Rightarrow>
   ('w, 'x k8sobj_scheme, 'l) kclient \<Rightarrow> bool" where
  "get_documented sel view kc \<longleftrightarrow>
     (\<forall>k w r w'. kGet kc k w = (r, w') \<longrightarrow>
        view w' = view w \<and>
        (r = Inl NotFound \<longrightarrow> sel (view w) k = None) \<and>
        (\<forall>x. r = Inr x \<longrightarrow> sel (view w) k = Some x \<and> objkey x = k \<and> created x))"

text \<open>
  A write replaces exactly the object under its key. What is stored may differ from what was
  sent (defaulting, timestamps, subresources): \<open>acc old sent stored\<close> says how. On an error
  the write may have happened or not.
\<close>

definition write_documented ::
  "('x k8sobj_scheme option \<Rightarrow> 'x k8sobj_scheme \<Rightarrow> 'x k8sobj_scheme \<Rightarrow> bool) \<Rightarrow>
   (store \<Rightarrow> nsname \<rightharpoonup> 'x k8sobj_scheme) \<Rightarrow> ((nsname \<rightharpoonup> 'x k8sobj_scheme) \<Rightarrow> store \<Rightarrow> store) \<Rightarrow>
   ('w \<Rightarrow> store) \<Rightarrow> ('x k8sobj_scheme \<Rightarrow> 'w \<Rightarrow> (goerr + 'x k8sobj_scheme) \<times> 'w) \<Rightarrow> bool" where
  "write_documented acc sel upd view op \<longleftrightarrow>
     (\<forall>x w r w'. op x w = (r, w') \<longrightarrow>
        (\<exists>y. objkey y = objkey x \<and> created y \<and> acc (sel (view w) (objkey x)) x y \<and>
             view w' = upd ((sel (view w))(objkey x \<mapsto> y)) (view w) \<and> (\<forall>z. r = Inr z \<longrightarrow> z = y)) \<or>
        (\<exists>e. r = Inl e \<and> view w' = view w))"

text \<open>A deletion may be deferred by finalizers; it never touches another object.\<close>

definition delete_documented ::
  "(store \<Rightarrow> nsname \<rightharpoonup> 'x k8sobj_scheme) \<Rightarrow> ((nsname \<rightharpoonup> 'x k8sobj_scheme) \<Rightarrow> store \<Rightarrow> store) \<Rightarrow>
   ('w \<Rightarrow> store) \<Rightarrow> ('w, 'x k8sobj_scheme, 'l) kclient \<Rightarrow> bool" where
  "delete_documented sel upd view kc \<longleftrightarrow>
     (\<forall>x w r w'. kDelete kc x w = (r, w') \<longrightarrow>
        view w' = view w \<or> view w' = upd ((sel (view w))(objkey x := None)) (view w))"

text \<open>\<open>List\<close> with \<open>InNamespace\<close> and \<open>MatchingLabels\<close>: every match once, in any order.\<close>

definition labelsMatch :: "(string \<rightharpoonup> string) \<Rightarrow> 'x k8sobj_scheme \<Rightarrow> bool" where
  "labelsMatch want x \<longleftrightarrow> want \<subseteq>\<^sub>m mapGet (Labels (ObjectMeta x))"

definition list_documented ::
  "(store \<Rightarrow> nsname \<rightharpoonup> 'x k8sobj_scheme) \<Rightarrow> ('w \<Rightarrow> store) \<Rightarrow>
   ('w, 'x k8sobj_scheme, 'l) kclient \<Rightarrow> bool" where
  "list_documented sel view kc \<longleftrightarrow>
     (\<forall>ns want w r w'. kList kc ns want w = (r, w') \<longrightarrow>
        view w' = view w \<and>
        (\<forall>xs. r = Inr xs \<longrightarrow> distinct (map objkey xs) \<and>
           set xs = {x. sel (view w) (objkey x) = Some x \<and> fst (objkey x) = ns \<and> labelsMatch want x}))"

text \<open>
  \<open>CreateOrUpdate\<close>: fetch the object by key; run the callback on what was found, or on the
  given object when nothing was found; refuse a callback that changes the key; then create,
  update, or do nothing if the callback changed nothing.
\<close>

definition couFinish ::
  "('x k8sobj_scheme \<Rightarrow> 'w \<Rightarrow> (goerr + 'x k8sobj_scheme) \<times> 'w) \<Rightarrow> nsname \<Rightarrow>
   goerr option \<times> 'x k8sobj_scheme \<times> 'l \<Rightarrow> ('w, goerr option \<times> 'x k8sobj_scheme \<times> 'l) M" where
  "couFinish op k res =
     (case res of (Some e, y, l) \<Rightarrow> ret (Some e, y, l)
      | (None, y, l) \<Rightarrow>
          if objkey y \<noteq> k then ret (Some (Errorf ''MutateFn cannot mutate object name and/or object namespace''), y, l)
          else bindM (callM (op y)) (\<lambda>r. case r of Inl e \<Rightarrow> ret (Some e, y, l) | Inr z \<Rightarrow> ret (None, z, l)))"

definition couSpec ::
  "('w, 'x k8sobj_scheme, 'l) kclient \<Rightarrow> 'x k8sobj_scheme \<Rightarrow> 'l \<Rightarrow>
   ('w, 'x k8sobj_scheme, 'l) mutateFn \<Rightarrow> ('w, goerr option \<times> 'x k8sobj_scheme \<times> 'l) M" where
  "couSpec kc x l f =
     bindM (callM (kGet kc (objkey x))) (\<lambda>g.
       case g of
         Inl e \<Rightarrow>
           if e = NotFound then bindM (f x l) (couFinish (kCreate kc) (objkey x))
           else ret (Some e, x, l)
       | Inr cur \<Rightarrow>
           bindM (f cur l) (\<lambda>res.
             if fst res = None \<and> fst (snd res) = cur then ret res
             else couFinish (kUpdate kc) (objkey x) res))"

definition client_documented ::
  "('x k8sobj_scheme option \<Rightarrow> 'x k8sobj_scheme \<Rightarrow> 'x k8sobj_scheme \<Rightarrow> bool) \<Rightarrow>
   ('x k8sobj_scheme option \<Rightarrow> 'x k8sobj_scheme \<Rightarrow> 'x k8sobj_scheme \<Rightarrow> bool) \<Rightarrow>
   (store \<Rightarrow> nsname \<rightharpoonup> 'x k8sobj_scheme) \<Rightarrow> ((nsname \<rightharpoonup> 'x k8sobj_scheme) \<Rightarrow> store \<Rightarrow> store) \<Rightarrow>
   ('w \<Rightarrow> store) \<Rightarrow> ('w, 'x k8sobj_scheme, 'l) kclient \<Rightarrow> bool" where
  "client_documented acc accS sel upd view kc \<longleftrightarrow>
     get_documented sel view kc \<and> write_documented acc sel upd view (kCreate kc) \<and>
     write_documented acc sel upd view (kUpdate kc) \<and>
     write_documented accS sel upd view (kStatusUpdate kc) \<and>
     delete_documented sel upd view kc \<and> list_documented sel view kc \<and>
     (\<forall>x l f. kCreateOrUpdate kc x l f = couSpec kc x l f)"

section \<open>The interface of a kind of object\<close>

locale kind_store =
  fixes kd :: kind
    and sel :: "store \<Rightarrow> nsname \<rightharpoonup> 'x k8sobj_scheme"
    and upd :: "(nsname \<rightharpoonup> 'x k8sobj_scheme) \<Rightarrow> store \<Rightarrow> store"
  assumes sel_upd: "sel (upd m s) = m"
    and upd_upd: "upd m (upd m' s) = upd m s"
    and upd_frame: "(kd, k) \<in> K \<Longrightarrow> same_except K s (upd ((sel s)(k := v)) s)"
    and sel_frame: "same_except K s s' \<Longrightarrow> (kd, k) \<notin> K \<Longrightarrow> sel s' k = sel s k"
begin

lemma stays_at: "stays K view w w' \<Longrightarrow> (kd, k) \<notin> K \<Longrightarrow> sel (view w') k = sel (view w) k"
  unfolding stays_def by (rule sel_frame)

lemma stays_kind:
  assumes "stays K view w w'" and "kd \<notin> fst ` K"
  shows "sel (view w') = sel (view w)"
proof
  fix k
  show "sel (view w') k = sel (view w) k" by (rule stays_at [OF assms(1)]) (use assms(2) in force)
qed

lemma get_view: "client_documented acc accS sel upd view kc \<Longrightarrow> kGet kc k w = (r, w') \<Longrightarrow> view w' = view w"
  unfolding client_documented_def get_documented_def by blast

lemma get_Inr:
  "client_documented acc accS sel upd view kc \<Longrightarrow> kGet kc k w = (Inr x, w') \<Longrightarrow>
   sel (view w) k = Some x \<and> objkey x = k \<and> created x"
  unfolding client_documented_def get_documented_def by blast

lemma get_NotFound:
  "client_documented acc accS sel upd view kc \<Longrightarrow> kGet kc k w = (Inl NotFound, w') \<Longrightarrow> sel (view w) k = None"
  unfolding client_documented_def get_documented_def by blast

lemma list_view:
  "client_documented acc accS sel upd view kc \<Longrightarrow> kList kc ns want w = (r, w') \<Longrightarrow> view w' = view w"
  unfolding client_documented_def list_documented_def by blast

lemma list_Inr:
  "client_documented acc accS sel upd view kc \<Longrightarrow> kList kc ns want w = (Inr xs, w') \<Longrightarrow>
   distinct (map objkey xs) \<and>
   set xs = {x. sel (view w) (objkey x) = Some x \<and> fst (objkey x) = ns \<and> labelsMatch want x}"
  unfolding client_documented_def list_documented_def by blast

lemma get_stays: "client_documented acc accS sel upd view kc \<Longrightarrow> pres (stays K view) (callM (kGet kc k))"
  by (rule frame.pres_callM) (metis get_view frame.R_refl stays_def)

lemma list_stays: "client_documented acc accS sel upd view kc \<Longrightarrow> pres (stays K view) (callM (kList kc ns want))"
  by (rule frame.pres_callM) (metis list_view frame.R_refl stays_def)

lemma write_stays:
  assumes "write_documented acc sel upd view op" and "(kd, objkey x) \<in> K"
  shows "pres (stays K view) (callM (op x))"
proof (rule frame.pres_callM)
  fix w r w'
  assume "op x w = (r, w')"
  with assms(1) obtain y where
    "view w' = upd ((sel (view w))(objkey x \<mapsto> y)) (view w) \<or> view w' = view w"
    unfolding write_documented_def by blast
  with assms(2) show "stays K view w w'"
    by (auto simp: stays_def same_except_refl intro: upd_frame)
qed

lemma write_Inr:
  assumes "write_documented acc sel upd view op" and "op x w = (Inr y, w')"
  shows "objkey y = objkey x \<and> created y \<and> acc (sel (view w) (objkey x)) x y \<and>
    view w' = upd ((sel (view w))(objkey x \<mapsto> y)) (view w)"
  using assms unfolding write_documented_def by blast

lemma update_Inr:
  assumes "client_documented acc accS sel upd view kc" and "kUpdate kc x w = (Inr y, w')"
  shows "objkey y = objkey x \<and> created y \<and> acc (sel (view w) (objkey x)) x y \<and>
    view w' = upd ((sel (view w))(objkey x \<mapsto> y)) (view w)"
proof -
  from assms(1) have "write_documented acc sel upd view (kUpdate kc)" by (simp add: client_documented_def)
  from write_Inr [OF this assms(2)] show ?thesis .
qed

lemma statusUpdate_Inr:
  assumes "client_documented acc accS sel upd view kc" and "kStatusUpdate kc x w = (Inr y, w')"
  shows "objkey y = objkey x \<and> created y \<and> accS (sel (view w) (objkey x)) x y \<and>
    view w' = upd ((sel (view w))(objkey x \<mapsto> y)) (view w)"
proof -
  from assms(1) have "write_documented accS sel upd view (kStatusUpdate kc)" by (simp add: client_documented_def)
  from write_Inr [OF this assms(2)] show ?thesis .
qed

lemma statusUpdate_stays:
  "client_documented acc accS sel upd view kc \<Longrightarrow> (kd, objkey x) \<in> K \<Longrightarrow>
   pres (stays K view) (callM (kStatusUpdate kc x))"
  unfolding client_documented_def by (blast intro: write_stays)

lemma update_stays:
  "client_documented acc accS sel upd view kc \<Longrightarrow> (kd, objkey x) \<in> K \<Longrightarrow>
   pres (stays K view) (callM (kUpdate kc x))"
  unfolding client_documented_def by (blast intro: write_stays)

lemma delete_stays:
  assumes "client_documented acc accS sel upd view kc" and "(kd, objkey x) \<in> K"
  shows "pres (stays K view) (callM (kDelete kc x))"
proof (rule frame.pres_callM)
  fix w r w'
  assume "kDelete kc x w = (r, w')"
  with assms(1) have "view w' = view w \<or> view w' = upd ((sel (view w))(objkey x := None)) (view w)"
    unfolding client_documented_def delete_documented_def by blast
  with assms(2) show "stays K view w w'"
    by (auto simp: stays_def same_except_refl intro: upd_frame)
qed

lemma couFinish_stays:
  assumes "write_documented acc sel upd view op" and "(kd, k) \<in> K"
  shows "pres (stays K view) (couFinish op k res)"
proof -
  obtain e y l where res: "res = (e, y, l)" by (cases res) auto
  show ?thesis
  proof (cases "e = None \<and> objkey y = k")
    case True
    with assms have "pres (stays K view) (callM (op y))" by (blast intro: write_stays)
    with True res show ?thesis
      by (auto simp: couFinish_def intro!: frame.pres_bindM frame.pres_ret split: sum.splits)
  next
    case False
    with res show ?thesis
      by (auto simp: couFinish_def frame.pres_ret split: option.splits)
  qed
qed

text \<open>\<open>CreateOrUpdate\<close> panics only if its callback does.\<close>

lemma cou_noPanic:
  assumes kc: "client_documented acc accS sel upd view kc" and f: "\<And>y m. noPanic (f y m)"
  shows "noPanic (kCreateOrUpdate kc x l f)"
proof -
  have fin: "noPanic (couFinish op k res)" for op k res
    by (cases res) (auto simp: couFinish_def intro!: noPanic_intros split: option.splits sum.splits)
  from kc have "kCreateOrUpdate kc x l f = couSpec kc x l f"
    unfolding client_documented_def by blast
  then show ?thesis
    by (auto simp: couSpec_def intro!: noPanic_intros f fin split: sum.splits)
qed

text \<open>\<open>CreateOrUpdate\<close> touches its own object and what its callback touches.\<close>

lemma cou_stays:
  assumes kc: "client_documented acc accS sel upd view kc"
    and f: "\<And>y m. pres (stays K view) (f y m)"
    and k: "(kd, objkey x) \<in> K"
  shows "pres (stays K view) (kCreateOrUpdate kc x l f)"
proof -
  from kc have cou: "kCreateOrUpdate kc x l f = couSpec kc x l f"
    and c: "write_documented acc sel upd view (kCreate kc)"
    and u: "write_documented acc sel upd view (kUpdate kc)"
    unfolding client_documented_def by blast+
  show ?thesis
    unfolding cou couSpec_def
    by (rule frame.pres_bindM [OF get_stays [OF kc]])
      (auto intro!: frame.pres_bindM f couFinish_stays [OF c k] couFinish_stays [OF u k]
        frame.pres_ret split: sum.splits)
qed

text \<open>What a successful \<open>CreateOrUpdate\<close> did, for a callback that does not write to the store.\<close>

lemma couFinish_success:
  assumes "write_documented acc sel upd view op" and "couFinish op k (e, y, l1) w = (Ret (None, z, l'), w')"
  shows "e = None \<and> l' = l1 \<and> objkey y = k \<and> objkey z = k \<and> created z \<and> acc (sel (view w) k) y z \<and>
    view w' = upd ((sel (view w))(k \<mapsto> z)) (view w)"
proof -
  from assms(2) have e: "e = None" and y: "objkey y = k" and op: "op y w = (Inr z, w')" "l' = l1"
    by (auto simp: couFinish_def ret_apply bindM_def callM_def
        split: option.splits if_splits sum.splits prod.splits)
  from assms(1) op(1) obtain y' where "objkey y' = objkey y" "created y'"
    "acc (sel (view w) (objkey y)) y y'" "view w' = upd ((sel (view w))(objkey y \<mapsto> y')) (view w)" "z = y'"
    unfolding write_documented_def by blast
  with e y op(2) show ?thesis by simp
qed

lemma cou_success [consumes 3, case_names existing fresh]:
  assumes kc: "client_documented acc accS sel upd view kc"
    and quiet: "\<And>y m. pres (stays {} view) (f y m)"
    and run: "kCreateOrUpdate kc x l f w = (Ret (None, z, l'), w')"
  obtains
    cur w1 w2 y where "sel (view w) (objkey x) = Some cur" "created cur" "objkey cur = objkey x" "view w1 = view w"
      "f cur l w1 = (Ret (None, y, l'), w2)" "objkey z = objkey x" "created z"
      "sel (view w') (objkey x) = Some z"
      "y = cur \<and> z = cur \<and> view w' = view w \<or> y \<noteq> cur \<and> acc (Some cur) y z"
  | w1 w2 y where "sel (view w) (objkey x) = None" "view w1 = view w" "f x l w1 = (Ret (None, y, l'), w2)"
      "objkey z = objkey x" "created z" "sel (view w') (objkey x) = Some z" "acc None y z"
proof -
  from kc have cou: "kCreateOrUpdate kc x l f = couSpec kc x l f"
    and c: "write_documented acc sel upd view (kCreate kc)"
    and u: "write_documented acc sel upd view (kUpdate kc)"
    unfolding client_documented_def by blast+
  obtain g w1 where get: "kGet kc (objkey x) w = (g, w1)" by (cases "kGet kc (objkey x) w")
  have v1: "view w1 = view w" by (rule get_view [OF kc get])
  show thesis
  proof (cases g)
    case (Inl e)
    with run get obtain res w2 where e: "e = NotFound" and f: "f x l w1 = (Ret res, w2)"
      and fin: "couFinish (kCreate kc) (objkey x) res w2 = (Ret (None, z, l'), w')"
      by (auto simp: cou couSpec_def bindM_eq_Ret callM_eq_Ret ret_apply split: if_splits)
    obtain e1 y l1 where res: "res = (e1, y, l1)" by (cases res) auto
    from presD [OF quiet f] v1 have v2: "view w2 = view w" by (simp add: stays_empty)
    note fin' = couFinish_success [OF c fin [unfolded res], unfolded v2]
    from get_NotFound [OF kc] get Inl e have none: "sel (view w) (objkey x) = None" by simp
    from fin' have upd': "sel (view w') (objkey x) = Some z" by (simp add: sel_upd)
    show thesis
      by (rule that(2) [of w1 y w2]) (use none v1 f res fin' upd' in auto)
  next
    case (Inr cur)
    from get_Inr [OF kc] get Inr have cur: "sel (view w) (objkey x) = Some cur" "objkey cur = objkey x" "created cur"
      by blast+
    from run get Inr obtain res w2 where f: "f cur l w1 = (Ret res, w2)"
      and fin: "(if fst res = None \<and> fst (snd res) = cur then ret res
                 else couFinish (kUpdate kc) (objkey x) res) w2 = (Ret (None, z, l'), w')"
      by (auto simp: cou couSpec_def bindM_eq_Ret callM_eq_Ret)
    obtain e1 y l1 where res: "res = (e1, y, l1)" by (cases res) auto
    from presD [OF quiet f] v1 have v2: "view w2 = view w" by (simp add: stays_empty)
    show thesis
    proof (cases "e1 = None \<and> y = cur")
      case True
      with fin res have "z = cur" "l' = l1" "w' = w2" by (simp_all add: ret_apply)
      with True show thesis
        by (intro that(1) [of cur w1 y w2]) (use cur v1 v2 f res in auto)
    next
      case False
      with fin res have "couFinish (kUpdate kc) (objkey x) (e1, y, l1) w2 = (Ret (None, z, l'), w')" by auto
      note fin' = couFinish_success [OF u this, unfolded v2]
      from fin' have upd': "sel (view w') (objkey x) = Some z" by (simp add: sel_upd)
      show thesis
        by (rule that(1) [of cur w1 y w2]) (use False cur v1 f res fin' upd' in auto)
    qed
  qed
qed

text \<open>Whatever the outcome, the store is unchanged or holds a written version of the callback's result.\<close>

lemma couFinish_effect:
  assumes op: "write_documented acc sel upd view op" and run: "couFinish op k (e, y, l1) w = (r, w')"
  shows "view w' = view w \<or> e = None \<and> objkey y = k \<and>
    (\<exists>z. objkey z = k \<and> created z \<and> acc (sel (view w) k) y z \<and> view w' = upd ((sel (view w))(k \<mapsto> z)) (view w))"
proof (cases "e = None \<and> objkey y = k")
  case True
  obtain q w1 where q: "op y w = (q, w1)" by (cases "op y w")
  with True run have "w' = w1" by (auto simp: couFinish_def bindM_def callM_def ret_def split: sum.splits)
  with op q True show ?thesis unfolding write_documented_def by blast
next
  case False
  with run show ?thesis by (auto simp: couFinish_def ret_def split: option.splits if_splits)
qed

lemma cou_effect:
  assumes kc: "client_documented acc accS sel upd view kc"
    and quiet: "\<And>y m. pres (stays {} view) (f y m)"
    and run: "kCreateOrUpdate kc x l f w = (r, w')"
  shows "view w' = view w \<or>
    (\<exists>base y z l1 w1 w2. view w1 = view w \<and>
       (sel (view w) (objkey x) = None \<and> base = x \<or> sel (view w) (objkey x) = Some base \<and> created base) \<and>
       f base l w1 = (Ret (None, y, l1), w2) \<and> objkey z = objkey x \<and> created z \<and>
       acc (sel (view w) (objkey x)) y z \<and> view w' = upd ((sel (view w))(objkey x \<mapsto> z)) (view w))"
proof -
  from kc have cou: "kCreateOrUpdate kc x l f = couSpec kc x l f"
    and c: "write_documented acc sel upd view (kCreate kc)"
    and u: "write_documented acc sel upd view (kUpdate kc)"
    unfolding client_documented_def by blast+
  obtain g w1 where get: "kGet kc (objkey x) w = (g, w1)" by (cases "kGet kc (objkey x) w")
  have v1: "view w1 = view w" by (rule get_view [OF kc get])
  define base where "base = (case g of Inl _ \<Rightarrow> x | Inr cur \<Rightarrow> cur)"
  define op where "op = (case g of Inl _ \<Rightarrow> kCreate kc | Inr _ \<Rightarrow> kUpdate kc)"
  have op: "write_documented acc sel upd view op" using c u by (simp add: op_def split: sum.splits)
  obtain q w2 where f: "f base l w1 = (q, w2)" by (cases "f base l w1")
  with presD [OF quiet f] v1 have v2: "view w2 = view w" by (simp add: stays_empty)
  have base: "sel (view w) (objkey x) = None \<and> base = x \<or> sel (view w) (objkey x) = Some base \<and> created base"
    if "g = Inl NotFound \<or> (\<exists>cur. g = Inr cur)"
    using that get_NotFound [OF kc, of "objkey x" w w1] get_Inr [OF kc, of "objkey x" w _ w1] get
    by (auto simp: base_def)
  have "w' = w1 \<or> w' = w2 \<or> (\<exists>e y l1. q = Ret (e, y, l1) \<and> couFinish op (objkey x) (e, y, l1) w2 = (r, w') \<and>
      (g = Inl NotFound \<or> (\<exists>cur. g = Inr cur)))"
    using run get f
    by (auto simp: cou couSpec_def bindM_def callM_def ret_def base_def op_def split: sum.splits result.splits if_splits)
  then show ?thesis
    using v1 v2 base couFinish_effect [OF op, of "objkey x"] f by (metis (no_types, lifting))
qed

lemma cou_present:
  assumes "client_documented acc accS sel upd view kc"
    and "\<And>y m. pres (stays {} view) (f y m)"
    and "kCreateOrUpdate kc x l f w = (Ret (None, z, l'), w')"
  shows "sel (view w') (objkey x) = Some z"
  by (rule cou_success [OF assms])

lemma cou_key:
  assumes "client_documented acc accS sel upd view kc"
    and "\<And>y m. pres (stays {} view) (f y m)"
    and "kCreateOrUpdate kc x l f w = (Ret (None, z, l'), w')"
  shows "objkey z = objkey x"
  by (rule cou_success [OF assms])

end

section \<open>Contracts of the callbacks\<close>

text \<open>
  \<open>CreateOrUpdate\<close> refuses a callback that changes name or namespace. A callback may build the
  object from what it captures; \<open>okl\<close> says which captured values belong to the key.
\<close>

locale mutate_fn = kind_store kd sel upd
  for kd :: kind
    and sel :: "store \<Rightarrow> nsname \<rightharpoonup> 'x k8sobj_scheme"
    and upd :: "(nsname \<rightharpoonup> 'x k8sobj_scheme) \<Rightarrow> store \<Rightarrow> store" +
  fixes f :: "('w, 'x k8sobj_scheme, 'l) mutateFn" and k0 :: nsname and okl :: "'l \<Rightarrow> bool"
  assumes f_key: "okl l \<Longrightarrow> objkey y = k0 \<Longrightarrow> f y l w = (Ret (e, y', l'), w') \<Longrightarrow> objkey y' = k0"
begin

text \<open>So an error of \<open>CreateOrUpdate\<close> is one of the API server's or of the callback.\<close>

lemma couFinish_error:
  "objkey y = k \<Longrightarrow> couFinish op k (e, y, l1) w = (Ret (Some err, z, l'), w') \<Longrightarrow>
   e = Some err \<or> op y w = (Inl err, w')"
  by (auto simp: couFinish_def ret_apply bindM_def callM_def
        split: option.splits if_splits sum.splits prod.splits)

lemma cou_error:
  assumes kc: "client_documented acc accS sel upd view kc" and x: "objkey x = k0" and l: "okl l"
    and run: "kCreateOrUpdate kc x l f w = (Ret (Some err, z, l'), w')"
  shows "(\<exists>w1. kGet kc (objkey x) w = (Inl err, w1)) \<or> (\<exists>y m u v y' m'. f y m u = (Ret (Some err, y', m'), v)) \<or>
    (\<exists>y u. kCreate kc y u = (Inl err, w')) \<or> (\<exists>y u. kUpdate kc y u = (Inl err, w'))"
proof -
  from kc have cou: "kCreateOrUpdate kc x l f = couSpec kc x l f"
    unfolding client_documented_def by blast
  obtain g w1 where get: "kGet kc (objkey x) w = (g, w1)" by (cases "kGet kc (objkey x) w")
  show ?thesis
  proof (cases g)
    case (Inl e)
    show ?thesis
    proof (cases "e = NotFound")
      case True
      with run get Inl obtain e1 y l1 w2 where f: "f x l w1 = (Ret (e1, y, l1), w2)"
        and fin: "couFinish (kCreate kc) (objkey x) (e1, y, l1) w2 = (Ret (Some err, z, l'), w')"
        by (auto simp: cou couSpec_def bindM_eq_Ret callM_eq_Ret)
      from couFinish_error [OF _ fin] f_key [OF l x f] x f show ?thesis by auto
    next
      case False
      with run get Inl show ?thesis by (auto simp: cou couSpec_def bindM_eq_Ret callM_eq_Ret ret_apply)
    qed
  next
    case (Inr cur)
    from get_Inr [OF kc] get Inr have cur: "objkey cur = objkey x" by blast
    from run get Inr obtain e1 y l1 w2 where f: "f cur l w1 = (Ret (e1, y, l1), w2)"
      and fin: "couFinish (kUpdate kc) (objkey x) (e1, y, l1) w2 = (Ret (Some err, z, l'), w')"
      by (auto simp: cou couSpec_def bindM_eq_Ret callM_eq_Ret ret_apply split: if_splits)
    from couFinish_error [OF _ fin] f_key [OF l _ f] cur x f show ?thesis by auto
  qed
qed

end

text \<open>A callback that leaves an object alone once the server has stamped it.\<close>

locale create_only = mutate_fn kd sel upd f k0 "\<lambda>_. True"
  for kd :: kind
    and sel :: "store \<Rightarrow> nsname \<rightharpoonup> 'x k8sobj_scheme"
    and upd :: "(nsname \<rightharpoonup> 'x k8sobj_scheme) \<Rightarrow> store \<Rightarrow> store"
    and f :: "('w, 'x k8sobj_scheme, 'l) mutateFn"
    and k0 :: nsname +
  assumes f_created: "created y \<Longrightarrow> f y l w = (Ret (None, y, l), w)"
begin

text \<open>An object that exists is neither written nor read differently, whatever happens.\<close>

lemma existing_untouched:
  assumes kc: "client_documented acc accS sel upd view kc"
    and cur: "sel (view w) (objkey x) = Some cur"
    and run: "kCreateOrUpdate kc x l f w = (r, w')"
  shows "view w' = view w \<and> (r = Ret (None, cur, l) \<or> (\<exists>e. r = Ret (Some e, x, l)))"
proof -
  from kc have cou: "kCreateOrUpdate kc x l f = couSpec kc x l f"
    unfolding client_documented_def by blast
  obtain g w1 where get: "kGet kc (objkey x) w = (g, w1)" by (cases "kGet kc (objkey x) w")
  have v1: "view w1 = view w" by (rule get_view [OF kc get])
  show ?thesis
  proof (cases g)
    case (Inl e)
    with get_NotFound [OF kc] get cur have "e \<noteq> NotFound" by fastforce
    with Inl get run v1 show ?thesis
      by (auto simp: cou couSpec_def bindM_def callM_def ret_apply)
  next
    case (Inr y)
    with get_Inr [OF kc] get cur have "y = cur" "created cur" by fastforce+
    with Inr get run v1 show ?thesis
      by (auto simp: cou couSpec_def bindM_def callM_def ret_apply f_created)
  qed
qed

text \<open>Whatever happens, the objects of this kind that existed before are still there, unchanged.\<close>

lemma cou_grows:
  assumes kc: "client_documented acc accS sel upd view kc"
    and quiet: "\<And>y m. pres (stays {} view) (f y m)"
    and run: "kCreateOrUpdate kc x l f w = (r, w')"
  shows "sel (view w) \<subseteq>\<^sub>m sel (view w')"
proof (cases "sel (view w) (objkey x)")
  case None
  have "pres (stays {(kd, objkey x)} view) (kCreateOrUpdate kc x l f)"
    by (rule cou_stays [OF kc pres_stays_mono [OF quiet]]) simp_all
  from presD [OF this run] have same: "same_except {(kd, objkey x)} (view w) (view w')" by (simp add: stays_def)
  have "sel (view w') k = sel (view w) k" if "k \<noteq> objkey x" for k
    using sel_frame [OF same, of k] that by simp
  with None show ?thesis unfolding map_le_def by (metis domIff)
next
  case (Some cur)
  with existing_untouched [OF kc Some run] show ?thesis by simp
qed

lemma pres_cou_grows:
  "client_documented acc accS sel upd view kc \<Longrightarrow> (\<And>y m. pres (stays {} view) (f y m)) \<Longrightarrow>
   pres (\<lambda>w w'. sel (view w) \<subseteq>\<^sub>m sel (view w')) (kCreateOrUpdate kc x l f)"
  by (rule presI) (rule cou_grows)

text \<open>A second run right after a successful one finds nothing to do.\<close>

lemma second_run_quiet:
  assumes kc: "client_documented acc accS sel upd view kc"
    and quiet: "\<And>y m. pres (stays {} view) (f y m)"
    and run: "kCreateOrUpdate kc x l f w = (Ret (None, z, l'), w')"
    and again: "kCreateOrUpdate kc x l f w' = (r, w'')"
  shows "view w'' = view w'"
  using existing_untouched [OF kc cou_present [OF kc quiet run] again] by blast

end

section \<open>The ten kinds\<close>

interpretation pvcK: kind_store KPvc pvcs "\<lambda>m s. s\<lparr>pvcs := m\<rparr>"
  by unfold_locales (auto simp: same_except_def agree_def)

interpretation secretK: kind_store KSecret secrets "\<lambda>m s. s\<lparr>secrets := m\<rparr>"
  by unfold_locales (auto simp: same_except_def agree_def)

interpretation stsK: kind_store KSts statefulsets "\<lambda>m s. s\<lparr>statefulsets := m\<rparr>"
  by unfold_locales (auto simp: same_except_def agree_def)

interpretation depK: kind_store KDep deployments "\<lambda>m s. s\<lparr>deployments := m\<rparr>"
  by unfold_locales (auto simp: same_except_def agree_def)

interpretation svcK: kind_store KSvc services "\<lambda>m s. s\<lparr>services := m\<rparr>"
  by unfold_locales (auto simp: same_except_def agree_def)

interpretation snapK: kind_store KSnap snapshots "\<lambda>m s. s\<lparr>snapshots := m\<rparr>"
  by unfold_locales (auto simp: same_except_def agree_def)

interpretation jobK: kind_store KJob jobs "\<lambda>m s. s\<lparr>jobs := m\<rparr>"
  by unfold_locales (auto simp: same_except_def agree_def)

interpretation dsK: kind_store KDs directoryservices "\<lambda>m s. s\<lparr>directoryservices := m\<rparr>"
  by unfold_locales (auto simp: same_except_def agree_def)

interpretation dbK: kind_store KDb directorybackups "\<lambda>m s. s\<lparr>directorybackups := m\<rparr>"
  by unfold_locales (auto simp: same_except_def agree_def)

interpretation drK: kind_store KDr directoryrestores "\<lambda>m s. s\<lparr>directoryrestores := m\<rparr>"
  by unfold_locales (auto simp: same_except_def agree_def)

end
