(* ===== verification/Operator_Env.thy ===== *)
theory Operator_Env
  imports Environment
begin

text \<open>
  The environment of the operator: the clients of the ten kinds, clock, random source, map
  iteration, sorting, events, owner references and the LDAP library, with their documented
  behaviour. The process-wide switches of the controllers package are a separate record.
\<close>

section \<open>Process-wide switches\<close>

text \<open>Lines 31 to 64 of \<open>directoryservice_controller.go\<close>: variables set by \<open>init\<close>.\<close>

record flags =
  DevMode :: bool
  DebugContainer :: bool

definition initFlags :: "(string \<Rightarrow> string) \<Rightarrow> flags" where
  "initFlags getenv = \<lparr>DevMode = (getenv ''DEV_MODE'' = ''true''),
     DebugContainer = (getenv ''DEBUG_CONTAINER'' = ''true'')\<rparr>"

section \<open>The LDAP library\<close>

type_synonym conn = nat \<comment> \<open>an opaque connection handle\<close>

record ldapEntry =
  entryDN :: string
  entryAttr :: "string \<Rightarrow> string"

record searchRequest =
  srBaseDN :: string
  srSizeLimit :: nat
  srFilter :: string
  srAttributes :: "string list"

record addRequest =
  arDN :: string
  arAttributes :: "(string \<times> string list) list"

text \<open>Methods take a possibly nil connection where the code may call them on one.\<close>

record 'w ldapLib =
  DialURL :: "string \<Rightarrow> 'w \<Rightarrow> (goerr + conn) \<times> 'w"
  Bind :: "conn \<Rightarrow> string \<Rightarrow> string \<Rightarrow> 'w \<Rightarrow> goerr option \<times> 'w"
  PasswordModify :: "conn \<Rightarrow> string \<Rightarrow> string \<Rightarrow> string \<Rightarrow> 'w \<Rightarrow> goerr option \<times> 'w"
  LdapAdd :: "conn \<Rightarrow> addRequest \<Rightarrow> 'w \<Rightarrow> goerr option \<times> 'w"
  LdapSearch :: "conn \<Rightarrow> searchRequest \<Rightarrow> 'w \<Rightarrow> (goerr + ldapEntry list) \<times> 'w"
  LdapClose :: "conn option \<Rightarrow> ('w, unit) M"
  PrettyPrint :: "ldapEntry list option \<Rightarrow> ('w, unit) M"

definition ldap_documented :: "('w \<Rightarrow> store) \<Rightarrow> 'w ldapLib \<Rightarrow> bool" where
  "ldap_documented view lib \<longleftrightarrow>
     (\<forall>u. pres (stays {} view) (callM (DialURL lib u))) \<and>
     (\<forall>c d p. pres (stays {} view) (callM (Bind lib c d p))) \<and>
     (\<forall>c d o1 p. pres (stays {} view) (callM (PasswordModify lib c d o1 p))) \<and>
     (\<forall>c r. pres (stays {} view) (callM (LdapAdd lib c r))) \<and>
     (\<forall>c r. pres (stays {} view) (callM (LdapSearch lib c r))) \<and>
     (\<forall>c. pres (stays {} view) (LdapClose lib c)) \<and>
     (\<forall>c. pres (stays {} view) (PrettyPrint lib c))"

section \<open>The environment\<close>

record 'w env =
  pvcClient :: "('w, persistentVolumeClaim, unit) kclient"
  secretClient :: "('w, secret, unit) kclient"
  stsClient :: "('w, statefulSet, directoryService \<times> bool) kclient"
  depClient :: "('w, deployment, directoryService) kclient"
  svcClient :: "('w, service, unit) kclient"
  snapClient :: "('w, volumeSnapshot, unit) kclient"
  jobClient :: "('w, job, persistentVolumeClaim) kclient"
  dsClient :: "('w, directoryService, unit) kclient"
  dbClient :: "('w, directoryBackup, unit) kclient"
  drClient :: "('w, directoryRestore, unit) kclient"
  Now :: "'w \<Rightarrow> int64 \<times> 'w" \<comment> \<open>time.Now().Unix()\<close>
  Intn :: "nat \<Rightarrow> 'w \<Rightarrow> nat \<times> 'w" \<comment> \<open>rand.Intn\<close>
  rangeKeys :: "directoryPasswords gomap \<Rightarrow> 'w \<Rightarrow> string list \<times> 'w" \<comment> \<open>iteration order of range\<close>
  sortSlice :: "(volumeSnapshot \<Rightarrow> volumeSnapshot \<Rightarrow> bool) \<Rightarrow> volumeSnapshot list \<Rightarrow> volumeSnapshot list"
  Event :: "string \<Rightarrow> string \<Rightarrow> 'w \<Rightarrow> unit \<times> 'w" \<comment> \<open>recorder.Event: reason, message\<close>
  SetControllerReference :: "kind \<Rightarrow> objectMeta \<Rightarrow> objectMeta \<Rightarrow> goerr option \<times> ownerReference list"
  SetOwnerReference :: "kind \<Rightarrow> objectMeta \<Rightarrow> objectMeta \<Rightarrow> goerr option \<times> ownerReference list"
  GetControllerOf :: "objectMeta \<Rightarrow> ownerReference option"
  ldapLib :: "'w ldapLib"

subsection \<open>What the API server keeps of an object it is sent\<close>

text \<open>A map comes back as it was sent, except that an empty one may come back nil or the other way round.\<close>

definition mapKept :: "'a gomap \<Rightarrow> 'a gomap \<Rightarrow> bool" where
  "mapKept m m' \<longleftrightarrow> m' = m \<or> mapGet m = Map.empty \<and> mapGet m' = Map.empty"

lemma mapKept_refl [simp]: "mapKept m m"
  by (simp add: mapKept_def)

lemma mapKept_mapGet: "mapKept m m' \<Longrightarrow> mapGet m' = mapGet m"
  by (auto simp: mapKept_def)

lemma mapKept_upd [simp]: "mapKept (Some (m(k \<mapsto> v))) m' \<longleftrightarrow> m' = Some (m(k \<mapsto> v))"
  by (simp add: mapKept_def)

definition metaKept :: "objectMeta \<Rightarrow> objectMeta \<Rightarrow> bool" where
  "metaKept m m' \<longleftrightarrow> Name m' = Name m \<and> Namespace m' = Namespace m \<and> mapKept (Labels m) (Labels m') \<and>
     mapKept (Annotations m) (Annotations m') \<and> OwnerReferences m' = OwnerReferences m"

text \<open>Of a pod template: the volumes, the containers with their images; labels may be added, as for jobs.\<close>

definition podKept :: "podTemplateSpec \<Rightarrow> podTemplateSpec \<Rightarrow> bool" where
  "podKept p p' \<longleftrightarrow> mapGet (ptLabels p) \<subseteq>\<^sub>m mapGet (ptLabels p') \<and> Volumes (ptSpec p') = Volumes (ptSpec p) \<and>
     map (\<lambda>c. (cName c, Image c)) (Containers (ptSpec p')) = map (\<lambda>c. (cName c, Image c)) (Containers (ptSpec p)) \<and>
     map (\<lambda>c. (cName c, Image c)) (InitContainers (ptSpec p')) =
       map (\<lambda>c. (cName c, Image c)) (InitContainers (ptSpec p))"

definition pvcAcc :: "persistentVolumeClaim option \<Rightarrow> persistentVolumeClaim \<Rightarrow> persistentVolumeClaim \<Rightarrow> bool" where
  "pvcAcc old x y \<longleftrightarrow> metaKept (ObjectMeta x) (ObjectMeta y) \<and> DataSource (pvcSpec y) = DataSource (pvcSpec x)"

definition secretAcc :: "secret option \<Rightarrow> secret \<Rightarrow> secret \<Rightarrow> bool" where
  "secretAcc old x y \<longleftrightarrow> metaKept (ObjectMeta x) (ObjectMeta y) \<and> mapKept (Data x) (Data y)"

definition stsAcc :: "statefulSet option \<Rightarrow> statefulSet \<Rightarrow> statefulSet \<Rightarrow> bool" where
  "stsAcc old x y \<longleftrightarrow> metaKept (ObjectMeta x) (ObjectMeta y) \<and> stsReplicas y = stsReplicas x \<and>
     stsSelector y = stsSelector x \<and> podKept (stsTemplate x) (stsTemplate y)"

definition depAcc :: "deployment option \<Rightarrow> deployment \<Rightarrow> deployment \<Rightarrow> bool" where
  "depAcc old x y \<longleftrightarrow> metaKept (ObjectMeta x) (ObjectMeta y) \<and> depReplicas y = depReplicas x \<and>
     depSelector y = depSelector x \<and> podKept (depTemplate x) (depTemplate y)"

definition svcAcc :: "service option \<Rightarrow> service \<Rightarrow> service \<Rightarrow> bool" where
  "svcAcc old x y \<longleftrightarrow> metaKept (ObjectMeta x) (ObjectMeta y) \<and> svcSelector y = svcSelector x \<and> svcPorts y = svcPorts x \<and>
     (svcClusterIP x \<noteq> '''' \<longrightarrow> svcClusterIP y = svcClusterIP x)"

definition snapAcc :: "volumeSnapshot option \<Rightarrow> volumeSnapshot \<Rightarrow> volumeSnapshot \<Rightarrow> bool" where
  "snapAcc old x y \<longleftrightarrow> metaKept (ObjectMeta x) (ObjectMeta y) \<and> vsClassName y = vsClassName x \<and>
     vsSourcePVC y = vsSourcePVC x"

text \<open>A new job has not completed, unless it was sent that way.\<close>

definition jobAcc :: "job option \<Rightarrow> job \<Rightarrow> job \<Rightarrow> bool" where
  "jobAcc old x y \<longleftrightarrow> metaKept (ObjectMeta x) (ObjectMeta y) \<and> podKept (jobTemplate x) (jobTemplate y) \<and>
     (old = None \<longrightarrow> jobCompletionTime y = None \<or> jobCompletionTime y = jobCompletionTime x)"

text \<open>
  The custom resources have a status subresource: an ordinary write keeps the stored status,
  a status write keeps everything else.
\<close>

definition dsAcc :: "directoryService option \<Rightarrow> directoryService \<Rightarrow> directoryService \<Rightarrow> bool" where
  "dsAcc old x y \<longleftrightarrow> dsKind y = dsKind x \<and> metaKept (ObjectMeta x) (ObjectMeta y) \<and> Spec y = Spec x \<and>
     (\<forall>p. old = Some p \<longrightarrow> Status y = Status p)"

definition dsAccS :: "directoryService option \<Rightarrow> directoryService \<Rightarrow> directoryService \<Rightarrow> bool" where
  "dsAccS old x y \<longleftrightarrow> dsKind y = dsKind x \<and> Status y = Status x \<and>
     (\<forall>p. old = Some p \<longrightarrow> metaKept (ObjectMeta p) (ObjectMeta y) \<and> Spec y = Spec p)"

definition dbAccS :: "directoryBackup option \<Rightarrow> directoryBackup \<Rightarrow> directoryBackup \<Rightarrow> bool" where
  "dbAccS old x y \<longleftrightarrow> dbStatus y = dbStatus x \<and>
     (\<forall>p. old = Some p \<longrightarrow> metaKept (ObjectMeta p) (ObjectMeta y) \<and>
        dbPodTemplate y = dbPodTemplate p \<and> ClaimToBackup y = ClaimToBackup p)"

definition drAccS :: "directoryRestore option \<Rightarrow> directoryRestore \<Rightarrow> directoryRestore \<Rightarrow> bool" where
  "drAccS old x y \<longleftrightarrow> drStatus y = drStatus x \<and>
     (\<forall>p. old = Some p \<longrightarrow> metaKept (ObjectMeta p) (ObjectMeta y) \<and>
        drPodTemplate y = drPodTemplate p \<and> SourcePVCName y = SourcePVCName p)"

definition anyAcc :: "'x k8sobj_scheme option \<Rightarrow> 'x k8sobj_scheme \<Rightarrow> 'x k8sobj_scheme \<Rightarrow> bool" where
  "anyAcc old x y \<longleftrightarrow> True"

subsection \<open>Documented behaviour of the whole environment\<close>

definition clients_documented :: "('w \<Rightarrow> store) \<Rightarrow> 'w env \<Rightarrow> bool" where
  "clients_documented view env \<longleftrightarrow>
     client_documented pvcAcc anyAcc pvcs (\<lambda>m s. s\<lparr>pvcs := m\<rparr>) view (pvcClient env) \<and>
     client_documented secretAcc anyAcc secrets (\<lambda>m s. s\<lparr>secrets := m\<rparr>) view (secretClient env) \<and>
     client_documented stsAcc anyAcc statefulsets (\<lambda>m s. s\<lparr>statefulsets := m\<rparr>) view (stsClient env) \<and>
     client_documented depAcc anyAcc deployments (\<lambda>m s. s\<lparr>deployments := m\<rparr>) view (depClient env) \<and>
     client_documented svcAcc anyAcc services (\<lambda>m s. s\<lparr>services := m\<rparr>) view (svcClient env) \<and>
     client_documented snapAcc anyAcc snapshots (\<lambda>m s. s\<lparr>snapshots := m\<rparr>) view (snapClient env) \<and>
     client_documented jobAcc anyAcc jobs (\<lambda>m s. s\<lparr>jobs := m\<rparr>) view (jobClient env) \<and>
     client_documented dsAcc dsAccS directoryservices (\<lambda>m s. s\<lparr>directoryservices := m\<rparr>) view (dsClient env) \<and>
     client_documented anyAcc dbAccS directorybackups (\<lambda>m s. s\<lparr>directorybackups := m\<rparr>) view (dbClient env) \<and>
     client_documented anyAcc drAccS directoryrestores (\<lambda>m s. s\<lparr>directoryrestores := m\<rparr>) view (drClient env)"

text \<open>\<open>rand.Intn\<close> stays below its bound; \<open>range\<close> visits every key once; \<open>sort.Slice\<close> sorts, in
  whatever order it leaves equal elements.\<close>

definition runtime_documented :: "('w \<Rightarrow> store) \<Rightarrow> 'w env \<Rightarrow> bool" where
  "runtime_documented view env \<longleftrightarrow>
     pres (stays {} view) (callM (Now env)) \<and>
     (\<forall>n. pres (stays {} view) (callM (Intn env n))) \<and>
     (\<forall>m. pres (stays {} view) (callM (rangeKeys env m))) \<and>
     (\<forall>a b. pres (stays {} view) (callM (Event env a b))) \<and>
     (\<forall>n w. 0 < n \<longrightarrow> fst (Intn env n w) < n) \<and>
     (\<forall>m w. finite (dom (mapGet m)) \<longrightarrow>
        distinct (fst (rangeKeys env m w)) \<and> set (fst (rangeKeys env m w)) = dom (mapGet m)) \<and>
     (\<forall>(key :: volumeSnapshot \<Rightarrow> int) xs.
        mset (sortSlice env (\<lambda>x y. key x < key y) xs) = mset xs \<and>
        sorted_wrt (\<lambda>x y. key x \<le> key y) (sortSlice env (\<lambda>x y. key x < key y) xs))"

text \<open>Owner references: the reference to the owner is there afterwards, the others are kept.\<close>

definition refsHold :: "bool \<Rightarrow> objectMeta \<Rightarrow> objectMeta \<Rightarrow> ownerReference list \<Rightarrow> bool" where
  "refsHold ctl owner m refs \<longleftrightarrow>
     (\<exists>r \<in> set refs. orUID r = UID owner \<and> orName r = Name owner \<and> (ctl \<longrightarrow> orController r)) \<and>
     (\<forall>r \<in> set (OwnerReferences m). orUID r \<noteq> UID owner \<longrightarrow> r \<in> set refs)"

definition refs_documented :: "'w env \<Rightarrow> bool" where
  "refs_documented env \<longleftrightarrow>
     (\<forall>kd owner m refs. SetControllerReference env kd owner m = (None, refs) \<longrightarrow> refsHold True owner m refs) \<and>
     (\<forall>kd owner m refs. SetOwnerReference env kd owner m = (None, refs) \<longrightarrow> refsHold False owner m refs) \<and>
     (\<forall>kd owner m e refs. SetControllerReference env kd owner m = (Some e, refs) \<longrightarrow> refs = OwnerReferences m) \<and>
     (\<forall>kd owner m e refs. SetOwnerReference env kd owner m = (Some e, refs) \<longrightarrow> refs = OwnerReferences m) \<and>
     (\<forall>m r. GetControllerOf env m = Some r \<longrightarrow> r \<in> set (OwnerReferences m) \<and> orController r) \<and>
     (\<forall>m. GetControllerOf env m = None \<longrightarrow> (\<forall>r \<in> set (OwnerReferences m). \<not> orController r))"

definition env_documented :: "('w \<Rightarrow> store) \<Rightarrow> 'w env \<Rightarrow> bool" where
  "env_documented view env \<longleftrightarrow> clients_documented view env \<and> runtime_documented view env \<and>
     refs_documented env \<and> ldap_documented view (ldapLib env)"

lemma env_clients:
  assumes "env_documented view env"
  shows "client_documented pvcAcc anyAcc pvcs (\<lambda>m s. s\<lparr>pvcs := m\<rparr>) view (pvcClient env)"
    and "client_documented secretAcc anyAcc secrets (\<lambda>m s. s\<lparr>secrets := m\<rparr>) view (secretClient env)"
    and "client_documented stsAcc anyAcc statefulsets (\<lambda>m s. s\<lparr>statefulsets := m\<rparr>) view (stsClient env)"
    and "client_documented depAcc anyAcc deployments (\<lambda>m s. s\<lparr>deployments := m\<rparr>) view (depClient env)"
    and "client_documented svcAcc anyAcc services (\<lambda>m s. s\<lparr>services := m\<rparr>) view (svcClient env)"
    and "client_documented snapAcc anyAcc snapshots (\<lambda>m s. s\<lparr>snapshots := m\<rparr>) view (snapClient env)"
    and "client_documented jobAcc anyAcc jobs (\<lambda>m s. s\<lparr>jobs := m\<rparr>) view (jobClient env)"
    and "client_documented dsAcc dsAccS directoryservices (\<lambda>m s. s\<lparr>directoryservices := m\<rparr>) view (dsClient env)"
    and "client_documented anyAcc dbAccS directorybackups (\<lambda>m s. s\<lparr>directorybackups := m\<rparr>) view (dbClient env)"
    and "client_documented anyAcc drAccS directoryrestores (\<lambda>m s. s\<lparr>directoryrestores := m\<rparr>) view (drClient env)"
  using assms by (simp_all add: env_documented_def clients_documented_def)

lemma stays_of_quiet: "pres (stays {} view) m \<Longrightarrow> pres (stays K view) m"
  by (erule pres_stays_mono) simp

lemma env_runtime_stays:
  assumes "env_documented view env"
  shows "pres (stays K view) (callM (Now env))"
    and "pres (stays K view) (callM (Intn env n))"
    and "pres (stays K view) (callM (rangeKeys env m))"
    and "pres (stays K view) (callM (Event env a b))"
  using assms by (auto simp: env_documented_def runtime_documented_def intro: stays_of_quiet)

lemma env_ldap_stays:
  assumes "env_documented view env"
  shows "pres (stays K view) (callM (DialURL (ldapLib env) u))"
    and "pres (stays K view) (callM (Bind (ldapLib env) c d p))"
    and "pres (stays K view) (callM (PasswordModify (ldapLib env) c d o1 p))"
    and "pres (stays K view) (LdapClose (ldapLib env) oc)"
  using assms by (auto simp: env_documented_def ldap_documented_def intro: stays_of_quiet)

lemma env_Intn: "env_documented view env \<Longrightarrow> 0 < n \<Longrightarrow> Intn env n w = (i, w') \<Longrightarrow> i < n"
  unfolding env_documented_def runtime_documented_def by (metis fst_conv)

lemma env_rangeKeys:
  "env_documented view env \<Longrightarrow> finite (dom (mapGet m)) \<Longrightarrow> rangeKeys env m w = (ks, w') \<Longrightarrow>
   distinct ks \<and> set ks = dom (mapGet m)"
  unfolding env_documented_def runtime_documented_def by (metis fst_conv)

lemma env_sortSlice:
  fixes key :: "volumeSnapshot \<Rightarrow> int"
  assumes "env_documented view env"
  shows "mset (sortSlice env (\<lambda>x y. key x < key y) xs) = mset xs"
    and "sorted_wrt (\<lambda>x y. key x \<le> key y) (sortSlice env (\<lambda>x y. key x < key y) xs)"
  using assms by (simp_all add: env_documented_def runtime_documented_def)

lemmas env_stays = env_runtime_stays env_ldap_stays

end
