(* ===== verification/Mem_Cluster.thy ===== *)
theory Mem_Cluster
  imports Operator_Env "HOL-Library.List_Lexorder" "HOL-Library.Char_ord"
begin

text \<open>
  A concrete environment: an in-memory API server, clock, random source and directory. It
  shows that the documented behaviour assumed of the environment can be met, and gives the
  witnesses of the properties something to run on.
\<close>

section \<open>Worlds\<close>

record memw =
  mPvcs :: "persistentVolumeClaim list"
  mSecrets :: "secret list"
  mSts :: "statefulSet list"
  mDeps :: "deployment list"
  mSvcs :: "service list"
  mSnaps :: "volumeSnapshot list"
  mJobs :: "job list"
  mDss :: "directoryService list"
  mDbs :: "directoryBackup list"
  mDrs :: "directoryRestore list"
  mClock :: int64
  mSeed :: nat
  mEvents :: "(string \<times> string) list"
  mLdapUp :: bool
  mLdap :: "(string \<times> string) list"

definition emptyMem :: memw where
  "emptyMem = \<lparr>mPvcs = [], mSecrets = [], mSts = [], mDeps = [], mSvcs = [], mSnaps = [], mJobs = [],
     mDss = [], mDbs = [], mDrs = [], mClock = 1000, mSeed = 7, mEvents = [], mLdapUp = True, mLdap = []\<rparr>"

definition lookupObj :: "'x k8sobj_scheme list \<Rightarrow> nsname \<Rightarrow> 'x k8sobj_scheme option" where
  "lookupObj xs k = find (\<lambda>x. objkey x = k \<and> created x) xs"

definition memView :: "memw \<Rightarrow> store" where
  "memView w = \<lparr>pvcs = lookupObj (mPvcs w), secrets = lookupObj (mSecrets w),
     statefulsets = lookupObj (mSts w), deployments = lookupObj (mDeps w),
     services = lookupObj (mSvcs w), snapshots = lookupObj (mSnaps w), jobs = lookupObj (mJobs w),
     directoryservices = lookupObj (mDss w), directorybackups = lookupObj (mDbs w),
     directoryrestores = lookupObj (mDrs w)\<rparr>"

section \<open>A client over one list of objects\<close>

definition dropKey :: "nsname \<Rightarrow> 'x k8sobj_scheme list \<Rightarrow> 'x k8sobj_scheme list" where
  "dropKey k xs = filter (\<lambda>x. objkey x \<noteq> k) xs"

definition upsert :: "'x k8sobj_scheme \<Rightarrow> 'x k8sobj_scheme list \<Rightarrow> 'x k8sobj_scheme list" where
  "upsert x xs = x # dropKey (objkey x) xs"

fun firsts :: "'x k8sobj_scheme list \<Rightarrow> 'x k8sobj_scheme list" where
  "firsts [] = []"
| "firsts (x # xs) = (if created x then x # dropKey (objkey x) (firsts xs) else firsts xs)"

definition stamp :: "int64 \<Rightarrow> 'x k8sobj_scheme \<Rightarrow> 'x k8sobj_scheme" where
  "stamp t x = x\<lparr>ObjectMeta := (ObjectMeta x)\<lparr>CreationTimestamp := Some t, UID := ''uid-'' @ Name (ObjectMeta x)\<rparr>\<rparr>"

definition memBase ::
  "(memw \<Rightarrow> 'x k8sobj_scheme list) \<Rightarrow> ('x k8sobj_scheme list \<Rightarrow> memw \<Rightarrow> memw) \<Rightarrow>
   ('x k8sobj_scheme \<Rightarrow> 'x k8sobj_scheme \<Rightarrow> 'x k8sobj_scheme) \<Rightarrow>
   ('x k8sobj_scheme \<Rightarrow> 'x k8sobj_scheme \<Rightarrow> 'x k8sobj_scheme) \<Rightarrow>
   (memw, 'x k8sobj_scheme, 'l) kclient" where
  "memBase get put mergeU mergeS =
     \<lparr>kGet = (\<lambda>k w. (case lookupObj (get w) k of None \<Rightarrow> Inl NotFound | Some x \<Rightarrow> Inr x, w)),
      kCreate = (\<lambda>x w. case lookupObj (get w) (objkey x) of
          Some _ \<Rightarrow> (Inl (ApiErr ''AlreadyExists''), w)
        | None \<Rightarrow> (let y = stamp (mClock w) x in (Inr y, put (upsert y (get w)) w))),
      kUpdate = (\<lambda>x w. case lookupObj (get w) (objkey x) of
          None \<Rightarrow> (Inl NotFound, w)
        | Some old \<Rightarrow> (let y = mergeU old x in (Inr y, put (upsert y (get w)) w))),
      kStatusUpdate = (\<lambda>x w. case lookupObj (get w) (objkey x) of
          None \<Rightarrow> (Inl NotFound, w)
        | Some old \<Rightarrow> (let y = mergeS old x in (Inr y, put (upsert y (get w)) w))),
      kDelete = (\<lambda>x w. (None, put (dropKey (objkey x) (get w)) w)),
      kList = (\<lambda>ns want w.
        (Inr (filter (\<lambda>x. fst (objkey x) = ns \<and> labelsMatch want x) (firsts (get w))), w)),
      kCreateOrUpdate = (\<lambda>x l f. ret (None, x, l))\<rparr>"

definition memClient ::
  "(memw \<Rightarrow> 'x k8sobj_scheme list) \<Rightarrow> ('x k8sobj_scheme list \<Rightarrow> memw \<Rightarrow> memw) \<Rightarrow>
   ('x k8sobj_scheme \<Rightarrow> 'x k8sobj_scheme \<Rightarrow> 'x k8sobj_scheme) \<Rightarrow>
   ('x k8sobj_scheme \<Rightarrow> 'x k8sobj_scheme \<Rightarrow> 'x k8sobj_scheme) \<Rightarrow>
   (memw, 'x k8sobj_scheme, 'l) kclient" where
  "memClient get put mergeU mergeS =
     (memBase get put mergeU mergeS)\<lparr>kCreateOrUpdate := couSpec (memBase get put mergeU mergeS)\<rparr>"

lemma objkey_stamp [simp]: "objkey (stamp t x) = objkey x"
  by (simp add: objkey_def stamp_def)

lemma created_stamp [simp]: "created (stamp t x)"
  by (simp add: created_def isZero_def stamp_def)

lemma lookupObj_Cons:
  "lookupObj (x # xs) k = (if objkey x = k \<and> created x then Some x else lookupObj xs k)"
  by (simp add: lookupObj_def)

lemma lookupObj_Nil [simp]: "lookupObj [] = Map.empty"
  by (simp add: lookupObj_def fun_eq_iff)

lemma lookupObj_Some: "lookupObj xs k = Some x \<Longrightarrow> objkey x = k \<and> created x"
  by (auto simp: lookupObj_def find_Some_iff)

lemma lookupObj_dropKey: "lookupObj (dropKey k xs) = (lookupObj xs)(k := None)"
  by (rule ext, induction xs) (auto simp: lookupObj_Cons dropKey_def)

lemma lookupObj_upsert: "created x \<Longrightarrow> lookupObj (upsert x xs) = (lookupObj xs)(objkey x \<mapsto> x)"
  by (auto simp: upsert_def lookupObj_Cons lookupObj_dropKey fun_eq_iff)

lemma distinct_firsts: "distinct (map objkey (firsts xs))"
  by (induction xs) (auto simp: dropKey_def distinct_map_filter)

lemma set_firsts: "set (firsts xs) = {x. lookupObj xs (objkey x) = Some x}"
  by (induction xs) (auto simp: lookupObj_Cons dropKey_def dest: lookupObj_Some split: if_splits)

lemma couSpec_base [simp]:
  "couSpec (kc\<lparr>kCreateOrUpdate := c\<rparr>) x l f = couSpec kc x l f"
  by (simp add: couSpec_def cong: sum.case_cong if_cong)

text \<open>The client meets the documented behaviour if the merges do.\<close>

lemma memClient_documented:
  assumes view: "\<And>w. sel (view w) = lookupObj (get w)"
    and put: "\<And>xs w. view (put xs w) = upd (lookupObj xs) (view w)"
    and mU: "\<And>old x. objkey old = objkey x \<Longrightarrow> created old \<Longrightarrow>
      objkey (mergeU old x) = objkey x \<and> created (mergeU old x) \<and> acc (Some old) x (mergeU old x)"
    and mS: "\<And>old x. objkey old = objkey x \<Longrightarrow> created old \<Longrightarrow>
      objkey (mergeS old x) = objkey x \<and> created (mergeS old x) \<and> accS (Some old) x (mergeS old x)"
    and st: "\<And>t x. acc None x (stamp t x)"
  shows "client_documented acc accS sel upd view (memClient get put mergeU mergeS)"
proof -
  have w1: "write_documented acc sel upd view (kCreate (memBase get put mergeU mergeS))"
    unfolding write_documented_def
    by (auto simp: memBase_def view put lookupObj_upsert st Let_def split: option.splits)
  have w2: "write_documented acc sel upd view (kUpdate (memBase get put mergeU mergeS))"
    unfolding write_documented_def
    by (auto simp: memBase_def view put lookupObj_upsert mU Let_def dest!: lookupObj_Some split: option.splits)
  have w3: "write_documented accS sel upd view (kStatusUpdate (memBase get put mergeU mergeS))"
    unfolding write_documented_def
    by (auto simp: memBase_def view put lookupObj_upsert mS Let_def dest!: lookupObj_Some split: option.splits)
  have li: "list_documented sel view (memClient get put mergeU mergeS)"
    unfolding list_documented_def
    by (auto simp: memClient_def memBase_def view set_firsts distinct_map_filter distinct_firsts)
  have ge: "get_documented sel view (memClient get put mergeU mergeS)"
    unfolding get_documented_def
    by (auto simp: memClient_def memBase_def view dest: lookupObj_Some split: option.splits)
  have de: "delete_documented sel upd view (memClient get put mergeU mergeS)"
    unfolding delete_documented_def
    by (auto simp: memClient_def memBase_def view put lookupObj_dropKey)
  show ?thesis
    using w1 w2 w3 li ge de by (simp add: client_documented_def memClient_def)
qed

text \<open>\<open>CreateOrUpdate\<close> against this server, on a new and on an existing object.\<close>

lemma mem_cou_fresh:
  assumes "lookupObj (get w) (objkey x) = None" and "f x l w = (Ret (None, y, l'), w1)"
    and "objkey y = objkey x" and "lookupObj (get w1) (objkey x) = None"
  shows "kCreateOrUpdate (memClient get put mU mS) x l f w =
    (Ret (None, stamp (mClock w1) y, l'), put (upsert (stamp (mClock w1) y) (get w1)) w1)"
  using assms by (simp add: memClient_def couSpec_def memBase_def bindM_def callM_def couFinish_def ret_def Let_def)

lemma mem_cou_makes:
  assumes "lookupObj (get w) (objkey x) = None" and "f x l w = (Ret (None, y, l'), w)" and "objkey y = objkey x"
  obtains z where "kCreateOrUpdate (memClient get put mU mS) x l f w = (Ret (None, z, l'), put (z # dropKey (objkey x) (get w)) w)"
    "objkey z = objkey x"
  using mem_cou_fresh [of get w x f l y l' w put mU mS] assms by (simp add: upsert_def)

lemma mem_cou_same:
  assumes "lookupObj (get w) (objkey x) = Some cur" and "f cur l w = (Ret (None, cur, l'), w1)"
  shows "kCreateOrUpdate (memClient get put mU mS) x l f w = (Ret (None, cur, l'), w1)"
  using assms by (simp add: memClient_def couSpec_def memBase_def bindM_def callM_def ret_def)

lemma mem_cou_change:
  assumes "lookupObj (get w) (objkey x) = Some cur" and "f cur l w = (Ret (None, y, l'), w1)" and "y \<noteq> cur"
    and "objkey y = objkey x" and "lookupObj (get w1) (objkey x) = Some cur"
  shows "kCreateOrUpdate (memClient get put mU mS) x l f w =
    (Ret (None, mU cur y, l'), put (upsert (mU cur y) (get w1)) w1)"
  using assms by (simp add: memClient_def couSpec_def memBase_def bindM_def callM_def couFinish_def ret_def Let_def)

lemma mem_cou_panic:
  assumes "lookupObj (get w) (objkey x) = None" and "f x l w = (Panic p, w1)"
  shows "kCreateOrUpdate (memClient get put mU mS) x l f w = (Panic p, w1)"
  using assms by (simp add: memClient_def couSpec_def memBase_def bindM_def callM_def)

section \<open>The environment\<close>

text \<open>A server-side merge that keeps the sent object, with the stored timestamp.\<close>

definition keepStamp :: "'x k8sobj_scheme \<Rightarrow> 'x k8sobj_scheme \<Rightarrow> 'x k8sobj_scheme" where
  "keepStamp old x = x\<lparr>ObjectMeta := (ObjectMeta x)\<lparr>CreationTimestamp := CreationTimestamp (ObjectMeta old)\<rparr>\<rparr>"

definition dsMergeU :: "directoryService \<Rightarrow> directoryService \<Rightarrow> directoryService" where
  "dsMergeU old x = (keepStamp old x)\<lparr>Status := Status old\<rparr>"

fun insortBy :: "('a \<Rightarrow> 'a \<Rightarrow> bool) \<Rightarrow> 'a \<Rightarrow> 'a list \<Rightarrow> 'a list" where
  "insortBy lt x [] = [x]"
| "insortBy lt x (y # ys) = (if lt y x then y # insortBy lt x ys else x # y # ys)"

definition sortBy :: "('a \<Rightarrow> 'a \<Rightarrow> bool) \<Rightarrow> 'a list \<Rightarrow> 'a list" where
  "sortBy lt xs = foldr (insortBy lt) xs []"

definition memRef :: "bool \<Rightarrow> kind \<Rightarrow> objectMeta \<Rightarrow> objectMeta \<Rightarrow> goerr option \<times> ownerReference list" where
  "memRef ctl kd owner m =
     (let r = \<lparr>orAPIVersion = GroupVersion, orKind = (if kd = KDs then ''DirectoryService'' else ''Owner''),
               orName = Name owner, orUID = UID owner, orController = ctl\<rparr> in
      if ctl \<and> (\<exists>x \<in> set (OwnerReferences m). orController x \<and> orUID x \<noteq> UID owner)
      then (Some (Errorf ''already owned''), OwnerReferences m)
      else (None, r # filter (\<lambda>x. orUID x \<noteq> UID owner) (OwnerReferences m)))"

definition memLdap :: "memw ldapLib" where
  "memLdap = \<lparr>DialURL = (\<lambda>u w. (if mLdapUp w then Inr 0 else Inl (Errorf ''connection refused''), w)),
     Bind = (\<lambda>c d p w. (if map_of (mLdap w) d = Some p then None else Some (Errorf ''invalid credentials''), w)),
     PasswordModify = (\<lambda>c d o1 p w. (None, w\<lparr>mLdap := (d, p) # mLdap w\<rparr>)),
     LdapAdd = (\<lambda>c r w. (None, w)),
     LdapSearch = (\<lambda>c r w. (Inr [], w)),
     LdapClose = (\<lambda>c. case c of None \<Rightarrow> panic NilDeref | Some _ \<Rightarrow> ret ()),
     PrettyPrint = (\<lambda>r. case r of None \<Rightarrow> panic NilDeref | Some _ \<Rightarrow> ret ())\<rparr>"

definition memEnv :: "memw env" where
  "memEnv =
     \<lparr>pvcClient = memClient mPvcs (\<lambda>xs w. w\<lparr>mPvcs := xs\<rparr>) keepStamp keepStamp,
      secretClient = memClient mSecrets (\<lambda>xs w. w\<lparr>mSecrets := xs\<rparr>) keepStamp keepStamp,
      stsClient = memClient mSts (\<lambda>xs w. w\<lparr>mSts := xs\<rparr>) keepStamp keepStamp,
      depClient = memClient mDeps (\<lambda>xs w. w\<lparr>mDeps := xs\<rparr>) keepStamp keepStamp,
      svcClient = memClient mSvcs (\<lambda>xs w. w\<lparr>mSvcs := xs\<rparr>) keepStamp keepStamp,
      snapClient = memClient mSnaps (\<lambda>xs w. w\<lparr>mSnaps := xs\<rparr>) keepStamp keepStamp,
      jobClient = memClient mJobs (\<lambda>xs w. w\<lparr>mJobs := xs\<rparr>) keepStamp keepStamp,
      dsClient = memClient mDss (\<lambda>xs w. w\<lparr>mDss := xs\<rparr>) dsMergeU (\<lambda>old x. old\<lparr>dsKind := dsKind x, Status := Status x\<rparr>),
      dbClient = memClient mDbs (\<lambda>xs w. w\<lparr>mDbs := xs\<rparr>) keepStamp (\<lambda>old x. old\<lparr>dbStatus := dbStatus x\<rparr>),
      drClient = memClient mDrs (\<lambda>xs w. w\<lparr>mDrs := xs\<rparr>) keepStamp (\<lambda>old x. old\<lparr>drStatus := drStatus x\<rparr>),
      Now = (\<lambda>w. (mClock w, w)),
      Intn = (\<lambda>n w. (mSeed w mod n, w\<lparr>mSeed := 5 * mSeed w + 3\<rparr>)),
      rangeKeys = (\<lambda>m w. (sorted_list_of_set (dom (mapGet m)), w)),
      sortSlice = sortBy,
      Event = (\<lambda>a b w. ((), w\<lparr>mEvents := (a, b) # mEvents w\<rparr>)),
      SetControllerReference = memRef True,
      SetOwnerReference = memRef False,
      GetControllerOf = (\<lambda>m. find orController (OwnerReferences m)),
      ldapLib = memLdap\<rparr>"

lemma keepStamp_ok [simp]:
  "objkey (keepStamp old x) = objkey x"
  "created old \<Longrightarrow> created (keepStamp old x)"
  "metaKept (ObjectMeta x) (ObjectMeta (keepStamp old x))"
  by (simp_all add: objkey_def created_def keepStamp_def metaKept_def)

lemma metaKept_refl [simp]: "metaKept m m"
  by (simp add: metaKept_def)

lemma metaKept_stamp [simp]: "metaKept (ObjectMeta x) (ObjectMeta (stamp t x))"
  by (simp add: metaKept_def stamp_def)

lemma podKept_refl [simp]: "podKept p p"
  by (simp add: podKept_def)

lemma clients_documented_memEnv: "clients_documented memView memEnv"
  unfolding clients_documented_def
  by (intro conjI; simp add: memEnv_def; rule memClient_documented)
    (simp_all add: memView_def pvcAcc_def secretAcc_def stsAcc_def depAcc_def svcAcc_def snapAcc_def
      jobAcc_def dsAcc_def dsAccS_def dbAccS_def drAccS_def anyAcc_def dsMergeU_def,
     simp_all add: keepStamp_def stamp_def objkey_def created_def metaKept_def)

lemma mset_insortBy: "mset (insortBy lt x xs) = add_mset x (mset xs)"
  by (induction xs) auto

lemma mset_sortBy: "mset (sortBy lt xs) = mset xs"
  by (induction xs) (simp_all add: sortBy_def mset_insortBy)

lemma sorted_insortBy:
  fixes key :: "'a \<Rightarrow> int"
  shows "sorted_wrt (\<lambda>x y. key x \<le> key y) xs \<Longrightarrow>
    sorted_wrt (\<lambda>x y. key x \<le> key y) (insortBy (\<lambda>x y. key x < key y) x xs)"
proof (induction xs)
  case (Cons y ys)
  have "set (insortBy (\<lambda>x y. key x < key y) x ys) = insert x (set ys)"
    by (metis mset_insortBy set_mset_add_mset_insert set_mset_mset)
  with Cons show ?case by auto
qed simp

lemma sorted_sortBy:
  fixes key :: "'a \<Rightarrow> int"
  shows "sorted_wrt (\<lambda>x y. key x \<le> key y) (sortBy (\<lambda>x y. key x < key y) xs)"
  by (induction xs) (simp_all add: sortBy_def sorted_insortBy)

lemma mem_quiet:
  "memView (w\<lparr>mSeed := a\<rparr>) = memView w" "memView (w\<lparr>mEvents := b\<rparr>) = memView w"
  "memView (w\<lparr>mLdap := c\<rparr>) = memView w"
  by (simp_all add: memView_def)

lemma runtime_documented_memEnv: "runtime_documented memView memEnv"
  unfolding runtime_documented_def
  by (auto simp: memEnv_def pres_def callM_def stays_empty mem_quiet mset_sortBy sorted_sortBy)

lemma refs_documented_memEnv: "refs_documented memEnv"
  unfolding refs_documented_def
  by (auto simp: memEnv_def memRef_def refsHold_def Let_def find_Some_iff find_None_iff split: if_splits)

lemma ldap_documented_memEnv: "ldap_documented memView (ldapLib memEnv)"
  unfolding ldap_documented_def
  by (auto simp: memEnv_def memLdap_def pres_def callM_def ret_def panic_def stays_empty mem_quiet split: option.splits)

lemma memEnv_documented: "env_documented memView memEnv"
  by (simp add: env_documented_def clients_documented_memEnv runtime_documented_memEnv
      refs_documented_memEnv ldap_documented_memEnv)

section \<open>A sample directory\<close>

definition sampleTemplate :: directoryPodTemplate where
  "sampleTemplate = \<lparr>tImage = ''ds:7'', tImagePullPolicy = ''Always'', tImagePullSecrets = [], tResources = '''',
     Certificates = \<lparr>MasterSecretName = ''mk'', SSLSecretName = ''ssl'', TruststoreSecretName = ''ts''\<rparr>,
     VolumeClaimSpec = \<lparr>DataSource = Some \<lparr>refAPIGroup = None, refKind = ''VolumeSnapshot'', refName = ''$(latest)''\<rparr>,
       pvcOther = ''5Gi''\<rparr>,
     ScriptConfigMapName = '''', tInitEnvFrom = [], tEnv = [], tEnvFrom = [],
     VolumeSnapshotClassName = ''vsc'', tServiceAccountName = ''default''\<rparr>"

definition sampleSpec :: directoryServiceSpec where
  "sampleSpec = \<lparr>specLabels = None, PodTemplate = sampleTemplate, Replicas = Some 2,
     Passwords = Some [''uid=admin'' \<mapsto> \<lparr>SecretName = ''ds-passwords'', Key = ''admin.pw'', Create = True\<rparr>],
     Snapshots = \<lparr>snapEnabled = True, PeriodMinutes = 10, SnapshotsRetained = 1, DirectoryInstance = 0\<rparr>,
     Proxy = \<lparr>proxyEnabled = False, proxyImage = ''proxy:7'', proxyReplicas = 1, PrimaryGroupID = '''',
       proxyResources = ''''\<rparr>\<rparr>"

definition sampleStatus :: directoryServiceStatus where
  "sampleStatus = \<lparr>Active = [], CurrentReplicas = None, ServerMessage = '''',
     ProxyStatus = \<lparr>statusReplicas = 0, statusReadyReplicas = 0, proxyServerMessage = ''''\<rparr>,
     SnapshotStatus = \<lparr>LastSnapshotTimeStamp = 100\<rparr>\<rparr>"

definition sampleDS :: directoryService where
  "sampleDS = \<lparr>ObjectMeta = (named ''prod'' ''idrepo'')\<lparr>UID := ''u1'', CreationTimestamp := Some 50, Annotations := Some Map.empty\<rparr>,
     dsKind = ''DirectoryService'', Spec = sampleSpec, Status = sampleStatus\<rparr>"

lemmas sample_defs = sampleDS_def sampleSpec_def sampleStatus_def sampleTemplate_def
lemmas mem_defs = memEnv_def memClient_def memBase_def emptyMem_def

end
