(* ===== verification/Util.thy ===== *)
theory Util
  imports Mem_Cluster
begin

text \<open>
  \<open>src/controllers/util.go\<close>: metadata, labels and annotations of the objects the operator
  creates. The ranges over the user's maps only copy distinct keys, so the iteration order
  cannot be observed and the loops are map overrides.
\<close>

definition LabelApplicationName :: string where
  "LabelApplicationName = ''ds''"

abbreviation labelManagedBy :: string where
  "labelManagedBy \<equiv> ''app.kubernetes.io/managed-by''"

abbreviation labelName :: string where
  "labelName \<equiv> ''app.kubernetes.io/name''"

abbreviation labelInstance :: string where
  "labelInstance \<equiv> ''app.kubernetes.io/instance''"

abbreviation labelController :: string where
  "labelController \<equiv> ''app.kubernetes.io/controller''"

abbreviation labelPartOf :: string where
  "labelPartOf \<equiv> ''app.kubernetes.io/part-of''"

abbreviation labelComponent :: string where
  "labelComponent \<equiv> ''app.kubernetes.io/component''"

definition makeMeta :: "string \<Rightarrow> string \<Rightarrow> objectMeta" where
  "makeMeta n ns = zeroMeta\<lparr>Labels := Some Map.empty, Annotations := Some Map.empty, Name := n, Namespace := ns\<rparr>"

definition createLabels :: "string \<Rightarrow> string \<Rightarrow> string gomap \<Rightarrow> (string \<rightharpoonup> string)" where
  "createLabels instanceName controllerName labels =
     (let l = [labelManagedBy \<mapsto> ''ds-operator'',
               labelName \<mapsto> LabelApplicationName,
               labelInstance \<mapsto> instanceName,
               labelController \<mapsto> controllerName,
               labelPartOf \<mapsto> ''forgerock''] in
      case labels of None \<Rightarrow> l | Some m \<Rightarrow> l ++ m)"

definition createAnnotations :: "string gomap \<Rightarrow> (string \<rightharpoonup> string)" where
  "createAnnotations annotations = (case annotations of None \<Rightarrow> Map.empty | Some m \<Rightarrow> Map.empty ++ m)"

lemma createLabels_lookup:
  "createLabels i c labels k =
     (case mapGet labels k of
        Some v \<Rightarrow> Some v
      | None \<Rightarrow>
          if k = labelPartOf then Some ''forgerock''
          else if k = labelController then Some c
          else if k = labelInstance then Some i
          else if k = labelName then Some ''ds''
          else if k = labelManagedBy then Some ''ds-operator''
          else None)"
  by (cases labels) (auto simp: createLabels_def Let_def LabelApplicationName_def map_add_def split: option.splits)

lemma dom_createLabels:
  "dom (createLabels i c labels) =
     {labelManagedBy, labelName, labelInstance, labelController, labelPartOf} \<union> dom (mapGet labels)"
  by (cases labels) (auto simp: createLabels_def Let_def)

lemma createLabels_kept [simp]:
  "mapKept (Some (createLabels i c labels)) m \<longleftrightarrow> m = Some (createLabels i c labels)"
proof -
  have "labelName \<in> dom (createLabels i c labels)" unfolding dom_createLabels by simp
  then have "dom (createLabels i c labels) \<noteq> {}" by blast
  then have "createLabels i c labels \<noteq> Map.empty" unfolding dom_eq_empty_conv .
  then show ?thesis by (simp add: mapKept_def)
qed

text \<open>The selector of the operator's workloads: application name and instance.\<close>

definition instanceSelector :: "string \<Rightarrow> (string \<rightharpoonup> string)" where
  "instanceSelector i = [labelName \<mapsto> LabelApplicationName, labelInstance \<mapsto> i]"

lemma instanceSelector_le:
  "instanceSelector i \<subseteq>\<^sub>m m \<longleftrightarrow> m labelName = Some ''ds'' \<and> m labelInstance = Some i"
  by (auto simp: map_le_def instanceSelector_def LabelApplicationName_def)

text \<open>
  A selector built from name and instance matches the standard labels unless the user's map
  overrides one of the two.
\<close>

lemma selector_matches_createLabels:
  "instanceSelector i \<subseteq>\<^sub>m createLabels i c labels \<longleftrightarrow>
     (\<forall>v. mapGet labels labelName = Some v \<longrightarrow> v = ''ds'') \<and>
     (\<forall>v. mapGet labels labelInstance = Some v \<longrightarrow> v = i)"
  by (auto simp: instanceSelector_le createLabels_lookup split: option.splits)

lemma createLabels_inst_inj:
  "createLabels i c None = createLabels j d None \<longleftrightarrow> i = j \<and> c = d"
proof
  assume eq: "createLabels i c None = createLabels j d None"
  from fun_cong [OF eq, of labelInstance] fun_cong [OF eq, of labelController]
  show "i = j \<and> c = d" by (simp add: createLabels_lookup)
qed simp

end
