(* ===== verification/Secrets.thy ===== *)
theory Secrets
  imports Util
begin

text \<open>
  \<open>src/controllers/secrets.go\<close>: generated account passwords. The iteration order over the map
  of accounts is the runtime's.
\<close>

section \<open>Model\<close>

definition letters :: string where
  "letters = ''abcdefghijklmnopqrstuvwxyzABCDEFGHIJKLMNOPQRSTUVWXYZ0123456789!$^#()-+<>''"

primrec randPassword :: "'w env \<Rightarrow> nat \<Rightarrow> ('w, string) M" where
  "randPassword env 0 = ret []"
| "randPassword env (Suc n) =
     bindM (callM (Intn env (length letters))) (\<lambda>i.
       if i < length letters then bindM (randPassword env n) (\<lambda>s. ret (letters ! i # s))
       else panic IndexOutOfRange)"

definition secretMutate :: "'w env \<Rightarrow> directoryService \<Rightarrow> directoryPasswords \<Rightarrow> ('w, secret, unit) mutateFn" where
  "secretMutate env ds accountSecret sec l =
     (let sec = (if isZero (CreationTimestamp (ObjectMeta sec))
                 then sec\<lparr>ObjectMeta := (ObjectMeta sec)\<lparr>Labels := Some (createLabels (dsName ds) (dsKind ds) None)\<rparr>\<rparr>
                 else sec) in
      case mapGet (Data sec) (Key accountSecret) of
        Some _ \<Rightarrow> ret (None, sec, l)
      | None \<Rightarrow>
          bindM (randPassword env 24) (\<lambda>pw.
          bindM (mapPut (Data sec) (Key accountSecret) pw) (\<lambda>d.
            ret (None, sec\<lparr>Data := d\<rparr>, l))))"

definition reconcileOneSecret :: "'w env \<Rightarrow> directoryService \<Rightarrow> string \<Rightarrow> ('w, goerr option) M" where
  "reconcileOneSecret env ds dn =
     (let accountSecret = mapIndex zeroPasswords (Passwords (Spec ds)) dn in
      if Create accountSecret then
        bindM (kCreateOrUpdate (secretClient env) (newSecret (dsNamespace ds) (SecretNameForDN ds dn)) ()
                (secretMutate env ds accountSecret)) (\<lambda>(err, sec, l).
          case err of None \<Rightarrow> ret None | Some e \<Rightarrow> ret (Some (Wrap e ''unable to CreateOrUpdate Secret'')))
      else ret None)"

definition reconcileSecrets :: "'w env \<Rightarrow> directoryService \<Rightarrow> ('w, goerr option) M" where
  "reconcileSecrets env ds =
     bindM (callM (rangeKeys env (Passwords (Spec ds)))) (\<lambda>dns. forErr dns (reconcileOneSecret env ds))"

section \<open>Generated passwords\<close>

lemma randPassword_spec:
  assumes env: "env_documented view env"
  shows "\<exists>s w'. randPassword env n w = (Ret s, w') \<and> length s = n \<and> set s \<subseteq> set letters \<and> view w' = view w"
proof (induction n arbitrary: w)
  case (Suc n)
  obtain i w1 where i: "Intn env (length letters) w = (i, w1)" by (cases "Intn env (length letters) w")
  have "0 < length letters" by (simp add: letters_def)
  with env_Intn [OF env _ i] have lt: "i < length letters" .
  have "callM (Intn env (length letters)) w = (Ret i, w1)" using i by (simp add: callM_def)
  from presD [OF env_runtime_stays(2) [OF env, of "{}"] this] have "view w1 = view w" by (simp add: stays_empty)
  with Suc [of w1] i lt show ?case by (auto simp: bindM_def callM_def ret_def)
qed (simp add: ret_def)

text \<open>
  A generated password has exactly the requested length and consists of the
  permitted characters only. Generating one always succeeds and does not touch the cluster.
\<close>

theorem randPassword_ok:
  assumes env: "env_documented view env"
  shows "\<exists>s w'. randPassword env n w = (Ret s, w') \<and> length s = n \<and>
    (\<forall>c \<in> set s. c \<in> set ''abcdefghijklmnopqrstuvwxyzABCDEFGHIJKLMNOPQRSTUVWXYZ0123456789!$^#()-+<>'') \<and>
    view w' = view w"
  using randPassword_spec [OF env, of n w] unfolding letters_def by blast

theorem randPassword_ok_witness:
  "\<exists>s w'. randPassword memEnv 24 emptyMem = (Ret s, w') \<and> length s = 24"
  using randPassword_ok [OF memEnv_documented, of 24 emptyMem] by blast

section \<open>Effect on the secrets\<close>

interpretation secretCallback: mutate_fn KSecret secrets "\<lambda>m s. s\<lparr>secrets := m\<rparr>" "secretMutate env ds a" k "\<lambda>_. True" for env ds a k
  by unfold_locales
    (auto simp: secretMutate_def run_simps objkey_def Let_def mapPut_def)

lemma secretMutate_quiet: "env_documented view env \<Longrightarrow> pres (stays K view) (secretMutate env ds a p l)"
proof -
  assume env: "env_documented view env"
  have "pres (stays {} view) (randPassword env n)" for n
  proof (rule presI)
    fix w r w'
    assume "randPassword env n w = (r, w')"
    with randPassword_spec [OF env, of n w] show "stays {} view w w'" by (auto simp: stays_empty)
  qed
  then have "pres (stays K view) (randPassword env n)" for n by (rule stays_of_quiet)
  then show ?thesis
    unfolding secretMutate_def Let_def
    by (auto simp: mapPut_def intro!: frame.pres_bindM frame.pres_ret frame.pres_panic split: option.splits)
qed

lemma reconcileOneSecret_stays:
  assumes env: "env_documented view env"
    and k: "Create (mapIndex zeroPasswords (Passwords (Spec ds)) dn) \<Longrightarrow> (KSecret, dsNamespace ds, SecretNameForDN ds dn) \<in> K"
  shows "pres (stays K view) (reconcileOneSecret env ds dn)"
  unfolding reconcileOneSecret_def Let_def using k
  by (auto intro!: frame.pres_bindM frame.pres_ret secretK.cou_stays [OF env_clients(2) [OF env]] secretMutate_quiet [OF env]
      split: option.splits)

text \<open>The secrets \<open>ds\<close> asks the operator to fill.\<close>

definition createdSecretKeys :: "directoryService \<Rightarrow> nsname set" where
  "createdSecretKeys ds = {(dsNamespace ds, SecretNameForDN ds dn) | dn. Create (mapIndex zeroPasswords (Passwords (Spec ds)) dn)}"

lemma reconcileSecrets_stays:
  assumes env: "env_documented view env" and K: "Pair KSecret ` createdSecretKeys ds \<subseteq> K"
  shows "pres (stays K view) (reconcileSecrets env ds)"
  unfolding reconcileSecrets_def using K
  by (auto intro!: frame.pres_bindM frame.pres_forErr env_runtime_stays [OF env] reconcileOneSecret_stays [OF env]
      simp: createdSecretKeys_def)

text \<open>A callback that returns was run on a secret with data, kept its entries and filled the key.\<close>

lemma Data_relabel: "Data (if c then s\<lparr>ObjectMeta := m\<rparr> else s) = Data s"
  by simp

lemma secretMutate_Ret:
  assumes env: "env_documented view env" and run: "secretMutate env ds a s l w = (Ret (e, y, l'), w')"
  shows "e = None \<and> Data s \<noteq> None \<and> (\<exists>v. mapGet (Data y) = (mapGet (Data s))(Key a \<mapsto> v) \<and>
    (mapGet (Data s) (Key a) = Some v \<or> mapGet (Data s) (Key a) = None \<and> length v = 24 \<and> set v \<subseteq> set letters))"
proof (cases "mapGet (Data s) (Key a)")
  case None
  obtain pw w1 where pw: "randPassword env 24 w = (Ret pw, w1)" "length pw = 24" "set pw \<subseteq> set letters"
    using randPassword_spec [OF env, of 24 w] by blast
  with run None show ?thesis
    by (cases "Data s") (auto simp: secretMutate_def Let_def run_simps mapPut_def Data_relabel)
next
  case (Some v)
  with run show ?thesis
    by (cases "Data s") (auto simp: secretMutate_def Let_def run_simps fun_eq_iff Data_relabel)
qed

text \<open>Entries of secrets only ever appear.\<close>

definition secretsKept :: "store \<Rightarrow> store \<Rightarrow> bool" where
  "secretsKept s s' \<longleftrightarrow> dom (secrets s') = dom (secrets s) \<and>
     (\<forall>k x y. secrets s k = Some x \<longrightarrow> secrets s' k = Some y \<longrightarrow> mapGet (Data x) \<subseteq>\<^sub>m mapGet (Data y))"

lemma secretsKept_refl: "secretsKept s s"
  by (simp add: secretsKept_def)

lemma secretsKept_trans:
  assumes "secretsKept s t" and "secretsKept t u"
  shows "secretsKept s u"
  unfolding secretsKept_def
proof (intro conjI allI impI)
  show "dom (secrets u) = dom (secrets s)" using assms by (simp add: secretsKept_def)
  fix k x z
  assume x: "secrets s k = Some x" and z: "secrets u k = Some z"
  with assms obtain y where y: "secrets t k = Some y" unfolding secretsKept_def by blast
  from assms x y z have "mapGet (Data x) \<subseteq>\<^sub>m mapGet (Data y)" "mapGet (Data y) \<subseteq>\<^sub>m mapGet (Data z)"
    unfolding secretsKept_def by blast+
  then show "mapGet (Data x) \<subseteq>\<^sub>m mapGet (Data z)" by (rule map_le_trans)
qed

lemma secretsKept_entry:
  assumes kept: "secretsKept s s'" and x: "secrets s k = Some x" and v: "mapGet (Data x) key = Some v"
  shows "\<exists>y. secrets s' k = Some y \<and> mapGet (Data y) key = Some v"
proof -
  from kept x obtain y where y: "secrets s' k = Some y" unfolding secretsKept_def by blast
  with kept x have "mapGet (Data x) \<subseteq>\<^sub>m mapGet (Data y)" unfolding secretsKept_def by blast
  with v y show ?thesis by (auto simp: map_le_def dom_def)
qed

interpretation secretOrder: world_order "\<lambda>w w'. secretsKept (view w) (view w')" for view :: "'w \<Rightarrow> store"
  by unfold_locales (auto intro: secretsKept_refl secretsKept_trans)

lemma map_le_upd_same: "m k = None \<or> m k = Some v \<Longrightarrow> m \<subseteq>\<^sub>m m(k \<mapsto> v)"
  by (auto simp: map_le_def)

lemma secret_cou_kept:
  assumes env: "env_documented view env"
  shows "pres (\<lambda>w w'. secretsKept (view w) (view w'))
    (kCreateOrUpdate (secretClient env) (newSecret ns n) () (secretMutate env ds a))"
proof (rule presI)
  fix w r w'
  let ?x = "newSecret ns n"
  assume run: "kCreateOrUpdate (secretClient env) ?x () (secretMutate env ds a) w = (r, w')"
  from secretK.cou_effect [OF env_clients(2) [OF env] secretMutate_quiet [OF env] run]
  show "secretsKept (view w) (view w')"
  proof (elim disjE exE conjE)
    fix base y z l1 w1 w2
    assume f: "secretMutate env ds a base () w1 = (Ret (None, y, l1), w2)" and base: "base = ?x"
    from secretMutate_Ret [OF env f] base have False by (simp add: newSecret_def)
    then show ?thesis ..
  next
    fix base y z l1 w1 w2
    assume f: "secretMutate env ds a base () w1 = (Ret (None, y, l1), w2)"
      and cur: "secrets (view w) (objkey ?x) = Some base"
      and acc: "secretAcc (secrets (view w) (objkey ?x)) y z"
      and v: "view w' = (view w)\<lparr>secrets := (secrets (view w))(objkey ?x \<mapsto> z)\<rparr>"
    from acc have "mapGet (Data z) = mapGet (Data y)" by (auto simp: secretAcc_def dest: mapKept_mapGet)
    with secretMutate_Ret [OF env f] have "mapGet (Data base) \<subseteq>\<^sub>m mapGet (Data z)"
      by (auto intro: map_le_upd_same)
    with cur v show ?thesis by (auto simp: secretsKept_def)
  qed (simp add: secretsKept_refl)
qed

lemma reconcileOneSecret_kept:
  "env_documented view env \<Longrightarrow> pres (\<lambda>w w'. secretsKept (view w) (view w')) (reconcileOneSecret env ds dn)"
  unfolding reconcileOneSecret_def Let_def
  by (auto intro!: secretOrder.pres_bindM secretOrder.pres_ret secret_cou_kept split: option.splits)

lemma reconcileSecrets_kept:
  assumes env: "env_documented view env"
  shows "pres (\<lambda>w w'. secretsKept (view w) (view w')) (reconcileSecrets env ds)"
proof -
  have "pres (\<lambda>w w'. secretsKept (view w) (view w')) (callM (rangeKeys env m))" for m
    by (rule pres_mono [OF env_runtime_stays(3) [OF env, of "{}"]]) (simp add: stays_empty secretsKept_refl)
  then show ?thesis
    unfolding reconcileSecrets_def
    by (auto intro!: secretOrder.pres_bindM secretOrder.pres_forErr reconcileOneSecret_kept [OF env])
qed

text \<open>
  Property C8. Generating passwords never loses one. Whether the secrets step succeeds, fails
  or panics, every secret of the cluster keeps every entry it had, with its value: an account
  password, once there, is never replaced. The step also never brings a secret into being or
  removes one.
\<close>

theorem passwords_never_replaced:
  assumes env: "env_documented view env" and run: "reconcileSecrets env ds w = (r, w')"
  shows "dom (secrets (view w')) = dom (secrets (view w)) \<and>
    (\<forall>k x key v. secrets (view w) k = Some x \<longrightarrow> mapGet (Data x) key = Some v \<longrightarrow>
       (\<exists>y. secrets (view w') k = Some y \<and> mapGet (Data y) key = Some v))"
proof -
  have kept: "secretsKept (view w) (view w')" by (rule presD [OF reconcileSecrets_kept [OF env] run])
  then have "dom (secrets (view w')) = dom (secrets (view w))" unfolding secretsKept_def ..
  with secretsKept_entry [OF kept] show ?thesis by blast
qed

text \<open>What one successful round leaves behind.\<close>

lemma reconcileOneSecret_success:
  assumes env: "env_documented view env" and run: "reconcileOneSecret env ds dn w = (Ret None, w')"
    and a: "a = mapIndex zeroPasswords (Passwords (Spec ds)) dn" and create: "Create a"
  obtains cur z v where "secrets (view w) (dsNamespace ds, SecretName a) = Some cur"
    "secrets (view w') = (secrets (view w))((dsNamespace ds, SecretName a) \<mapsto> z)"
    "mapGet (Data z) = (mapGet (Data cur))(Key a \<mapsto> v)"
    "mapGet (Data cur) (Key a) = Some v \<or> length v = 24 \<and> set v \<subseteq> set letters"
proof -
  let ?x = "newSecret (dsNamespace ds) (SecretName a)"
  from run a create obtain z l where cou: "kCreateOrUpdate (secretClient env) ?x () (secretMutate env ds a) w = (Ret (None, z, l), w')"
    by (auto simp: reconcileOneSecret_def run_simps Let_def SecretNameForDN_def)
  have frame: "secrets (view w') = (secrets (view w))(objkey ?x \<mapsto> z)" if "secrets (view w') (objkey ?x) = Some z"
  proof
    have "stays {(KSecret, objkey ?x)} view w w'"
      by (rule presD [OF secretK.cou_stays [OF env_clients(2) [OF env] secretMutate_quiet [OF env]] cou]) simp
    from secretK.stays_at [OF this] that
    show "secrets (view w') k = ((secrets (view w))(objkey ?x \<mapsto> z)) k" for k by auto
  qed
  from env_clients(2) [OF env] secretMutate_quiet [OF env] cou show thesis
  proof (cases rule: secretK.cou_success)
    case (existing cur w1 w2 y)
    from secretMutate_Ret [OF env existing(5)] obtain v where "mapGet (Data y) = (mapGet (Data cur))(Key a \<mapsto> v)"
      "mapGet (Data cur) (Key a) = Some v \<or> length v = 24 \<and> set v \<subseteq> set letters" by blast
    moreover from existing(9) have "mapGet (Data z) = mapGet (Data y)" by (auto simp: secretAcc_def dest: mapKept_mapGet)
    ultimately show thesis using existing(1) frame [OF existing(8)] by (intro that [of cur z v]) auto
  next
    case (fresh w1 w2 y)
    from secretMutate_Ret [OF env fresh(3)] show thesis by (simp add: newSecret_def)
  qed
qed

lemma reconcileOneSecret_skips:
  "\<not> Create (mapIndex zeroPasswords (Passwords (Spec ds)) dn) \<Longrightarrow> reconcileOneSecret env ds dn w = (Ret None, w)"
  by (simp add: reconcileOneSecret_def Let_def ret_def)

lemma reconcileSecrets_fills:
  assumes env: "env_documented view env" and fin: "finite (dom (mapGet (Passwords (Spec ds))))"
    and run: "reconcileSecrets env ds w = (Ret None, w')"
    and a: "mapGet (Passwords (Spec ds)) dn = Some a" and create: "Create a"
  shows "\<exists>s v. secrets (view w') (dsNamespace ds, SecretName a) = Some s \<and> mapGet (Data s) (Key a) = Some v"
proof -
  obtain dns w1 where range: "rangeKeys env (Passwords (Spec ds)) w = (dns, w1)"
    and loop: "forErr dns (reconcileOneSecret env ds) w1 = (Ret None, w')"
    using run by (auto simp: reconcileSecrets_def run_simps)
  have dns: "dn \<in> set dns" using env_rangeKeys [OF env fin range] a by blast
  let ?acct = "\<lambda>d. mapIndex zeroPasswords (Passwords (Spec ds)) d"
  let ?P = "\<lambda>d w. Create (?acct d) \<longrightarrow> (\<exists>s v. secrets (view w) (dsNamespace ds, SecretName (?acct d)) = Some s \<and>
    mapGet (Data s) (Key (?acct d)) = Some v)"
  have "\<forall>d \<in> set dns. ?P d w'"
  proof (rule forErr_establishes [OF _ _ loop])
    fix d u u'
    assume "reconcileOneSecret env ds d u = (Ret None, u')"
    then show "?P d u'" by (auto elim!: reconcileOneSecret_success [OF env _ refl])
  next
    fix d d'
    show "pres (\<lambda>u u'. ?P d' u \<longrightarrow> ?P d' u') (reconcileOneSecret env ds d)"
      by (rule pres_mono [OF reconcileOneSecret_kept [OF env]]) (blast dest: secretsKept_entry)
  qed
  with dns a create show ?thesis by (force simp: mapIndex_def)
qed

text \<open>
  Property C25. After a successful secrets step every account that asks for a generated password
  has one under its key, in the secret it names. A value that was not there before has 24
  characters, all of them from the permitted alphabet.
\<close>

theorem passwords_provided:
  assumes env: "env_documented view env" and fin: "finite (dom (mapGet (Passwords (Spec ds))))"
    and run: "reconcileSecrets env ds w = (Ret None, w')"
    and a: "mapGet (Passwords (Spec ds)) dn = Some a" and create: "Create a"
  shows "\<exists>s v. secrets (view w') (dsNamespace ds, SecretName a) = Some s \<and> mapGet (Data s) (Key a) = Some v \<and>
    ((\<exists>s0. secrets (view w) (dsNamespace ds, SecretName a) = Some s0 \<and> mapGet (Data s0) (Key a) = Some v) \<or>
     length v = 24 \<and> set v \<subseteq> set letters)"
proof -
  obtain dns w1 where range: "rangeKeys env (Passwords (Spec ds)) w = (dns, w1)"
    and loop: "forErr dns (reconcileOneSecret env ds) w1 = (Ret None, w')"
    using run by (auto simp: reconcileSecrets_def run_simps)
  have "callM (rangeKeys env (Passwords (Spec ds))) w = (Ret dns, w1)" using range by (simp add: callM_def)
  from presD [OF env_runtime_stays(3) [OF env, of "{}"] this] have w1: "view w1 = view w" by (simp add: stays_empty)
  let ?acct = "\<lambda>d. mapIndex zeroPasswords (Passwords (Spec ds)) d"
  obtain s v where s: "secrets (view w') (dsNamespace ds, SecretName a) = Some s" and v: "mapGet (Data s) (Key a) = Some v"
    using reconcileSecrets_fills [OF assms] by blast
  let ?Q = "\<lambda>u. \<forall>k s key v. secrets (view u) k = Some s \<longrightarrow> mapGet (Data s) key = Some v \<longrightarrow>
    (\<exists>s0. secrets (view w) k = Some s0 \<and> mapGet (Data s0) key = Some v) \<or> length v = 24 \<and> set v \<subseteq> set letters"
  have "?Q w'"
  proof (rule forErr_success_inv [OF _ _ loop])
    fix d u u'
    assume Q: "?Q u" and round: "reconcileOneSecret env ds d u = (Ret None, u')"
    show "?Q u'"
    proof (cases "Create (?acct d)")
      case True
      then obtain cur z v where "secrets (view u) (dsNamespace ds, SecretName (?acct d)) = Some cur"
        "secrets (view u') = (secrets (view u))((dsNamespace ds, SecretName (?acct d)) \<mapsto> z)"
        "mapGet (Data z) = (mapGet (Data cur))(Key (?acct d) \<mapsto> v)"
        "mapGet (Data cur) (Key (?acct d)) = Some v \<or> length v = 24 \<and> set v \<subseteq> set letters"
        by (rule reconcileOneSecret_success [OF env round refl])
      with Q show ?thesis by (simp, blast)
    next
      case False
      with reconcileOneSecret_skips round Q show ?thesis by (metis Pair_inject)
    qed
  qed (use w1 in simp)
  with s v show ?thesis by blast
qed

text \<open>
  Property C36. Asking for a generated password in a secret that does not exist yet crashes the
  operator: the round of the loop for that account panics, since the callback writes to the nil
  data map of the new object. The round has not written to the cluster by then, so the next attempt
  crashes as well.
\<close>

theorem new_secret_panics:
  assumes env: "env_documented view env" and a: "mapGet (Passwords (Spec ds)) dn = Some a" and create: "Create a"
    and get: "kGet (secretClient env) (dsNamespace ds, SecretName a) w = (Inl NotFound, w1)"
  shows "\<exists>w'. reconcileOneSecret env ds dn w = (Panic NilMapWrite, w') \<and> view w' = view w"
proof -
  obtain pw w2 where pw: "randPassword env 24 w1 = (Ret pw, w2)" and v2: "view w2 = view w1"
    using randPassword_spec [OF env, of 24 w1] by blast
  have v1: "view w1 = view w" by (rule secretK.get_view [OF env_clients(2) [OF env] get])
  have "kCreateOrUpdate (secretClient env) = couSpec (secretClient env)"
    using env_clients(2) [OF env] unfolding client_documented_def by blast
  with get pw a create have "reconcileOneSecret env ds dn w = (Panic NilMapWrite, w2)"
    by (simp add: reconcileOneSecret_def SecretNameForDN_def mapIndex_def couSpec_def bindM_def callM_def secretMutate_def
        isZero_def newSecret_def objkey_def mapPut_def panic_def)
  with v1 v2 show ?thesis by simp
qed

section \<open>Sample runs\<close>

definition sampleSecret :: "string gomap \<Rightarrow> secret" where
  "sampleSecret d = stamp 60 ((newSecret ''prod'' ''ds-passwords'')\<lparr>Data := d\<rparr>)"

lemma lookup_sampleSecret: "lookupObj [sampleSecret d] (''prod'', ''ds-passwords'') = Some (sampleSecret d)"
  by (simp add: lookupObj_Cons sampleSecret_def objkey_def stamp_def created_def isZero_def)

lemma sampleSecret_run:
  "reconcileSecrets memEnv sampleDS (emptyMem\<lparr>mSecrets := [sampleSecret (Some [''admin.pw'' \<mapsto> ''old''])]\<rparr>) =
     (Ret None, emptyMem\<lparr>mSecrets := [sampleSecret (Some [''admin.pw'' \<mapsto> ''old''])]\<rparr>)"
proof -
  let ?s = "sampleSecret (Some [''admin.pw'' \<mapsto> ''old''])"
  let ?w = "emptyMem\<lparr>mSecrets := [?s]\<rparr>"
  let ?a = "\<lparr>SecretName = ''ds-passwords'', Key = ''admin.pw'', Create = True\<rparr>"
  have f: "secretMutate memEnv sampleDS ?a ?s () ?w = (Ret (None, ?s, ()), ?w)"
    by (simp add: secretMutate_def Let_def sampleSecret_def stamp_def isZero_def ret_def)
  note cou = mem_cou_same [where get = mSecrets and f = "secretMutate memEnv sampleDS ?a" and
      x = "newSecret ''prod'' ''ds-passwords''" and w = ?w, OF _ f]
  have range: "rangeKeys memEnv (Passwords sampleSpec) ?w = ([''uid=admin''], ?w)"
    by (simp add: memEnv_def sampleSpec_def)
  show ?thesis
    using cou [where put = "\<lambda>xs w. w\<lparr>mSecrets := xs\<rparr>" and mU = keepStamp and mS = keepStamp] range
    by (simp add: reconcileSecrets_def reconcileOneSecret_def Let_def bindM_def callM_def checkM_def ret_def sampleDS_def
        mapIndex_def SecretNameForDN_def lookup_sampleSecret sampleSpec_def memEnv_def)
qed

theorem passwords_never_replaced_witness:
  "let w = emptyMem\<lparr>mSecrets := [sampleSecret (Some [''admin.pw'' \<mapsto> ''old''])]\<rparr> in
   dom (secrets (memView (snd (reconcileSecrets memEnv sampleDS w)))) = dom (secrets (memView w))"
  using passwords_never_replaced [OF memEnv_documented surjective_pairing, of sampleDS
      "emptyMem\<lparr>mSecrets := [sampleSecret (Some [''admin.pw'' \<mapsto> ''old''])]\<rparr>"]
  by (simp add: Let_def)

theorem passwords_provided_witness:
  "\<exists>s v. secrets (memView (emptyMem\<lparr>mSecrets := [sampleSecret (Some [''admin.pw'' \<mapsto> ''old''])]\<rparr>))
     (''prod'', ''ds-passwords'') = Some s \<and> mapGet (Data s) ''admin.pw'' = Some v"
proof -
  have "finite (dom (mapGet (Passwords (Spec sampleDS))))" by (simp add: sample_defs)
  moreover have "mapGet (Passwords (Spec sampleDS)) ''uid=admin'' =
      Some \<lparr>SecretName = ''ds-passwords'', Key = ''admin.pw'', Create = True\<rparr>" by (simp add: sample_defs)
  ultimately show ?thesis
    using passwords_provided [OF memEnv_documented _ sampleSecret_run] by (fastforce simp: sampleDS_def)
qed

theorem new_secret_panics_witness:
  "\<exists>w'. reconcileOneSecret memEnv sampleDS ''uid=admin'' emptyMem = (Panic NilMapWrite, w')"
  using new_secret_panics [OF memEnv_documented, of sampleDS "''uid=admin''"
      "\<lparr>SecretName = ''ds-passwords'', Key = ''admin.pw'', Create = True\<rparr>" emptyMem emptyMem]
  by (auto simp: sample_defs mem_defs)

end
