(* ===== verification/Services.thy ===== *)
theory Services
  imports Util
begin

text \<open>
  \<open>src/controllers/service.go\<close> and \<open>src/controllers/proxy_service.go\<close>: the headless service
  in front of the directory pods and the service of the proxy. Nothing calls
  \<open>reconcileProxyService\<close>; it is modelled all the same. A service that exists is never updated.
\<close>

section \<open>The directory service\<close>

definition createService :: "directoryService \<Rightarrow> service \<Rightarrow> service" where
  "createService ds svc =
     \<lparr>ObjectMeta = zeroMeta\<lparr>Labels := Some (createLabels (dsName ds) (dsKind ds) None), Annotations := Some Map.empty,
        Name := Name (ObjectMeta svc), Namespace := dsNamespace ds\<rparr>,
      svcClusterIP = ''None'',
      svcSelector = [labelName \<mapsto> LabelApplicationName, labelInstance \<mapsto> dsName ds],
      svcPorts = [\<lparr>spName = ''tcp-admin'', spPort = 4444\<rparr>, \<lparr>spName = ''tcp-ldap'', spPort = 1389\<rparr>,
        \<lparr>spName = ''tcp-ldaps'', spPort = 1636\<rparr>, \<lparr>spName = ''tcp-replication'', spPort = 8989\<rparr>,
        \<lparr>spName = ''http'', spPort = 8080\<rparr>]\<rparr>"

text \<open>Setting the controller reference; its error is ignored.\<close>

definition controlledBy :: "'w env \<Rightarrow> directoryService \<Rightarrow> 'x k8sobj_scheme \<Rightarrow> 'x k8sobj_scheme" where
  "controlledBy env ds x =
     x\<lparr>ObjectMeta := (ObjectMeta x)\<lparr>OwnerReferences := snd (SetControllerReference env KDs (ObjectMeta ds) (ObjectMeta x))\<rparr>\<rparr>"

definition serviceMutate :: "'w env \<Rightarrow> directoryService \<Rightarrow> ('w, service, unit) mutateFn" where
  "serviceMutate env ds svc l =
     (if isZero (CreationTimestamp (ObjectMeta svc)) then ret (None, controlledBy env ds (createService ds svc), l)
      else ret (None, svc, l))"

definition reconcileService :: "'w env \<Rightarrow> directoryService \<Rightarrow> string \<Rightarrow> ('w, service \<times> goerr option) M" where
  "reconcileService env ds svcName =
     bindM (kCreateOrUpdate (svcClient env) (newService (dsNamespace ds) svcName) () (serviceMutate env ds))
       (\<lambda>(err, svc, l). ret (svc, err))"

section \<open>The proxy's service\<close>

definition proxyNameOf :: "directoryService \<Rightarrow> string" where
  "proxyNameOf ds = dsName ds @ ''-proxy''"

definition proxyLabels :: "directoryService \<Rightarrow> (string \<rightharpoonup> string)" where
  "proxyLabels ds = createLabels (proxyNameOf ds) (dsKind ds) (Some [labelComponent \<mapsto> ''ds-proxy''])"

text \<open>The selector copies two entries of the labels; an absent one would be the empty string.\<close>

definition proxySelector :: "directoryService \<Rightarrow> (string \<rightharpoonup> string)" where
  "proxySelector ds = [labelName \<mapsto> mapIndex '''' (Some (proxyLabels ds)) labelName,
     labelInstance \<mapsto> mapIndex '''' (Some (proxyLabels ds)) labelInstance]"

definition createProxyService :: "directoryService \<Rightarrow> service \<Rightarrow> service" where
  "createProxyService ds svc =
     \<lparr>ObjectMeta = zeroMeta\<lparr>Labels := Some (proxyLabels ds), Annotations := Some Map.empty,
        Name := proxyNameOf ds, Namespace := dsNamespace ds\<rparr>,
      svcClusterIP = '''',
      svcSelector = proxySelector ds,
      svcPorts = [\<lparr>spName = ''tcp-admin'', spPort = 4444\<rparr>, \<lparr>spName = ''tcp-ldap'', spPort = 1389\<rparr>,
        \<lparr>spName = ''tcp-ldaps'', spPort = 1636\<rparr>, \<lparr>spName = ''https'', spPort = 8443\<rparr>,
        \<lparr>spName = ''http'', spPort = 8080\<rparr>]\<rparr>"

definition proxyServiceMutate :: "'w env \<Rightarrow> directoryService \<Rightarrow> ('w, service, unit) mutateFn" where
  "proxyServiceMutate env ds svc l =
     (if isZero (CreationTimestamp (ObjectMeta svc)) then ret (None, controlledBy env ds (createProxyService ds svc), l)
      else ret (None, svc, l))"

text \<open>
  Removal of an object that is no longer wanted, as written out in the proxy and the proxy
  service reconcilers: \<open>GetControllerOf\<close> may return nil, which is dereferenced.
\<close>

definition removeIfOwned ::
  "'w env \<Rightarrow> directoryService \<Rightarrow> ('w, 'x k8sobj_scheme, 'l) kclient \<Rightarrow> nsname \<Rightarrow> ('w, goerr option) M" where
  "removeIfOwned env ds kc k =
     bindM (callM (kGet kc k)) (\<lambda>r.
       case r of
         Inl err \<Rightarrow> if err = NotFound then ret None else ret (Some err)
       | Inr x \<Rightarrow>
           (case GetControllerOf env (ObjectMeta x) of
              None \<Rightarrow> panic NilDeref
            | Some owner \<Rightarrow>
                if orAPIVersion owner = GroupVersion \<and> orUID owner = UID (ObjectMeta ds) then callM (kDelete kc x)
                else ret None))"

definition zeroService :: service where
  "zeroService = \<lparr>ObjectMeta = zeroMeta, svcClusterIP = '''', svcSelector = Map.empty, svcPorts = []\<rparr>"

definition reconcileProxyService :: "'w env \<Rightarrow> directoryService \<Rightarrow> ('w, service \<times> goerr option) M" where
  "reconcileProxyService env ds =
     (if \<not> proxyEnabled (Proxy (Spec ds)) then
        bindM (removeIfOwned env ds (svcClient env) (dsNamespace ds, proxyNameOf ds)) (\<lambda>err. ret (zeroService, err))
      else
        bindM (kCreateOrUpdate (svcClient env) (newService (dsNamespace ds) (proxyNameOf ds)) () (proxyServiceMutate env ds))
          (\<lambda>(err, svc, l). ret (svc, err)))"

section \<open>Lemmas\<close>

lemma controlledBy_simps [simp]:
  "objkey (controlledBy env ds x) = objkey x"
  "Labels (ObjectMeta (controlledBy env ds x)) = Labels (ObjectMeta x)"
  "svcSelector (controlledBy env ds s) = svcSelector s"
  "svcPorts (controlledBy env ds s) = svcPorts s"
  "svcClusterIP (controlledBy env ds s) = svcClusterIP s"
  by (simp_all add: controlledBy_def objkey_def)

interpretation serviceCallback: create_only KSvc services "\<lambda>m s. s\<lparr>services := m\<rparr>"
    "serviceMutate env ds" "(dsNamespace ds, n)" for env ds n
  by unfold_locales
    (auto simp: serviceMutate_def created_def ret_apply createService_def zeroMeta_def objkey_def controlledBy_def split: if_splits)

interpretation proxyServiceCallback: create_only KSvc services "\<lambda>m s. s\<lparr>services := m\<rparr>"
    "proxyServiceMutate env ds" "(dsNamespace ds, proxyNameOf ds)" for env ds
  by unfold_locales
    (auto simp: proxyServiceMutate_def created_def ret_apply createProxyService_def zeroMeta_def objkey_def controlledBy_def
      split: if_splits)

lemma serviceMutate_quiet: "pres (stays K view) (serviceMutate env ds s l)"
  by (auto simp: serviceMutate_def intro: frame.pres_ret)

lemma proxyServiceMutate_quiet: "pres (stays K view) (proxyServiceMutate env ds s l)"
  by (auto simp: proxyServiceMutate_def intro: frame.pres_ret)

lemma reconcileService_stays:
  assumes env: "env_documented view env" and k: "(KSvc, dsNamespace ds, svcName) \<in> K"
  shows "pres (stays K view) (reconcileService env ds svcName)"
  unfolding reconcileService_def using k
  by (auto intro!: frame.pres_bindM frame.pres_ret svcK.cou_stays [OF env_clients(5) [OF env]] serviceMutate_quiet)

lemma reconcileService_noPanic: "env_documented view env \<Longrightarrow> noPanic (reconcileService env ds svcName)"
  unfolding reconcileService_def
  by (auto intro!: noPanic_bindM noPanic_ret svcK.cou_noPanic env_clients(5) simp: serviceMutate_def)

lemma reconcileService_success:
  assumes env: "env_documented view env" and run: "reconcileService env ds svcName w = (Ret (s, None), w')"
  shows "services (view w') (dsNamespace ds, svcName) = Some s"
proof -
  from run obtain l where "kCreateOrUpdate (svcClient env) (newService (dsNamespace ds) svcName) () (serviceMutate env ds) w =
      (Ret (None, s, l), w')"
    by (auto simp: reconcileService_def run_simps)
  from svcK.cou_present [OF env_clients(5) [OF env] serviceMutate_quiet this] show ?thesis by simp
qed

lemma createService_selects: "svcSelector (createService ds svc) = instanceSelector (dsName ds)"
  by (simp add: createService_def instanceSelector_def)

lemma proxySelector_eq: "proxySelector ds = instanceSelector (proxyNameOf ds)"
  by (simp add: proxySelector_def instanceSelector_def mapIndex_def proxyLabels_def createLabels_lookup LabelApplicationName_def)

text \<open>
  The services keep directory and proxy apart. Of the pods with the standard labels
  of a directory, the headless service selects those of its own directory only: not the pods of
  the directory's proxy, whose service in turn does not select the directory's pods. No two ports
  of a service share a number or a name.
\<close>

theorem services_select:
  "(svcSelector (createService ds s) \<subseteq>\<^sub>m createLabels i c None \<longleftrightarrow> i = dsName ds) \<and>
   (svcSelector (createProxyService ds s) \<subseteq>\<^sub>m createLabels i c None \<longleftrightarrow> i = dsName ds @ ''-proxy'') \<and>
   \<not> svcSelector (createService ds s) \<subseteq>\<^sub>m proxyLabels ds \<and> svcSelector (createProxyService ds s) \<subseteq>\<^sub>m proxyLabels ds \<and>
   distinct (map spPort (svcPorts (createService ds s))) \<and> distinct (map spName (svcPorts (createService ds s))) \<and>
   distinct (map spPort (svcPorts (createProxyService ds s))) \<and> distinct (map spName (svcPorts (createProxyService ds s)))"
proof (intro conjI)
  show "svcSelector (createService ds s) \<subseteq>\<^sub>m createLabels i c None \<longleftrightarrow> i = dsName ds"
    by (auto simp: createService_selects instanceSelector_le createLabels_lookup)
  show "svcSelector (createProxyService ds s) \<subseteq>\<^sub>m createLabels i c None \<longleftrightarrow> i = dsName ds @ ''-proxy''"
    by (auto simp: createProxyService_def proxySelector_eq instanceSelector_le createLabels_lookup proxyNameOf_def)
  show "svcSelector (createProxyService ds s) \<subseteq>\<^sub>m proxyLabels ds" "\<not> svcSelector (createService ds s) \<subseteq>\<^sub>m proxyLabels ds"
    by (simp_all add: createProxyService_def createService_selects proxySelector_eq instanceSelector_le proxyLabels_def
        createLabels_lookup proxyNameOf_def)
qed (simp_all add: createService_def createProxyService_def)

section \<open>Removal\<close>

lemma removeIfOwned_stays:
  assumes env: "env_documented view env"
    and get: "\<And>K. pres (stays K view) (callM (kGet kc k))"
    and del: "\<And>x w w1. kGet kc k w = (Inr x, w1) \<Longrightarrow> pres (stays K view) (callM (kDelete kc x))"
  shows "pres (stays K view) (removeIfOwned env ds kc k)"
proof (rule presI)
  fix w r w'
  assume run: "removeIfOwned env ds kc k w = (r, w')"
  obtain g w1 where g: "kGet kc k w = (g, w1)" by (cases "kGet kc k w")
  then have g': "callM (kGet kc k) w = (Ret g, w1)" by (simp add: callM_def)
  have w1: "stays K view w w1" by (rule presD [OF get g'])
  show "stays K view w w'"
  proof (cases g)
    case (Inl e)
    with run g w1 show ?thesis by (auto simp: removeIfOwned_def bindM_def callM_def ret_def split: if_splits)
  next
    case (Inr x)
    from g Inr run have "w' = w1 \<or> callM (kDelete kc x) w1 = (r, w')"
      by (auto simp: removeIfOwned_def bindM_def callM_def ret_def panic_def split: option.splits if_splits)
    with w1 presD [OF del [OF g [unfolded Inr]]] show ?thesis by (auto intro: frame.R_trans)
  qed
qed

text \<open>Only an object that is there, and controlled by this very resource, is asked to be deleted.\<close>

lemma removeIfOwned_result:
  assumes run: "removeIfOwned env ds kc k w = (Ret e, w')"
  shows "(\<exists>w1. kGet kc k w = (Inl NotFound, w1) \<and> e = None) \<or> (\<exists>err w1. kGet kc k w = (Inl err, w1) \<and> e = Some err) \<or>
    (\<exists>x w1 r. kGet kc k w = (Inr x, w1) \<and> GetControllerOf env (ObjectMeta x) = Some r \<and>
       (if orAPIVersion r = GroupVersion \<and> orUID r = UID (ObjectMeta ds) then kDelete kc x w1 = (e, w') else e = None \<and> w' = w1))"
  using run
  by (auto simp: removeIfOwned_def bindM_def callM_def ret_def panic_def split: sum.splits prod.splits option.splits if_splits)

lemma reconcileProxyService_stays:
  assumes env: "env_documented view env" and k: "(KSvc, dsNamespace ds, proxyNameOf ds) \<in> K"
  shows "pres (stays K view) (reconcileProxyService env ds)"
proof -
  note kc = env_clients(5) [OF env]
  have "pres (stays K view) (removeIfOwned env ds (svcClient env) (dsNamespace ds, proxyNameOf ds))"
  proof (rule removeIfOwned_stays [OF env svcK.get_stays [OF kc]])
    fix x w w1
    assume "kGet (svcClient env) (dsNamespace ds, proxyNameOf ds) w = (Inr x, w1)"
    with svcK.get_Inr [OF kc] k show "pres (stays K view) (callM (kDelete (svcClient env) x))"
      by (intro svcK.delete_stays [OF kc]) fastforce
  qed
  then show ?thesis
    unfolding reconcileProxyService_def using k
    by (auto intro!: frame.pres_bindM frame.pres_ret svcK.cou_stays [OF kc] proxyServiceMutate_quiet)
qed

text \<open>
  A directory's service is made once and then left to the user. After a successful
  step the service exists under the given name; if it was there before it is exactly as it was;
  if not, it is headless, carries the directory's labels, selects the directory's pods and is
  reported to the caller as stored.
\<close>

theorem service_created_once:
  assumes env: "env_documented view env" and run: "reconcileService env ds svcName w = (Ret (s, None), w')"
  shows "services (view w') (dsNamespace ds, svcName) = Some s \<and> services (view w) \<subseteq>\<^sub>m services (view w') \<and>
    (services (view w) (dsNamespace ds, svcName) = None \<longrightarrow>
       svcClusterIP s = ''None'' \<and> svcSelector s = instanceSelector (dsName ds) \<and> Labels (ObjectMeta s) = Some (createLabels (dsName ds) (dsKind ds) None) \<and>
       map spPort (svcPorts s) = [4444, 1389, 1636, 8989, 8080])"
proof -
  let ?x = "newService (dsNamespace ds) svcName"
  from run obtain l where cou: "kCreateOrUpdate (svcClient env) ?x () (serviceMutate env ds) w = (Ret (None, s, l), w')"
    by (auto simp: reconcileService_def run_simps)
  note kc = env_clients(5) [OF env]
  have "svcClusterIP s = ''None'' \<and> svcSelector s = instanceSelector (dsName ds) \<and> Labels (ObjectMeta s) = Some (createLabels (dsName ds) (dsKind ds) None) \<and>
       map spPort (svcPorts s) = [4444, 1389, 1636, 8989, 8080]" if none: "services (view w) (dsNamespace ds, svcName) = None"
    using kc serviceMutate_quiet cou
  proof (cases rule: svcK.cou_success)
    case (fresh w1 w2 y)
    then have "y = controlledBy env ds (createService ds ?x)" by (simp add: serviceMutate_def isZero_def ret_def)
    with fresh(7) show ?thesis
      by (simp add: svcAcc_def metaKept_def createService_selects) (simp add: createService_def zeroMeta_def)
  qed (use none in simp)
  with reconcileService_success [OF env run] serviceCallback.cou_grows [OF kc serviceMutate_quiet cou]
  show ?thesis by blast
qed

theorem service_created_once_witness:
  "\<exists>s w'. reconcileService memEnv sampleDS ''idrepo'' emptyMem = (Ret (s, None), w') \<and>
     services (memView w') (''prod'', ''idrepo'') = Some s \<and> svcSelector s = instanceSelector ''idrepo''"
proof -
  let ?x = "newService ''prod'' ''idrepo''"
  have f: "serviceMutate memEnv sampleDS ?x () emptyMem =
      (Ret (None, controlledBy memEnv sampleDS (createService sampleDS ?x), ()), emptyMem)"
    by (simp add: serviceMutate_def isZero_def ret_def)
  have ns: "dsNamespace sampleDS = ''prod''" "dsName sampleDS = ''idrepo''" by (simp_all add: sampleDS_def)
  have key: "objkey (createService sampleDS ?x) = (''prod'', ''idrepo'')"
    by (simp add: createService_def objkey_def zeroMeta_def sampleDS_def)
  have cl: "svcClient memEnv = memClient mSvcs (\<lambda>xs w. w\<lparr>mSvcs := xs\<rparr>) keepStamp keepStamp" by (simp add: memEnv_def)
  note cou = mem_cou_fresh [where get = mSvcs and f = "serviceMutate memEnv sampleDS" and x = ?x, OF _ f]
  obtain s w' where run: "reconcileService memEnv sampleDS ''idrepo'' emptyMem = (Ret (s, None), w')"
    using cou [where put = "\<lambda>xs w. w\<lparr>mSvcs := xs\<rparr>" and mU = keepStamp and mS = keepStamp]
    by (auto simp: reconcileService_def cl bindM_def ret_def key ns emptyMem_def)
  have "services (memView emptyMem) (dsNamespace sampleDS, ''idrepo'') = None" by (simp add: memView_def emptyMem_def)
  with service_created_once [OF memEnv_documented run] run show ?thesis by (auto simp: ns)
qed

end
