(* ===== verification/Snapshots.thy ===== *)
theory Snapshots
  imports Util
begin

text \<open>
  \<open>src/controllers/snapshots.go\<close>: periodic volume snapshots and the pruning of old ones.
  Times and the period keep their widths: the period in seconds is computed in 32 bits and
  widened afterwards, as in the source. The 64-bit additions wrap.
\<close>

section \<open>Listing\<close>

definition snapTime :: "volumeSnapshot \<Rightarrow> int" where
  "snapTime x = unixOf (CreationTimestamp (ObjectMeta x))"

definition getSnapshotList :: "'w env \<Rightarrow> directoryService \<Rightarrow> ('w, goerr + volumeSnapshot list) M" where
  "getSnapshotList env ds =
     (let labels = createLabels (dsName ds) (dsKind ds) None in
      bindM (callM (kList (snapClient env) (dsNamespace ds) labels)) (\<lambda>r.
        case r of Inl err \<Rightarrow> ret (Inl err)
        | Inr items \<Rightarrow> ret (Inr (sortSlice env (\<lambda>x y. snapTime x < snapTime y) items))))"

section \<open>Taking snapshots\<close>

text \<open>\<open>last + int64(PeriodMinutes*60)\<close>\<close>

definition snapshotDeadline :: "directoryService \<Rightarrow> int64" where
  "snapshotDeadline ds =
     LastSnapshotTimeStamp (SnapshotStatus (Status ds)) + scast (PeriodMinutes (Snapshots (Spec ds)) * 60)"

definition dataClaimName :: "string \<Rightarrow> int \<Rightarrow> string" where
  "dataClaimName n i = ''data-'' @ n @ ''-'' @ formatInt i"

definition newVolumeSnapshot :: "directoryService \<Rightarrow> int64 \<Rightarrow> volumeSnapshot" where
  "newVolumeSnapshot ds now =
     (let pvcClaimToSnap = dataClaimName (dsName ds) (sint (DirectoryInstance (Snapshots (Spec ds))));
          snapName = dsName ds @ ''-'' @ formatInt (sint now) in
      \<lparr>ObjectMeta = zeroMeta\<lparr>Name := snapName, Namespace := dsNamespace ds,
         Labels := Some (createLabels (dsName ds) (dsKind ds) None),
         Annotations := Some [''directory.forgerock.io/lastSnapshotTime'' \<mapsto> formatInt (sint now)]\<rparr>,
       vsClassName = Some (VolumeSnapshotClassName (PodTemplate (Spec ds))),
       vsSourcePVC = Some pvcClaimToSnap\<rparr>)"

text \<open>The callback: copy the template into a new snapshot, leave an existing one alone.\<close>

definition snapshotMutate :: "volumeSnapshot \<Rightarrow> ('w, volumeSnapshot, unit) mutateFn" where
  "snapshotMutate s snap l = (if isZero (CreationTimestamp (ObjectMeta snap)) then ret (None, s, l) else ret (None, snap, l))"

definition setLastSnapshot :: "directoryService \<Rightarrow> int64 \<Rightarrow> directoryService" where
  "setLastSnapshot ds now =
     ds\<lparr>Status := (Status ds)\<lparr>SnapshotStatus := (SnapshotStatus (Status ds))\<lparr>LastSnapshotTimeStamp := now\<rparr>\<rparr>\<rparr>"

text \<open>\<open>r.Status().Update(ctx, ds)\<close>: the reply is decoded into \<open>ds\<close>.\<close>

definition statusUpdateDS :: "'w env \<Rightarrow> directoryService \<Rightarrow> ('w, goerr option \<times> directoryService) M" where
  "statusUpdateDS env ds =
     bindM (callM (kStatusUpdate (dsClient env) ds)) (\<lambda>r.
       case r of Inl err \<Rightarrow> ret (Some err, ds) | Inr ds' \<Rightarrow> ret (None, ds'))"

text \<open>The body of the pruning loop: a failed deletion is logged and skipped.\<close>

definition pruneOne :: "'w env \<Rightarrow> volumeSnapshot \<Rightarrow> ('w, unit) M" where
  "pruneOne env s = bindM (callM (kDelete (snapClient env) s)) (\<lambda>err.
     callM (Event env ''Purged Snapshot'' (Name (ObjectMeta s))))"

text \<open>Deleting the oldest; an index past the end of the list panics.\<close>

definition pruneSnapshots :: "'w env \<Rightarrow> int32 \<Rightarrow> volumeSnapshot list \<Rightarrow> ('w, unit) M" where
  "pruneSnapshots env retained items =
     (let numToDelete = int (length items) - sint retained in
      if numToDelete > 0 then
        forAll [0..<nat numToDelete] (\<lambda>i.
          if i < length items then pruneOne env (items ! i) else panic IndexOutOfRange)
      else ret ())"

definition reconcileSnapshots :: "'w env \<Rightarrow> directoryService \<Rightarrow> ('w, goerr option \<times> directoryService) M" where
  "reconcileSnapshots env ds =
     (if \<not> snapEnabled (Snapshots (Spec ds)) then ret (None, ds)
      else bindM (callM (Now env)) (\<lambda>now.
        if LastSnapshotTimeStamp (SnapshotStatus (Status ds)) = 0 then
          statusUpdateDS env (setLastSnapshot ds now)
        else if sint now < sint (snapshotDeadline ds) then ret (None, ds)
        else
          (let s = newVolumeSnapshot ds now in
           bindM (kCreateOrUpdate (snapClient env) (newSnapshot (Namespace (ObjectMeta s)) (Name (ObjectMeta s))) ()
                   (snapshotMutate s)) (\<lambda>(err, snap, l).
           bindM (callM (Event env ''Created Snapshot'' (Name (ObjectMeta snap)))) (\<lambda>_.
           bindM (statusUpdateDS env (setLastSnapshot ds now)) (\<lambda>(err, ds).
             case err of Some e \<Rightarrow> ret (Some e, ds)
             | None \<Rightarrow>
                 bindM (getSnapshotList env ds) (\<lambda>r.
                   case r of Inl e \<Rightarrow> ret (Some e, ds)
                   | Inr items \<Rightarrow>
                       bindM (pruneSnapshots env (SnapshotsRetained (Snapshots (Spec ds))) items) (\<lambda>_.
                       ret (None, ds)))))))))"

interpretation snapCallback: create_only KSnap snapshots "\<lambda>m s. s\<lparr>snapshots := m\<rparr>"
    "snapshotMutate s" "objkey s" for s
  by unfold_locales (auto simp: snapshotMutate_def created_def ret_apply split: if_splits)

section \<open>The snapshots of a directory\<close>

definition ownSnapshots :: "directoryService \<Rightarrow> store \<Rightarrow> volumeSnapshot set" where
  "ownSnapshots ds s = {x. snapshots s (objkey x) = Some x \<and> fst (objkey x) = dsNamespace ds \<and>
     labelsMatch (createLabels (dsName ds) (dsKind ds) None) x}"

lemma getSnapshotList_view:
  assumes env: "env_documented view env" and run: "getSnapshotList env ds w = (r, w')"
  shows "view w' = view w \<and> (\<exists>x. r = Ret x)"
proof -
  obtain l w1 where l: "kList (snapClient env) (dsNamespace ds) (createLabels (dsName ds) (dsKind ds) None) w = (l, w1)"
    by (cases "kList (snapClient env) (dsNamespace ds) (createLabels (dsName ds) (dsKind ds) None) w")
  with run have "w' = w1" "\<exists>x. r = Ret x"
    by (auto simp: getSnapshotList_def bindM_def callM_def ret_apply split: sum.splits)
  with snapK.list_view [OF env_clients(6) [OF env] l] show ?thesis by simp
qed

lemma getSnapshotList_quiet: "env_documented view env \<Longrightarrow> pres (stays K view) (getSnapshotList env ds)"
  by (rule stays_of_quiet, rule presI) (simp add: stays_empty getSnapshotList_view)

lemma snapshot_list_facts:
  assumes env: "env_documented view env"
    and run: "getSnapshotList env ds w = (Ret (Inr items), w')"
  shows "set items = ownSnapshots ds (view w)" and "distinct (map objkey items)"
    and "sorted_wrt (\<lambda>x y. snapTime x \<le> snapTime y) items" and "view w' = view w"
proof -
  obtain xs where l: "kList (snapClient env) (dsNamespace ds) (createLabels (dsName ds) (dsKind ds) None) w = (Inr xs, w')"
    and items: "items = sortSlice env (\<lambda>x y. snapTime x < snapTime y) xs"
    using run by (auto simp: getSnapshotList_def bindM_def callM_def ret_apply split: sum.splits prod.splits)
  note sorted = env_sortSlice [OF env, of snapTime xs, folded items]
  from snapK.list_Inr [OF env_clients(6) [OF env] l]
  have xs: "distinct (map objkey xs)" "set xs = ownSnapshots ds (view w)"
    by (simp_all add: ownSnapshots_def)
  from sorted(1) have "set items = set xs" by (rule mset_eq_setD)
  with xs(2) show "set items = ownSnapshots ds (view w)" by simp
  from sorted(1) have "mset (map objkey items) = mset (map objkey xs)" by simp
  with xs(1) show "distinct (map objkey items)" by (metis distinct_count_atmost_1 set_mset_mset)
  from sorted(2) show "sorted_wrt (\<lambda>x y. snapTime x \<le> snapTime y) items" .
  from getSnapshotList_view [OF env run] show "view w' = view w" by simp
qed

text \<open>
  The list of snapshots a directory gets is complete, free of duplicates and in
  order of creation: it holds exactly the snapshots of its namespace that carry its labels,
  each of them once, and no later element is older than an earlier one. Reading the list does
  not change the cluster.
\<close>

theorem getSnapshotList_spec:
  assumes env: "env_documented view env"
    and run: "getSnapshotList env ds w = (Ret (Inr items), w')"
  shows "set items = ownSnapshots ds (view w) \<and> distinct (map objkey items) \<and>
    sorted_wrt (\<lambda>x y. snapTime x \<le> snapTime y) items \<and> view w' = view w"
  using snapshot_list_facts [OF assms] by simp

definition sampleSnap :: "int64 \<Rightarrow> volumeSnapshot" where
  "sampleSnap t = stamp t (newVolumeSnapshot sampleDS t)"

theorem getSnapshotList_spec_witness:
  "getSnapshotList memEnv sampleDS (emptyMem\<lparr>mSnaps := [sampleSnap 900, sampleSnap 300]\<rparr>) =
     (Ret (Inr [sampleSnap 300, sampleSnap 900]), emptyMem\<lparr>mSnaps := [sampleSnap 900, sampleSnap 300]\<rparr>) \<and>
   ownSnapshots sampleDS (memView (emptyMem\<lparr>mSnaps := [sampleSnap 900, sampleSnap 300]\<rparr>)) =
     {sampleSnap 300, sampleSnap 900}"
proof -
  have keys: "objkey (sampleSnap 900) \<noteq> objkey (sampleSnap 300)"
    by (simp add: sampleSnap_def objkey_def newVolumeSnapshot_def zeroMeta_def Let_def stamp_def)
  have match: "labelsMatch (createLabels ''idrepo'' ''DirectoryService'' None) (sampleSnap t)"
    "fst (objkey (sampleSnap t)) = ''prod''" "created (sampleSnap t)" "snapTime (sampleSnap t) = sint t" for t
    by (simp_all add: sampleSnap_def labelsMatch_def stamp_def newVolumeSnapshot_def zeroMeta_def Let_def
        sample_defs objkey_def created_def isZero_def snapTime_def unixOf_def)
  have run: "getSnapshotList memEnv sampleDS (emptyMem\<lparr>mSnaps := [sampleSnap 900, sampleSnap 300]\<rparr>) =
     (Ret (Inr [sampleSnap 300, sampleSnap 900]), emptyMem\<lparr>mSnaps := [sampleSnap 900, sampleSnap 300]\<rparr>)"
    using keys by (simp add: getSnapshotList_def bindM_def callM_def ret_def mem_defs Let_def sampleDS_def
        match sortBy_def dropKey_def)
  from getSnapshotList_spec [OF memEnv_documented run] run show ?thesis by auto
qed

section \<open>Pruning\<close>

text \<open>
  \<open>m\<close> is what a deletion of the stored snapshot \<open>x\<close> leaves under its key: nothing, or \<open>x\<close> itself
  when the request fails or a finalizer holds the object back.
\<close>

definition deleteLeaves :: "('w \<Rightarrow> store) \<Rightarrow> 'w env \<Rightarrow> volumeSnapshot \<Rightarrow> volumeSnapshot option \<Rightarrow> bool" where
  "deleteLeaves view env x m \<longleftrightarrow>
     (\<exists>u e v. snapshots (view u) (objkey x) = Some x \<and> kDelete (snapClient env) x u = (e, v) \<and>
        m = snapshots (view v) (objkey x))"

lemma pruneOne_returns: "\<exists>w'. pruneOne env s w = (Ret (), w')"
  by (auto simp: pruneOne_def bindM_def callM_def split: prod.splits)

lemma pruneSnapshots_take:
  assumes "0 \<le> sint retained"
  shows "pruneSnapshots env retained items = forAll (take (length items - nat (sint retained)) items) (pruneOne env)"
proof -
  let ?n = "length items - nat (sint retained)"
  have n: "nat (int (length items) - sint retained) = ?n" using assms by simp
  have "take ?n items = map ((!) items) [0..<?n]"
    by (rule nth_equalityI) simp_all
  then have "forAll (take ?n items) (pruneOne env) = forAll [0..<?n] (\<lambda>i. pruneOne env (items ! i))"
    by (simp add: forAll_map)
  also have "\<dots> = forAll [0..<?n] (\<lambda>i. if i < length items then pruneOne env (items ! i) else panic IndexOutOfRange)"
    by (rule forAll_cong) auto
  finally show ?thesis
    using assms n by (auto simp: pruneSnapshots_def Let_def)
qed

lemma pruneSnapshots_negative:
  assumes "sint retained < 0"
  shows "\<exists>w'. pruneSnapshots env retained items w = (Panic IndexOutOfRange, w')"
proof -
  let ?n = "nat (int (length items) - sint retained)"
  let ?b = "\<lambda>i. if i < length items then pruneOne env (items ! i) else panic IndexOutOfRange"
  have n: "length items < ?n" using assms by simp
  then have "[0..<?n] = [0..<length items] @ length items # [Suc (length items)..<?n]"
    by (metis le_add_same_cancel1 less_imp_le upt_add_eq_append upt_conv_Cons zero_le nat_le_iff_add plus_nat.add_0)
  moreover obtain w1 where "forAll [0..<length items] ?b w = (Ret (), w1)"
    using forAll_returns [of "[0..<length items]" ?b w] pruneOne_returns [of env] by auto
  ultimately have "forAll [0..<?n] ?b w = (Panic IndexOutOfRange, w1)"
    by (simp add: forAll_append bindM_def panic_def)
  with n show ?thesis by (auto simp: pruneSnapshots_def Let_def)
qed

lemma pruneOne_effect:
  assumes env: "env_documented view env" and run: "pruneOne env x w = (r, w')"
    and stored: "snapshots (view w) (objkey x) = Some x"
  shows "k \<noteq> objkey x \<Longrightarrow> snapshots (view w') k = snapshots (view w) k"
    and "snapshots (view w') (objkey x) \<in> {None, Some x}"
    and "deleteLeaves view env x (snapshots (view w') (objkey x))"
proof -
  obtain e w1 where d: "kDelete (snapClient env) x w = (e, w1)" by (cases "kDelete (snapClient env) x w")
  with run have ev: "callM (Event env ''Purged Snapshot'' (Name (ObjectMeta x))) w1 = (r, w')"
    by (simp add: pruneOne_def bindM_def callM_def)
  from presD [OF env_runtime_stays(4) [OF env, of "{}"] ev] have v: "view w' = view w1"
    by (simp add: stays_empty)
  have "view w1 = view w \<or> view w1 = (view w)\<lparr>snapshots := (snapshots (view w))(objkey x := None)\<rparr>"
    using env_clients(6) [OF env] d unfolding client_documented_def delete_documented_def by blast
  with v stored show "k \<noteq> objkey x \<Longrightarrow> snapshots (view w') k = snapshots (view w) k"
    "snapshots (view w') (objkey x) \<in> {None, Some x}" by auto
  show "deleteLeaves view env x (snapshots (view w') (objkey x))"
    unfolding deleteLeaves_def v using d stored by blast
qed

text \<open>A round of deletions: what is not asked for stays, the rest is left as its own deletion left it.\<close>

lemma prune_effect:
  assumes env: "env_documented view env"
  shows "forAll xs (pruneOne env) w = (r, w') \<Longrightarrow> distinct (map objkey xs) \<Longrightarrow>
    \<forall>x \<in> set xs. snapshots (view w) (objkey x) = Some x \<Longrightarrow>
    (\<forall>k. k \<notin> objkey ` set xs \<longrightarrow> snapshots (view w') k = snapshots (view w) k) \<and>
    (\<forall>x \<in> set xs. snapshots (view w') (objkey x) \<in> {None, Some x} \<and>
       deleteLeaves view env x (snapshots (view w') (objkey x)))"
proof (induction xs arbitrary: w)
  case Nil
  then show ?case by (simp add: ret_def)
next
  case (Cons x xs)
  obtain w1 where x: "pruneOne env x w = (Ret (), w1)" using pruneOne_returns [of env x w] by blast
  with Cons.prems(1) have rest: "forAll xs (pruneOne env) w1 = (r, w')" by (simp add: bindM_def)
  from Cons.prems(3) have "snapshots (view w) (objkey x) = Some x" by simp
  note one = pruneOne_effect [OF env x this]
  from Cons.prems(2) have new: "objkey x \<notin> objkey ` set xs" and d: "distinct (map objkey xs)" by simp_all
  have stored: "\<forall>y \<in> set xs. snapshots (view w1) (objkey y) = Some y"
  proof
    fix y assume "y \<in> set xs"
    with new have "objkey y \<noteq> objkey x" by (metis imageI)
    with one(1) Cons.prems(3) \<open>y \<in> set xs\<close> show "snapshots (view w1) (objkey y) = Some y" by simp
  qed
  note IH = Cons.IH [OF rest d stored]
  with new have "snapshots (view w') (objkey x) = snapshots (view w1) (objkey x)" by blast
  with IH one show ?case by simp
qed

definition snapshotDue :: "'w env \<Rightarrow> directoryService \<Rightarrow> 'w \<Rightarrow> bool" where
  "snapshotDue env ds w \<longleftrightarrow> snapEnabled (Snapshots (Spec ds)) \<and>
     LastSnapshotTimeStamp (SnapshotStatus (Status ds)) \<noteq> 0 \<and>
     sint (snapshotDeadline ds) \<le> sint (fst (Now env w))"

lemma prune_retention:
  assumes env: "env_documented view env"
    and list: "set items = ownSnapshots ds (view w)" "distinct (map objkey items)"
      "sorted_wrt (\<lambda>x y. snapTime x \<le> snapTime y) items"
    and run: "pruneSnapshots env retained items w = (Ret u, w')"
  obtains kept surplus where "ownSnapshots ds (view w) = kept \<union> surplus" "kept \<inter> surplus = {}"
    "card kept = min (length items) (nat (sint retained))"
    "\<forall>x \<in> surplus. \<forall>y \<in> kept. snapTime x \<le> snapTime y"
    "\<forall>k. k \<notin> objkey ` surplus \<longrightarrow> snapshots (view w') k = snapshots (view w) k"
    "\<forall>x \<in> surplus. snapshots (view w') (objkey x) \<in> {None, Some x} \<and>
       deleteLeaves view env x (snapshots (view w') (objkey x))"
proof -
  let ?n = "length items - nat (sint retained)"
  have n: "0 \<le> sint retained" using pruneSnapshots_negative [of retained env items w] run by fastforce
  from run have run': "forAll (take ?n items) (pruneOne env) w = (Ret u, w')"
    by (simp add: pruneSnapshots_take [OF n])
  have items: "take ?n items @ drop ?n items = items" by simp
  have d: "distinct (take ?n items @ drop ?n items)" using list(2) by (simp add: distinct_map)
  have "distinct (map objkey (take ?n items))" using list(2) by (simp add: take_map [symmetric])
  moreover have "\<forall>x \<in> set (take ?n items). snapshots (view w) (objkey x) = Some x"
    using list(1) by (auto dest: in_set_takeD simp: ownSnapshots_def)
  ultimately have pr: "(\<forall>k. k \<notin> objkey ` set (take ?n items) \<longrightarrow> snapshots (view w') k = snapshots (view w) k) \<and>
    (\<forall>x \<in> set (take ?n items). snapshots (view w') (objkey x) \<in> {None, Some x} \<and>
       deleteLeaves view env x (snapshots (view w') (objkey x)))"
    by (rule prune_effect [OF env run'])
  show thesis
  proof (rule that [of "set (drop ?n items)" "set (take ?n items)"])
    show "ownSnapshots ds (view w) = set (drop ?n items) \<union> set (take ?n items)"
      unfolding list(1) [symmetric] by (metis items set_append Un_commute)
    show "set (drop ?n items) \<inter> set (take ?n items) = {}" using d by (simp only: distinct_append) blast
    show "card (set (drop ?n items)) = min (length items) (nat (sint retained))"
      using d by (simp only: distinct_append) (simp add: distinct_card)
    show "\<forall>x \<in> set (take ?n items). \<forall>y \<in> set (drop ?n items). snapTime x \<le> snapTime y"
      using list(3) by (metis items sorted_wrt_append)
  qed (use pr in blast)+
qed

section \<open>A due snapshot\<close>

lemma snapshotMutate_quiet: "pres (stays K view) (snapshotMutate s y m)"
  by (simp add: snapshotMutate_def frame.pres_ret)

lemma statusUpdateDS_stays:
  "env_documented view env \<Longrightarrow> (KDs, objkey ds) \<in> K \<Longrightarrow> pres (stays K view) (statusUpdateDS env ds)"
  unfolding statusUpdateDS_def
  by (rule frame.pres_bindM) (auto intro: dsK.statusUpdate_stays env_clients frame.pres_ret split: sum.splits)

lemma statusUpdateDS_returns: "\<exists>x w'. statusUpdateDS env ds w = (Ret x, w')"
proof -
  obtain r w1 where "kStatusUpdate (dsClient env) ds w = (r, w1)" by (cases "kStatusUpdate (dsClient env) ds w")
  then show ?thesis by (cases r) (simp_all add: statusUpdateDS_def bindM_def callM_def ret_def)
qed

lemma statusUpdateDS_Ret:
  assumes env: "env_documented view env" and run: "statusUpdateDS env ds w = (Ret (e, ds'), w')"
  shows "objkey ds' = objkey ds \<and> dsKind ds' = dsKind ds \<and> Status ds' = Status ds"
proof (cases "kStatusUpdate (dsClient env) ds w")
  case (Pair r w1)
  show ?thesis
  proof (cases r)
    case (Inr y)
    note dsK.statusUpdate_Inr [OF env_clients(8) [OF env] Pair [unfolded Inr]]
    with run Pair Inr show ?thesis by (simp add: statusUpdateDS_def bindM_def callM_def ret_def dsAccS_def)
  qed (use run Pair in \<open>simp add: statusUpdateDS_def bindM_def callM_def ret_def\<close>)
qed

text \<open>Which snapshots are a directory's own depends on its name, namespace and kind only.\<close>

lemma ownSnapshots_cong: "objkey a = objkey b \<Longrightarrow> dsKind a = dsKind b \<Longrightarrow> ownSnapshots a = ownSnapshots b"
  by (simp add: ownSnapshots_def objkey_def fun_eq_iff)

lemma objkey_setLastSnapshot [simp]: "objkey (setLastSnapshot ds now) = objkey ds"
  by (simp add: setLastSnapshot_def objkey_def)

text \<open>A stored snapshot has its own key, so one that is not in the surplus keeps its place.\<close>

lemma ownSnapshots_kept:
  assumes split: "ownSnapshots ds s = kept \<union> surplus" "kept \<inter> surplus = {}"
    and rest: "\<forall>k. k \<notin> objkey ` surplus \<longrightarrow> snapshots s' k = snapshots s k"
  shows "kept \<subseteq> ownSnapshots ds s'"
proof
  fix x assume x: "x \<in> kept"
  then have own: "x \<in> ownSnapshots ds s" using split(1) by simp
  have "y = x" if "y \<in> surplus" "objkey y = objkey x" for y
  proof -
    from that(1) split(1) have "y \<in> ownSnapshots ds s" by simp
    with own have "snapshots s (objkey y) = Some y" "snapshots s (objkey x) = Some x" by (simp_all add: ownSnapshots_def)
    then show ?thesis unfolding that(2) by simp
  qed
  with x split(2) have "objkey x \<notin> objkey ` surplus" by fastforce
  with rest have "snapshots s' (objkey x) = snapshots s (objkey x)" by blast
  with own show "x \<in> ownSnapshots ds s'" by (simp add: ownSnapshots_def)
qed

text \<open>The steps of a reconciliation that succeeds while a snapshot is due.\<close>

lemma reconcileSnapshots_dueE:
  assumes "snapshotDue env ds w" and "reconcileSnapshots env ds w = (Ret (None, ds'), w')"
  obtains now w0 err snap u w1 w2 w3 items w4 where "Now env w = (now, w0)"
    "kCreateOrUpdate (snapClient env) (newSnapshot (dsNamespace ds) (dsName ds @ ''-'' @ formatInt (sint now))) ()
       (snapshotMutate (newVolumeSnapshot ds now)) w0 = (Ret (err, snap, u), w1)"
    "callM (Event env ''Created Snapshot'' (Name (ObjectMeta snap))) w1 = (Ret (), w2)"
    "statusUpdateDS env (setLastSnapshot ds now) w2 = (Ret (None, ds'), w3)"
    "getSnapshotList env ds' w3 = (Ret (Inr items), w4)"
    "pruneSnapshots env (SnapshotsRetained (Snapshots (Spec ds'))) items w4 = (Ret (), w')"
proof -
  obtain now w0 where now: "Now env w = (now, w0)" by (cases "Now env w")
  with assms have due: "snapEnabled (Snapshots (Spec ds))"
    "LastSnapshotTimeStamp (SnapshotStatus (Status ds)) \<noteq> 0" "\<not> sint now < sint (snapshotDeadline ds)"
    by (auto simp: snapshotDue_def)
  have meta: "Namespace (ObjectMeta (newVolumeSnapshot ds now)) = dsNamespace ds"
    "Name (ObjectMeta (newVolumeSnapshot ds now)) = dsName ds @ ''-'' @ formatInt (sint now)"
    by (simp_all add: newVolumeSnapshot_def Let_def zeroMeta_def)
  show thesis
    using assms(2) due now meta
    by (auto simp: reconcileSnapshots_def Let_def run_simps intro!: that)
qed

lemma reconcileSnapshots_due_grows:
  assumes env: "env_documented view env"
    and now: "Now env w = (now, w0)"
    and cou: "kCreateOrUpdate (snapClient env) x () (snapshotMutate s) w0 = (r1, w1)"
    and ev: "callM (Event env a b) w1 = (r2, w2)"
    and st: "statusUpdateDS env d w2 = (r3, w3)"
  shows "snapshots (view w) \<subseteq>\<^sub>m snapshots (view w3)"
proof -
  have "callM (Now env) w = (Ret now, w0)" using now by (simp add: callM_def)
  from presD [OF env_runtime_stays(1) [OF env, of "{}"] this] have v0: "view w0 = view w"
    by (simp add: stays_empty)
  from snapCallback.cou_grows [OF env_clients(6) [OF env] snapshotMutate_quiet cou]
  have "snapshots (view w0) \<subseteq>\<^sub>m snapshots (view w1)" .
  moreover from presD [OF env_runtime_stays(4) [OF env, of "{}"] ev] have "view w2 = view w1"
    by (simp add: stays_empty)
  moreover from presD [OF statusUpdateDS_stays [OF env, of d "{(KDs, objkey d)}"] st]
  have "snapshots (view w3) = snapshots (view w2)"
    by (auto simp: stays_def same_except_def agree_def)
  ultimately show ?thesis using v0 by simp
qed

text \<open>
  Property C7. Retention. When a snapshot is due and the reconciliation succeeds, the directory's
  snapshots are split in two: those to keep, exactly as many as it may retain (or all of them, if
  there are fewer), and the surplus. Nothing in the surplus is newer than a snapshot kept. Each
  snapshot of the surplus is asked to be deleted: it is left in the cluster the way its deletion
  left it, so it is gone unless the request failed or the deletion was held back (the operator
  ignores the error). Those kept are still there, and no snapshot outside the surplus is touched.
  Here \<open>mid\<close> is the store just before pruning, which has every snapshot from before. The
  retention is the one in the server's copy of the resource, \<open>ds'\<close>; a negative one never gets
  here, since it makes the step panic.
\<close>

theorem snapshot_retention:
  assumes env: "env_documented view env" and due: "snapshotDue env ds w"
    and run: "reconcileSnapshots env ds w = (Ret (None, ds'), w')"
  shows "\<exists>mid kept surplus. snapshots (view w) \<subseteq>\<^sub>m snapshots mid \<and>
    ownSnapshots ds mid = kept \<union> surplus \<and> kept \<inter> surplus = {} \<and>
    card kept = min (card (ownSnapshots ds mid)) (nat (sint (SnapshotsRetained (Snapshots (Spec ds'))))) \<and>
    (\<forall>x \<in> surplus. \<forall>y \<in> kept. snapTime x \<le> snapTime y) \<and>
    kept \<subseteq> ownSnapshots ds (view w') \<and>
    (\<forall>k. k \<notin> objkey ` surplus \<longrightarrow> snapshots (view w') k = snapshots mid k) \<and>
    (\<forall>x \<in> surplus. snapshots (view w') (objkey x) \<in> {None, Some x} \<and>
       deleteLeaves view env x (snapshots (view w') (objkey x)))"
proof (rule reconcileSnapshots_dueE [OF due run])
  fix now w0 err snap u w1 w2 w3 items w4
  assume steps: "Now env w = (now, w0)"
    "kCreateOrUpdate (snapClient env) (newSnapshot (dsNamespace ds) (dsName ds @ ''-'' @ formatInt (sint now))) ()
       (snapshotMutate (newVolumeSnapshot ds now)) w0 = (Ret (err, snap, u), w1)"
    "callM (Event env ''Created Snapshot'' (Name (ObjectMeta snap))) w1 = (Ret (), w2)"
    "statusUpdateDS env (setLastSnapshot ds now) w2 = (Ret (None, ds'), w3)"
    and list: "getSnapshotList env ds' w3 = (Ret (Inr items), w4)"
    and prune: "pruneSnapshots env (SnapshotsRetained (Snapshots (Spec ds'))) items w4 = (Ret (), w')"
  have l: "set items = ownSnapshots ds' (view w3)" "distinct (map objkey items)"
    "sorted_wrt (\<lambda>x y. snapTime x \<le> snapTime y) items" and v4: "view w4 = view w3"
    using snapshot_list_facts [OF env list] by simp_all
  have len: "length items = card (ownSnapshots ds' (view w3))"
    using l(1,2) by (metis distinct_card distinct_map)
  have own: "ownSnapshots ds' = ownSnapshots ds"
    using statusUpdateDS_Ret [OF env steps(4)] by (intro ownSnapshots_cong) (simp_all add: setLastSnapshot_def objkey_def)
  from prune_retention [OF env l(1) [folded v4] l(2,3) prune, unfolded v4 len own] obtain kept surplus
    where split: "ownSnapshots ds (view w3) = kept \<union> surplus" "kept \<inter> surplus = {}"
      "card kept = min (card (ownSnapshots ds (view w3))) (nat (sint (SnapshotsRetained (Snapshots (Spec ds')))))"
      "\<forall>x \<in> surplus. \<forall>y \<in> kept. snapTime x \<le> snapTime y"
      and rest: "\<forall>k. k \<notin> objkey ` surplus \<longrightarrow> snapshots (view w') k = snapshots (view w3) k"
      and del: "\<forall>x \<in> surplus. snapshots (view w') (objkey x) \<in> {None, Some x} \<and>
         deleteLeaves view env x (snapshots (view w') (objkey x))" .
  have "kept \<subseteq> ownSnapshots ds (view w')" by (rule ownSnapshots_kept [OF split(1,2) rest])
  with reconcileSnapshots_due_grows [OF env steps] split rest del show ?thesis
    by (intro exI [of _ "view w3"] exI [of _ kept] exI [of _ surplus] conjI)
qed

lemma sampleSnap_facts:
  "objkey (sampleSnap t) = (''prod'', ''idrepo-'' @ formatInt (sint t))"
  "created (sampleSnap t)" "snapTime (sampleSnap t) = sint t"
  "labelsMatch (createLabels ''idrepo'' ''DirectoryService'' None) (sampleSnap t)"
  by (simp_all add: sampleSnap_def labelsMatch_def stamp_def newVolumeSnapshot_def zeroMeta_def Let_def
      sample_defs objkey_def created_def isZero_def snapTime_def unixOf_def)

definition sampleDueWorld :: memw where
  "sampleDueWorld = emptyMem\<lparr>mSnaps := [sampleSnap 300], mDss := [sampleDS], mClock := 900\<rparr>"

lemma sampleDue: "snapshotDue memEnv sampleDS sampleDueWorld"
  by (simp add: snapshotDue_def mem_defs snapshotDeadline_def sample_defs sampleDueWorld_def)

text \<open>A run at time 900 for a sample directory with retention \<open>n\<close>.\<close>

definition sampleRetain :: "int32 \<Rightarrow> directoryService" where
  "sampleRetain n = sampleDS\<lparr>Spec := sampleSpec\<lparr>Snapshots := (Snapshots sampleSpec)\<lparr>SnapshotsRetained := n\<rparr>\<rparr>\<rparr>"

definition sampleRetainWorld :: "int32 \<Rightarrow> memw" where
  "sampleRetainWorld n = sampleDueWorld\<lparr>mDss := [sampleRetain n]\<rparr>"

lemma sampleRetain_one: "sampleRetain 1 = sampleDS" "sampleRetainWorld 1 = sampleDueWorld"
  by (simp_all add: sampleRetain_def sampleRetainWorld_def sampleDueWorld_def sample_defs)

lemma sampleRetain_steps:
  defines "ds \<equiv> \<lambda>n. setLastSnapshot (sampleRetain n) 900"
    and "w1 \<equiv> \<lambda>n. (sampleRetainWorld n)\<lparr>mSnaps := [sampleSnap 900, sampleSnap 300]\<rparr>"
    and "w2 \<equiv> \<lambda>n. (sampleRetainWorld n)\<lparr>mSnaps := [sampleSnap 900, sampleSnap 300],
      mEvents := [(''Created Snapshot'', Name (ObjectMeta (sampleSnap 900)))]\<rparr>"
    and "w3 \<equiv> \<lambda>n. (sampleRetainWorld n)\<lparr>mSnaps := [sampleSnap 900, sampleSnap 300],
      mEvents := [(''Created Snapshot'', Name (ObjectMeta (sampleSnap 900)))],
      mDss := [setLastSnapshot (sampleRetain n) 900]\<rparr>"
  shows "snapshotDue memEnv (sampleRetain n) (sampleRetainWorld n)"
    and "Now memEnv (sampleRetainWorld n) = (900, sampleRetainWorld n)"
    and "kCreateOrUpdate (snapClient memEnv) (newSnapshot (dsNamespace (sampleRetain n))
        (dsName (sampleRetain n) @ ''-'' @ formatInt (sint (900 :: int64)))) ()
      (snapshotMutate (newVolumeSnapshot (sampleRetain n) 900)) (sampleRetainWorld n) =
        (Ret (None, sampleSnap 900, ()), w1 n)"
    and "Event memEnv ''Created Snapshot'' (Name (ObjectMeta (sampleSnap 900))) (w1 n) = ((), w2 n)"
    and "statusUpdateDS memEnv (ds n) (w2 n) = (Ret (None, ds n), w3 n)"
    and "getSnapshotList memEnv (ds n) (w3 n) = (Ret (Inr [sampleSnap 300, sampleSnap 900]), w3 n)"
    and "\<exists>w'. pruneSnapshots memEnv 1 [sampleSnap 300, sampleSnap 900] (w3 n) = (Ret (), w') \<and>
      mSnaps w' = [sampleSnap 900]"
proof -
  let ?s = "newVolumeSnapshot (sampleRetain n) 900"
  let ?x = "newSnapshot ''prod'' (''idrepo-'' @ formatInt 900) :: volumeSnapshot"
  have meta: "dsNamespace (sampleRetain n) = ''prod''" "dsName (sampleRetain n) = ''idrepo''" "?s = newVolumeSnapshot sampleDS 900"
    by (simp_all add: sampleRetain_def newVolumeSnapshot_def Let_def sample_defs)
  have world: "mClock (sampleRetainWorld n) = 900" "mSnaps (sampleRetainWorld n) = [sampleSnap 300]"
    "mEvents (sampleRetainWorld n) = []" "mDss (sampleRetainWorld n) = [sampleRetain n]"
    by (simp_all add: sampleRetainWorld_def sampleDueWorld_def emptyMem_def)
  show "snapshotDue memEnv (sampleRetain n) (sampleRetainWorld n)"
    by (simp add: snapshotDue_def snapshotDeadline_def sampleRetain_def sample_defs memEnv_def world)
  show "Now memEnv (sampleRetainWorld n) = (900, sampleRetainWorld n)"
    by (simp add: memEnv_def world)
  have none: "lookupObj (mSnaps (sampleRetainWorld n)) (objkey ?x) = None"
    by (simp add: world lookupObj_Cons sampleSnap_facts)
  have f: "snapshotMutate ?s ?x () (sampleRetainWorld n) = (Ret (None, ?s, ()), sampleRetainWorld n)"
    by (simp add: snapshotMutate_def isZero_def ret_def)
  have key: "objkey ?s = objkey ?x" by (simp add: meta objkey_def newVolumeSnapshot_def Let_def sampleDS_def zeroMeta_def)
  have "kCreateOrUpdate (snapClient memEnv) ?x () (snapshotMutate ?s) (sampleRetainWorld n) = (Ret (None, sampleSnap 900, ()), w1 n)"
    unfolding memEnv_def env.simps w1_def
    by (subst mem_cou_fresh [where get = mSnaps and f = "snapshotMutate ?s" and x = ?x, OF none f key none])
      (simp add: world upsert_def dropKey_def sampleSnap_facts meta flip: sampleSnap_def)
  then show "kCreateOrUpdate (snapClient memEnv) (newSnapshot (dsNamespace (sampleRetain n))
        (dsName (sampleRetain n) @ ''-'' @ formatInt (sint (900 :: int64)))) ()
      (snapshotMutate ?s) (sampleRetainWorld n) = (Ret (None, sampleSnap 900, ()), w1 n)"
    by (simp add: meta)
  show "Event memEnv ''Created Snapshot'' (Name (ObjectMeta (sampleSnap 900))) (w1 n) = ((), w2 n)"
    by (simp add: memEnv_def w1_def w2_def world)
  show "statusUpdateDS memEnv (ds n) (w2 n) = (Ret (None, ds n), w3 n)"
    by (simp add: statusUpdateDS_def callM_def bindM_def ret_def mem_defs w2_def w3_def ds_def world lookupObj_Cons
        sampleRetain_def sampleDS_def setLastSnapshot_def objkey_def created_def isZero_def upsert_def dropKey_def Let_def)
  show "getSnapshotList memEnv (ds n) (w3 n) = (Ret (Inr [sampleSnap 300, sampleSnap 900]), w3 n)"
    by (simp add: getSnapshotList_def bindM_def callM_def ret_def mem_defs Let_def sampleDS_def setLastSnapshot_def
        ds_def w3_def sampleRetain_def sampleSnap_facts sortBy_def dropKey_def)
  show "\<exists>w'. pruneSnapshots memEnv 1 [sampleSnap 300, sampleSnap 900] (w3 n) = (Ret (), w') \<and> mSnaps w' = [sampleSnap 900]"
    by (simp add: pruneSnapshots_take pruneOne_def bindM_def callM_def ret_def mem_defs dropKey_def sampleSnap_facts w3_def)
qed

lemma sampleDue_run:
  "\<exists>w'. reconcileSnapshots memEnv sampleDS sampleDueWorld = (Ret (None, setLastSnapshot sampleDS 900), w') \<and>
     mSnaps w' = [sampleSnap 900]"
proof -
  note steps = sampleRetain_steps [of 1, unfolded sampleRetain_one]
  have meta: "Namespace (ObjectMeta (newVolumeSnapshot sampleDS 900)) = dsNamespace sampleDS"
    "Name (ObjectMeta (newVolumeSnapshot sampleDS 900)) = dsName sampleDS @ ''-'' @ formatInt (sint (900 :: int64))"
    by (simp_all add: newVolumeSnapshot_def Let_def zeroMeta_def)
  have ret: "SnapshotsRetained (Snapshots (Spec (setLastSnapshot sampleDS 900))) = 1"
    by (simp add: setLastSnapshot_def sample_defs)
  obtain w' where "pruneSnapshots memEnv 1 [sampleSnap 300, sampleSnap 900] (sampleDueWorld\<lparr>mSnaps := [sampleSnap 900, sampleSnap 300],
      mEvents := [(''Created Snapshot'', Name (ObjectMeta (sampleSnap 900)))], mDss := [setLastSnapshot sampleDS 900]\<rparr>) = (Ret (), w')"
    and "mSnaps w' = [sampleSnap 900]"
    using steps(7) by blast
  then have "reconcileSnapshots memEnv sampleDS sampleDueWorld = (Ret (None, setLastSnapshot sampleDS 900), w') \<and>
      mSnaps w' = [sampleSnap 900]"
    using steps(1-6) meta ret
    by (simp add: reconcileSnapshots_def bindM_def callM_def ret_def Let_def snapshotDue_def)
  then show ?thesis ..
qed

lemma deleteLeaves_memEnv: "deleteLeaves memView memEnv x m \<Longrightarrow> m = None"
  by (auto simp: deleteLeaves_def mem_defs memView_def lookupObj_dropKey)

theorem snapshot_retention_witness:
  "\<exists>w' mid kept surplus. reconcileSnapshots memEnv sampleDS sampleDueWorld = (Ret (None, setLastSnapshot sampleDS 900), w') \<and>
     snapshots (memView sampleDueWorld) \<subseteq>\<^sub>m snapshots mid \<and> ownSnapshots sampleDS mid = kept \<union> surplus \<and>
     card kept = min (card (ownSnapshots sampleDS mid)) 1 \<and> kept \<subseteq> ownSnapshots sampleDS (memView w') \<and>
     (\<forall>x \<in> surplus. snapshots (memView w') (objkey x) = None)"
proof -
  obtain w' where run: "reconcileSnapshots memEnv sampleDS sampleDueWorld = (Ret (None, setLastSnapshot sampleDS 900), w')"
    using sampleDue_run by blast
  have one: "SnapshotsRetained (Snapshots (Spec (setLastSnapshot sampleDS 900))) = 1"
    by (simp add: setLastSnapshot_def sample_defs)
  from snapshot_retention [OF memEnv_documented sampleDue run, unfolded one] obtain mid kept surplus
    where mid: "snapshots (memView sampleDueWorld) \<subseteq>\<^sub>m snapshots mid" "ownSnapshots sampleDS mid = kept \<union> surplus"
      "card kept = min (card (ownSnapshots sampleDS mid)) 1" "kept \<subseteq> ownSnapshots sampleDS (memView w')"
      and del: "\<forall>x \<in> surplus. deleteLeaves memView memEnv x (snapshots (memView w') (objkey x))" by auto
  from del have "\<forall>x \<in> surplus. snapshots (memView w') (objkey x) = None" using deleteLeaves_memEnv by blast
  with run mid show ?thesis by blast
qed

section \<open>When snapshots are taken\<close>

lemma reconcileSnapshots_not_due:
  assumes env: "env_documented view env" and due: "\<not> snapshotDue env ds w"
    and run: "reconcileSnapshots env ds w = (r, w')"
  shows "stays {(KDs, objkey ds)} view w w' \<and> (\<exists>x. r = Ret x)"
proof -
  obtain now w0 where now: "Now env w = (now, w0)" by (cases "Now env w")
  then have now': "callM (Now env) w = (Ret now, w0)" by (simp add: callM_def)
  have w0: "stays {(KDs, objkey ds)} view w w0" by (rule presD [OF env_runtime_stays(1) [OF env] now'])
  obtain x w1 where st: "statusUpdateDS env (setLastSnapshot ds now) w0 = (Ret x, w1)"
    using statusUpdateDS_returns by metis
  have w1: "stays {(KDs, objkey ds)} view w0 w1"
    by (rule presD [OF statusUpdateDS_stays [OF env] st]) simp
  show ?thesis
    using run due now now' st frame.R_trans [OF w0 w1] w0 frame.R_refl [of "{(KDs, objkey ds)}" view w]
    by (auto simp: reconcileSnapshots_def snapshotDue_def bindM_def ret_def split: if_splits)
qed

lemma pruneSnapshots_stays:
  assumes env: "env_documented view env" and K: "\<And>x. x \<in> set items \<Longrightarrow> (KSnap, objkey x) \<in> K"
  shows "pres (stays K view) (pruneSnapshots env n items)"
proof -
  have "pres (stays K view) (pruneOne env x)" if "x \<in> set items" for x
    unfolding pruneOne_def
    by (rule frame.pres_bindM [OF snapK.delete_stays [OF env_clients(6) [OF env]]])
      (use K [OF that] env_runtime_stays(4) [OF env] in auto)
  then show ?thesis
    unfolding pruneSnapshots_def Let_def by (auto intro!: frame.pres_forAll frame.pres_ret frame.pres_panic)
qed

text \<open>
  A successful step leaves the stored resource alone, or stores the status it was given together
  with the time, which it does on the first run and when a snapshot is due.
\<close>

lemma statusUpdateDS_stored:
  assumes env: "env_documented view env" and run: "statusUpdateDS env ds w = (Ret (None, ds'), w')"
  shows "directoryservices (view w') (objkey ds) = Some ds'"
proof -
  from run have "kStatusUpdate (dsClient env) ds w = (Inr ds', w')"
    by (auto simp: statusUpdateDS_def run_simps)
  from dsK.statusUpdate_Inr [OF env_clients(8) [OF env] this] show ?thesis by simp
qed

lemma reconcileSnapshots_stored:
  assumes env: "env_documented view env" and run: "reconcileSnapshots env ds w = (Ret (None, ds'), w')"
  shows "directoryservices (view w') (objkey ds) = directoryservices (view w) (objkey ds) \<or>
    snapEnabled (Snapshots (Spec ds)) \<and>
    (\<exists>now d. directoryservices (view w') (objkey ds) = Some d \<and> Status d = Status (setLastSnapshot ds now) \<and>
       (LastSnapshotTimeStamp (SnapshotStatus (Status ds)) = 0 \<or> sint (snapshotDeadline ds) \<le> sint now))"
proof (cases "snapshotDue env ds w")
  case True
  then show ?thesis
  proof (rule reconcileSnapshots_dueE [OF _ run])
    fix now w0 err snap u w1 w2 w3 items w4
    assume now: "Now env w = (now, w0)" and st: "statusUpdateDS env (setLastSnapshot ds now) w2 = (Ret (None, ds'), w3)"
      and list: "getSnapshotList env ds' w3 = (Ret (Inr items), w4)"
      and prune: "pruneSnapshots env (SnapshotsRetained (Snapshots (Spec ds'))) items w4 = (Ret (), w')"
    have "stays (range (Pair KSnap)) view w4 w'"
      by (rule presD [OF pruneSnapshots_stays [OF env] prune]) simp
    from dsK.stays_at [OF this, of "objkey ds"] getSnapshotList_view [OF env list] statusUpdateDS_stored [OF env st]
    have "directoryservices (view w') (objkey ds) = Some ds'" by auto
    moreover have "Status ds' = Status (setLastSnapshot ds now)" using statusUpdateDS_Ret [OF env st] by simp
    ultimately show ?thesis using True now by (auto simp: snapshotDue_def)
  qed
next
  case False
  obtain now w0 where now: "Now env w = (now, w0)" by (cases "Now env w")
  then have v0: "view w0 = view w"
    using presD [OF env_runtime_stays(1) [OF env, of "{}"], of w "Ret now" w0] by (simp add: callM_def stays_empty)
  consider "w' = w \<or> w' = w0" | "snapEnabled (Snapshots (Spec ds))" "LastSnapshotTimeStamp (SnapshotStatus (Status ds)) = 0"
      "statusUpdateDS env (setLastSnapshot ds now) w0 = (Ret (None, ds'), w')"
    using run False now by (auto simp: reconcileSnapshots_def snapshotDue_def run_simps split: if_splits)
  then show ?thesis
  proof cases
    case 2
    from statusUpdateDS_stored [OF env 2(3)] statusUpdateDS_Ret [OF env 2(3)] 2(1,2) show ?thesis by auto
  qed (use v0 in auto)
qed

text \<open>
  Reconciling snapshots touches snapshots of the directory's namespace and the directory's own
  status, nothing else.
\<close>

lemma reconcileSnapshots_key:
  assumes env: "env_documented view env" and run: "reconcileSnapshots env ds w = (Ret (e, ds'), w')"
  shows "objkey ds' = objkey ds \<and> dsKind ds' = dsKind ds"
proof -
  let ?P = "\<lambda>(e :: goerr option, ds'). objkey ds' = objkey ds \<and> dsKind ds' = dsKind ds"
  have st: "objkey ds1 = objkey ds \<and> dsKind ds1 = dsKind ds" if "statusUpdateDS env (setLastSnapshot ds now) u = (Ret (e1, ds1), u1)" for now u e1 ds1 u1
    using statusUpdateDS_Ret [OF env that] by (simp add: setLastSnapshot_def objkey_def)
  have key: "yields ?P (statusUpdateDS env (setLastSnapshot ds now))" for now
    unfolding yields_def using st by fastforce
  have "yields ?P (reconcileSnapshots env ds)"
    unfolding reconcileSnapshots_def Let_def
    by (auto intro!: yields_bindM key simp: yields_ret split: option.splits sum.splits) (simp_all add: st)
  from yieldsD [OF this run] show ?thesis by simp
qed

lemma reconcileSnapshots_stays:
  assumes env: "env_documented view env" and ds: "(KDs, objkey ds) \<in> K" and K: "\<And>n. (KSnap, dsNamespace ds, n) \<in> K"
  shows "pres (stays K view) (reconcileSnapshots env ds)"
proof -
  have prune: "pres (stays K view) (case r of Inl e \<Rightarrow> ret (Some e, ds1)
      | Inr items \<Rightarrow> bindM (pruneSnapshots env n items) (\<lambda>_. ret (None, ds1)))"
    if l: "getSnapshotList env ds1 w = (Ret r, w1)" and ds1: "objkey ds1 = objkey ds" for ds1 r w w1 n
  proof (cases r)
    case (Inr items)
    have "fst (objkey x) = dsNamespace ds" if "x \<in> set items" for x
      using that snapshot_list_facts(1) [OF env l [unfolded Inr]] ds1 by (auto simp: ownSnapshots_def objkey_def)
    then have "(KSnap, objkey x) \<in> K" if "x \<in> set items" for x
      using that K [of "snd (objkey x)"] by (metis prod.collapse)
    with Inr show ?thesis by (auto intro!: frame.pres_bindM frame.pres_ret pruneSnapshots_stays [OF env])
  qed (simp add: frame.pres_ret)
  have tail: "pres (stays K view) (bindM (statusUpdateDS env (setLastSnapshot ds now)) (\<lambda>(err, ds).
      case err of Some e \<Rightarrow> ret (Some e, ds)
      | None \<Rightarrow> bindM (getSnapshotList env ds) (\<lambda>r. case r of Inl e \<Rightarrow> ret (Some e, ds)
          | Inr items \<Rightarrow> bindM (pruneSnapshots env (SnapshotsRetained (Snapshots (Spec ds))) items) (\<lambda>_. ret (None, ds)))))" for now
    using ds
    by (auto intro!: frame.pres_bindM_reach [OF statusUpdateDS_stays [OF env]] frame.pres_ret
        frame.pres_bindM_reach [OF getSnapshotList_quiet [OF env]] prune dest: statusUpdateDS_Ret [OF env] split: option.splits)
  have snap: "(KSnap, objkey (newVolumeSnapshot ds now)) \<in> K" for now
    using K by (simp add: newVolumeSnapshot_def objkey_def Let_def zeroMeta_def)
  show ?thesis
    unfolding reconcileSnapshots_def Let_def
    using ds snap
    by (auto intro!: frame.pres_ret frame.pres_bindM env_runtime_stays [OF env] statusUpdateDS_stays [OF env]
        snapK.cou_stays [OF env_clients(6) [OF env]] snapshotMutate_quiet tail) (simp_all add: objkey_def)
qed

text \<open>The deadline as a number, as long as neither the 32-bit product nor the 64-bit sum wraps.\<close>

lemma sint_snapshotDeadline:
  assumes p: "- (2 ^ 31) \<le> 60 * sint (PeriodMinutes (Snapshots (Spec ds)))"
      "60 * sint (PeriodMinutes (Snapshots (Spec ds))) < 2 ^ 31"
    and s: "- (2 ^ 63) \<le> sint (LastSnapshotTimeStamp (SnapshotStatus (Status ds))) + 60 * sint (PeriodMinutes (Snapshots (Spec ds)))"
      "sint (LastSnapshotTimeStamp (SnapshotStatus (Status ds))) + 60 * sint (PeriodMinutes (Snapshots (Spec ds))) < 2 ^ 63"
  shows "sint (snapshotDeadline ds) =
    sint (LastSnapshotTimeStamp (SnapshotStatus (Status ds))) + 60 * sint (PeriodMinutes (Snapshots (Spec ds)))"
proof -
  let ?p = "PeriodMinutes (Snapshots (Spec ds))" and ?l = "LastSnapshotTimeStamp (SnapshotStatus (Status ds))"
  have "sint (?p * 60) = 60 * sint ?p"
    using p by (simp add: sint_word_ariths signed_take_bit_int_eq_self)
  then have "sint (scast (?p * 60) :: int64) = 60 * sint ?p"
    by (simp add: sint_up_scast is_up_def source_size_def target_size_def)
  with s show ?thesis
    by (simp add: snapshotDeadline_def sint_word_ariths signed_take_bit_int_eq_self)
qed

text \<open>
  Property C20. Snapshots are rate limited. If a reconciliation changes any snapshot in the
  cluster, then snapshots are enabled, an earlier reconciliation has set the time of the last
  one, and at least the configured period has passed since then. The premises on the period
  and the last time exclude wrap-around: a period below 35791395 minutes and a time stamp
  that is not within that distance of the end of the 64-bit range.
\<close>

theorem snapshot_rate_limit:
  assumes env: "env_documented view env"
    and run: "reconcileSnapshots env ds w = (r, w')"
    and changed: "snapshots (view w') \<noteq> snapshots (view w)"
    and period: "0 \<le> sint (PeriodMinutes (Snapshots (Spec ds)))"
      "sint (PeriodMinutes (Snapshots (Spec ds))) \<le> 35791394"
    and last: "0 \<le> sint (LastSnapshotTimeStamp (SnapshotStatus (Status ds)))"
      "sint (LastSnapshotTimeStamp (SnapshotStatus (Status ds))) < 2 ^ 63 - 2 ^ 31"
  shows "snapEnabled (Snapshots (Spec ds)) \<and> LastSnapshotTimeStamp (SnapshotStatus (Status ds)) \<noteq> 0 \<and>
    60 * sint (PeriodMinutes (Snapshots (Spec ds))) \<le>
      sint (fst (Now env w)) - sint (LastSnapshotTimeStamp (SnapshotStatus (Status ds)))"
proof -
  have due: "snapshotDue env ds w"
  proof (rule ccontr)
    assume "\<not> snapshotDue env ds w"
    with reconcileSnapshots_not_due [OF env _ run] have "stays {(KDs, objkey ds)} view w w'" by blast
    then have "snapshots (view w') = snapshots (view w)"
      by (auto simp: stays_def same_except_def agree_def)
    with changed show False ..
  qed
  have "sint (snapshotDeadline ds) = sint (LastSnapshotTimeStamp (SnapshotStatus (Status ds))) +
      60 * sint (PeriodMinutes (Snapshots (Spec ds)))"
    by (rule sint_snapshotDeadline) (use period last in simp_all)
  with due show ?thesis by (auto simp: snapshotDue_def)
qed

theorem snapshot_rate_limit_witness:
  "\<exists>r w'. reconcileSnapshots memEnv sampleDS sampleDueWorld = (r, w') \<and>
     snapshots (memView w') \<noteq> snapshots (memView sampleDueWorld) \<and>
     60 * sint (PeriodMinutes (Snapshots (Spec sampleDS))) \<le>
       sint (fst (Now memEnv sampleDueWorld)) - sint (LastSnapshotTimeStamp (SnapshotStatus (Status sampleDS)))"
proof -
  obtain w' where run: "reconcileSnapshots memEnv sampleDS sampleDueWorld = (Ret (None, setLastSnapshot sampleDS 900), w')"
    and new: "mSnaps w' = [sampleSnap 900]"
    using sampleDue_run by blast
  have "snapshots (memView w') (objkey (sampleSnap 900)) \<noteq> snapshots (memView sampleDueWorld) (objkey (sampleSnap 900))"
    by (simp add: memView_def new lookupObj_Cons sampleDueWorld_def sampleSnap_facts)
  then have changed: "snapshots (memView w') \<noteq> snapshots (memView sampleDueWorld)" by auto
  from snapshot_rate_limit [OF memEnv_documented run changed] run changed show ?thesis
    by (auto simp: sample_defs)
qed

text \<open>
  The period in seconds is a 32-bit product. For a period between 35791395 and 71582788 minutes
  it wraps to a negative number, and the deadline lies before the last snapshot.
\<close>

lemma period_overflow_deadline:
  assumes period: "35791395 \<le> sint (PeriodMinutes (Snapshots (Spec ds)))"
      "sint (PeriodMinutes (Snapshots (Spec ds))) \<le> 71582788"
    and last: "0 < sint (LastSnapshotTimeStamp (SnapshotStatus (Status ds)))"
  shows "sint (snapshotDeadline ds) < sint (LastSnapshotTimeStamp (SnapshotStatus (Status ds)))"
proof -
  let ?p = "PeriodMinutes (Snapshots (Spec ds))" and ?l = "LastSnapshotTimeStamp (SnapshotStatus (Status ds))"
  have wrap: "signed_take_bit 31 (k :: int) = k - 2 ^ 32" if "2 ^ 31 \<le> k" "k < 2 ^ 32" for k
  proof -
    have "(k + 2147483648) mod 4294967296 = (k + 2147483648 - 4294967296) mod 4294967296"
      by (rule minus_mod_self2 [symmetric])
    also have "\<dots> = k - 2147483648" using that by (simp add: mod_pos_pos_trivial)
    finally show ?thesis by (simp add: signed_take_bit_eq_take_bit_shift take_bit_eq_mod)
  qed
  have "sint (?p * 60) = sint ?p * 60 - 2 ^ 32"
    using period wrap [of "sint ?p * 60"] by (simp add: sint_word_ariths)
  then have p: "sint (scast (?p * 60) :: int64) = sint ?p * 60 - 2 ^ 32"
    by (simp add: sint_up_scast is_up_def source_size_def target_size_def)
  have "sint ?l < 2 ^ 63" using sint_lt [of ?l] by simp
  with p last period have "sint (snapshotDeadline ds) = sint ?l + (sint ?p * 60 - 2 ^ 32)"
    by (simp add: snapshotDeadline_def sint_word_ariths signed_take_bit_int_eq_self)
  with period show ?thesis by simp
qed

text \<open>
  Property C35. A negative retention count makes the operator panic: once a snapshot is due and
  the status update and listing succeed, pruning indexes past the end of the list.
\<close>

theorem negative_retention_panics:
  assumes due: "snapshotDue env ds w" and neg: "sint (SnapshotsRetained (Snapshots (Spec ds))) < 0"
    and now: "Now env w = (now, w0)"
    and cou: "kCreateOrUpdate (snapClient env) (newSnapshot (dsNamespace ds) (dsName ds @ ''-'' @ formatInt (sint now))) ()
       (snapshotMutate (newVolumeSnapshot ds now)) w0 = (Ret (err, snap, u), w1)"
    and ev: "Event env ''Created Snapshot'' (Name (ObjectMeta snap)) w1 = ((), w2)"
    and st: "statusUpdateDS env (setLastSnapshot ds now) w2 = (Ret (None, ds'), w3)"
    and spec: "Spec ds' = Spec ds"
    and ls: "getSnapshotList env ds' w3 = (Ret (Inr items), w4)"
  shows "\<exists>w'. reconcileSnapshots env ds w = (Panic IndexOutOfRange, w')"
proof -
  obtain w' where "pruneSnapshots env (SnapshotsRetained (Snapshots (Spec ds'))) items w4 = (Panic IndexOutOfRange, w')"
    using pruneSnapshots_negative neg spec by metis
  moreover have "Namespace (ObjectMeta (newVolumeSnapshot ds now)) = dsNamespace ds"
    "Name (ObjectMeta (newVolumeSnapshot ds now)) = dsName ds @ ''-'' @ formatInt (sint now)"
    by (simp_all add: newVolumeSnapshot_def Let_def zeroMeta_def)
  ultimately have "reconcileSnapshots env ds w = (Panic IndexOutOfRange, w')"
    using due now cou ev st ls
    by (simp add: reconcileSnapshots_def snapshotDue_def bindM_def callM_def Let_def)
  then show ?thesis ..
qed

theorem negative_retention_panics_witness:
  "\<exists>w'. reconcileSnapshots memEnv (sampleRetain (- 1)) (sampleRetainWorld (- 1)) = (Panic IndexOutOfRange, w')"
  by (rule negative_retention_panics [OF sampleRetain_steps(1) _ sampleRetain_steps(2,3,4,5) _ sampleRetain_steps(6)])
    (simp_all add: sampleRetain_def sample_defs setLastSnapshot_def)

end
