(* ===== verification/Pvc.thy ===== *)
theory Pvc
  imports Snapshots
begin

text \<open>
  \<open>src/controllers/pvc.go\<close>: the data volumes are created ahead of the stateful set, one per
  replica, optionally initialised from the latest snapshot. A claim that exists is never
  written.
\<close>

section \<open>Model\<close>

definition latestSentinel :: string where
  "latestSentinel = ''$(latest)''"

text \<open>\<open>DeepCopy\<close> makes the returned specification independent of the one in \<open>ds\<close>.\<close>

definition setVolumeClaimTemplateFromSnapshot ::
  "'w env \<Rightarrow> directoryService \<Rightarrow> ('w, persistentVolumeClaimSpec) M" where
  "setVolumeClaimTemplateFromSnapshot env ds =
     (let spec = VolumeClaimSpec (PodTemplate (Spec ds)) in
      case DataSource spec of
        None \<Rightarrow> ret spec
      | Some ref \<Rightarrow>
          if refName ref = latestSentinel then
            bindM (getSnapshotList env ds) (\<lambda>r.
              case r of Inl err \<Rightarrow> ret (spec\<lparr>DataSource := None\<rparr>)
              | Inr items \<Rightarrow>
                  if length items = 0 then ret (spec\<lparr>DataSource := None\<rparr>)
                  else ret (spec\<lparr>DataSource := Some (ref\<lparr>refName := Name (ObjectMeta (items ! (length items - 1)))\<rparr>)\<rparr>))
          else ret spec)"

definition pvcAnnotations :: "string \<rightharpoonup> string" where
  "pvcAnnotations = [''pv.beta.kubernetes.io/gid'' \<mapsto> ''0'']"

definition pvcMutate :: "'w env \<Rightarrow> directoryService \<Rightarrow> ('w, persistentVolumeClaim, unit) mutateFn" where
  "pvcMutate env ds pvc l =
     (if isZero (CreationTimestamp (ObjectMeta pvc)) then
        bindM (setVolumeClaimTemplateFromSnapshot env ds) (\<lambda>spec.
          ret (None,
               pvc\<lparr>ObjectMeta := (ObjectMeta pvc)\<lparr>Labels := Some (createLabels (dsName ds) (dsKind ds) None),
                                                    Annotations := Some pvcAnnotations\<rparr>,
                   pvcSpec := spec\<rparr>, l))
      else ret (None, pvc, l))"

definition reconcileOnePVC :: "'w env \<Rightarrow> directoryService \<Rightarrow> nat \<Rightarrow> ('w, goerr option) M" where
  "reconcileOnePVC env ds i =
     bindM (kCreateOrUpdate (pvcClient env) (newPVC (dsNamespace ds) (dataClaimName (dsName ds) (int i))) ()
             (pvcMutate env ds)) (\<lambda>(err, pvc, l). ret err)"

definition reconcilePVC :: "'w env \<Rightarrow> directoryService \<Rightarrow> ('w, goerr option) M" where
  "reconcilePVC env ds =
     (case Replicas (Spec ds) of
        None \<Rightarrow> panic NilDeref
      | Some n \<Rightarrow> forErr [0..<nat (sint n)] (reconcileOnePVC env ds))"

interpretation pvcCallback: create_only KPvc pvcs "\<lambda>m s. s\<lparr>pvcs := m\<rparr>" "pvcMutate env ds" k for env ds k
  by unfold_locales
    (auto simp: pvcMutate_def created_def run_simps objkey_def)

section \<open>Initialisation from a snapshot\<close>

lemma setVCT_view:
  assumes env: "env_documented view env" and run: "setVolumeClaimTemplateFromSnapshot env ds w = (r, w')"
  shows "view w' = view w"
proof -
  have "pres (stays {} view) (setVolumeClaimTemplateFromSnapshot env ds)"
    unfolding setVolumeClaimTemplateFromSnapshot_def Let_def
    by (auto intro!: frame.pres_ret frame.pres_bindM getSnapshotList_quiet [OF env] split: option.splits sum.splits)
  from presD [OF this run] show ?thesis by (simp add: stays_empty)
qed

lemma setVCT_quiet: "env_documented view env \<Longrightarrow> pres (stays K view) (setVolumeClaimTemplateFromSnapshot env ds)"
  by (rule stays_of_quiet, rule presI) (simp add: stays_empty setVCT_view)

lemma pvcMutate_quiet: "env_documented view env \<Longrightarrow> pres (stays K view) (pvcMutate env ds p l)"
  unfolding pvcMutate_def by (auto intro!: frame.pres_bindM frame.pres_ret setVCT_quiet)

lemma setVCT_returns:
  assumes "env_documented view env"
  shows "\<exists>spec w'. setVolumeClaimTemplateFromSnapshot env ds w = (Ret spec, w')"
proof -
  obtain r w1 where l: "getSnapshotList env ds w = (r, w1)" by (cases "getSnapshotList env ds w")
  with getSnapshotList_view [OF assms l] show ?thesis
    by (auto simp: setVolumeClaimTemplateFromSnapshot_def bindM_def ret_def Let_def split: option.splits sum.splits)
qed

text \<open>The last element of an ordered list is a largest one.\<close>

lemma last_snapshot_newest:
  assumes "sorted_wrt (\<lambda>x y. snapTime x \<le> snapTime y) items" and "items \<noteq> []"
  shows "\<forall>t \<in> set items. snapTime t \<le> snapTime (last items)"
proof -
  have "sorted_wrt (\<lambda>x y. snapTime x \<le> snapTime y) (butlast items @ [last items])"
    using assms by simp
  then have "\<forall>t \<in> set (butlast items @ [last items]). snapTime t \<le> snapTime (last items)"
    unfolding sorted_wrt_append by simp
  with assms(2) show ?thesis by simp
qed

lemma setVCT_latest:
  assumes env: "env_documented view env"
    and ref: "DataSource (VolumeClaimSpec (PodTemplate (Spec ds))) = Some ref" "refName ref = ''$(latest)''"
    and l: "getSnapshotList env ds w = (Ret (Inr items), w')"
  shows "setVolumeClaimTemplateFromSnapshot env ds w =
      (Ret ((VolumeClaimSpec (PodTemplate (Spec ds)))\<lparr>DataSource :=
         if items = [] then None else Some (ref\<lparr>refName := Name (ObjectMeta (last items))\<rparr>)\<rparr>), w')"
    and "items \<noteq> [] \<Longrightarrow> last items \<in> ownSnapshots ds (view w) \<and>
      (\<forall>t \<in> ownSnapshots ds (view w). snapTime t \<le> snapTime (last items))"
    and "items = [] \<longleftrightarrow> ownSnapshots ds (view w) = {}"
proof -
  note facts = snapshot_list_facts [OF env l]
  show "setVolumeClaimTemplateFromSnapshot env ds w =
      (Ret ((VolumeClaimSpec (PodTemplate (Spec ds)))\<lparr>DataSource :=
         if items = [] then None else Some (ref\<lparr>refName := Name (ObjectMeta (last items))\<rparr>)\<rparr>), w')"
    using ref l
    by (auto simp: setVolumeClaimTemplateFromSnapshot_def bindM_def ret_def Let_def latestSentinel_def last_conv_nth)
  from facts(1) show "items = [] \<longleftrightarrow> ownSnapshots ds (view w) = {}" by (metis set_empty2)
  from last_snapshot_newest [OF facts(3)] facts(1)
  show "items \<noteq> [] \<Longrightarrow> last items \<in> ownSnapshots ds (view w) \<and>
      (\<forall>t \<in> ownSnapshots ds (view w). snapTime t \<le> snapTime (last items))"
    by auto
qed

text \<open>Where a new volume of \<open>ds\<close> may come from, given the objects in the cluster.\<close>

definition sourceResolved :: "directoryService \<Rightarrow> store \<Rightarrow> typedLocalObjectReference option \<Rightarrow> bool" where
  "sourceResolved ds s src \<longleftrightarrow>
     (case DataSource (VolumeClaimSpec (PodTemplate (Spec ds))) of
        None \<Rightarrow> src = None
      | Some ref \<Rightarrow>
          if refName ref \<noteq> ''$(latest)'' then src = Some ref
          else src = None \<or>
               (\<exists>x \<in> ownSnapshots ds s. src = Some (ref\<lparr>refName := Name (ObjectMeta x)\<rparr>) \<and>
                  (\<forall>y \<in> ownSnapshots ds s. snapTime y \<le> snapTime x)))"

lemma setVCT_resolved:
  assumes env: "env_documented view env" and run: "setVolumeClaimTemplateFromSnapshot env ds w = (Ret spec, w')"
  shows "sourceResolved ds (view w) (DataSource spec) \<and> pvcOther spec = pvcOther (VolumeClaimSpec (PodTemplate (Spec ds)))"
proof (cases "\<exists>ref items. DataSource (VolumeClaimSpec (PodTemplate (Spec ds))) = Some ref \<and>
    refName ref = ''$(latest)'' \<and> getSnapshotList env ds w = (Ret (Inr items), w')")
  case False
  with run show ?thesis
    by (auto simp: setVolumeClaimTemplateFromSnapshot_def sourceResolved_def run_simps Let_def latestSentinel_def
        split: option.splits)
next
  case True
  then obtain ref items where ref: "DataSource (VolumeClaimSpec (PodTemplate (Spec ds))) = Some ref" "refName ref = ''$(latest)''"
    and l: "getSnapshotList env ds w = (Ret (Inr items), w')"
    by blast
  note latest = setVCT_latest [OF env ref l]
  from latest(1) run have "spec = (VolumeClaimSpec (PodTemplate (Spec ds)))\<lparr>DataSource :=
      if items = [] then None else Some (ref\<lparr>refName := Name (ObjectMeta (last items))\<rparr>)\<rparr>" by simp
  with latest(2) ref show ?thesis
    by (cases "items = []") (auto simp: sourceResolved_def)
qed

text \<open>
  Property C15. A new volume is initialised from the newest snapshot. When the template names
  \<open>$(latest)\<close> and the snapshots can be listed, the claim names a snapshot of this directory
  that no other one of its snapshots is newer than, or no source at all if the directory has
  no snapshots. Nothing else of the user's claim specification changes, and nothing in the
  cluster does.
\<close>

theorem volume_source_resolved:
  assumes env: "env_documented view env"
    and ref: "DataSource (VolumeClaimSpec (PodTemplate (Spec ds))) = Some ref" "refName ref = ''$(latest)''"
    and l: "getSnapshotList env ds w = (Ret (Inr items), w')"
  shows "view w' = view w \<and> (\<exists>spec. setVolumeClaimTemplateFromSnapshot env ds w = (Ret spec, w') \<and>
    pvcOther spec = pvcOther (VolumeClaimSpec (PodTemplate (Spec ds))) \<and>
    (if ownSnapshots ds (view w) = {} then DataSource spec = None
     else \<exists>s \<in> ownSnapshots ds (view w). DataSource spec = Some (ref\<lparr>refName := Name (ObjectMeta s)\<rparr>) \<and>
       (\<forall>t \<in> ownSnapshots ds (view w). snapTime t \<le> snapTime s)))"
  using setVCT_latest [OF env ref l] snapshot_list_facts(4) [OF env l] by auto

theorem volume_source_resolved_witness:
  "let w = emptyMem\<lparr>mSnaps := [sampleSnap 900, sampleSnap 300]\<rparr> in
   \<exists>spec. setVolumeClaimTemplateFromSnapshot memEnv sampleDS w = (Ret spec, w) \<and>
     (\<exists>s. DataSource spec = Some \<lparr>refAPIGroup = None, refKind = ''VolumeSnapshot'', refName = Name (ObjectMeta s)\<rparr> \<and>
        (\<forall>t \<in> ownSnapshots sampleDS (memView w). snapTime t \<le> snapTime s))"
proof -
  let ?w = "emptyMem\<lparr>mSnaps := [sampleSnap 900, sampleSnap 300]\<rparr>"
  let ?ref = "\<lparr>refAPIGroup = None, refKind = ''VolumeSnapshot'', refName = ''$(latest)''\<rparr>"
  have keys: "objkey (sampleSnap 900) \<noteq> objkey (sampleSnap 300)"
    by (simp add: sampleSnap_facts)
  have l: "getSnapshotList memEnv sampleDS ?w = (Ret (Inr [sampleSnap 300, sampleSnap 900]), ?w)"
    using keys by (simp add: getSnapshotList_def bindM_def callM_def ret_def mem_defs Let_def sampleDS_def
        sampleSnap_facts sortBy_def dropKey_def)
  have ref: "DataSource (VolumeClaimSpec (PodTemplate (Spec sampleDS))) = Some ?ref"
    by (simp add: sample_defs)
  have own: "ownSnapshots sampleDS (memView ?w) \<noteq> {}"
    using snapshot_list_facts(1) [OF memEnv_documented l] by auto
  from volume_source_resolved [OF memEnv_documented ref _ l] own show ?thesis
    by (auto simp: Let_def)
qed

section \<open>The volumes of a directory\<close>

text \<open>The keys of the claims a directory with \<open>n\<close> replicas uses.\<close>

definition claimKeys :: "directoryService \<Rightarrow> nat \<Rightarrow> nsname set" where
  "claimKeys ds n = (\<lambda>i. (dsNamespace ds, dataClaimName (dsName ds) (int i))) ` {..<n}"

lemma reconcileOnePVC_stays:
  assumes env: "env_documented view env"
    and k: "(KPvc, dsNamespace ds, dataClaimName (dsName ds) (int i)) \<in> K"
  shows "pres (stays K view) (reconcileOnePVC env ds i)"
  unfolding reconcileOnePVC_def using k
  by (auto intro!: frame.pres_bindM frame.pres_ret pvcK.cou_stays [OF env_clients(1) [OF env]] pvcMutate_quiet [OF env])

lemma reconcilePVC_stays:
  assumes env: "env_documented view env"
    and K: "\<And>n. Replicas (Spec ds) = Some n \<Longrightarrow> Pair KPvc ` claimKeys ds (nat (sint n)) \<subseteq> K"
  shows "pres (stays K view) (reconcilePVC env ds)"
proof (cases "Replicas (Spec ds)")
  case None
  then show ?thesis by (simp add: reconcilePVC_def frame.pres_panic)
next
  case (Some n)
  have "(KPvc, dsNamespace ds, dataClaimName (dsName ds) (int i)) \<in> K" if "i < nat (sint n)" for i
    using K [OF Some] that by (auto simp: claimKeys_def)
  then show ?thesis
    using Some by (auto simp: reconcilePVC_def intro!: frame.pres_forErr reconcileOnePVC_stays [OF env])
qed

interpretation pvcsGrow: world_order "\<lambda>w w'. pvcs (view w) \<subseteq>\<^sub>m pvcs (view w')" for view :: "'w \<Rightarrow> store"
  by unfold_locales (auto intro: map_le_trans)

lemma reconcileOnePVC_grows:
  assumes env: "env_documented view env"
  shows "pres (\<lambda>w w'. pvcs (view w) \<subseteq>\<^sub>m pvcs (view w')) (reconcileOnePVC env ds i)"
  unfolding reconcileOnePVC_def
  by (auto intro!: pvcsGrow.pres_bindM pvcsGrow.pres_ret
      pvcCallback.pres_cou_grows [OF env_clients(1) [OF env] pvcMutate_quiet [OF env]])

lemma reconcilePVC_grows:
  "env_documented view env \<Longrightarrow> pres (\<lambda>w w'. pvcs (view w) \<subseteq>\<^sub>m pvcs (view w')) (reconcilePVC env ds)"
  unfolding reconcilePVC_def
  by (auto intro!: pvcsGrow.pres_forErr pvcsGrow.pres_panic reconcileOnePVC_grows split: option.splits)

lemma reconcileOnePVC_present:
  assumes env: "env_documented view env" and run: "reconcileOnePVC env ds i w = (Ret None, w')"
  shows "(dsNamespace ds, dataClaimName (dsName ds) (int i)) \<in> dom (pvcs (view w'))"
proof -
  let ?x = "newPVC (dsNamespace ds) (dataClaimName (dsName ds) (int i))"
  from run obtain z l where "kCreateOrUpdate (pvcClient env) ?x () (pvcMutate env ds) w = (Ret (None, z, l), w')"
    by (auto simp: reconcileOnePVC_def run_simps)
  from pvcK.cou_present [OF env_clients(1) [OF env] pvcMutate_quiet [OF env] this] show ?thesis by auto
qed

lemma reconcilePVC_present:
  assumes env: "env_documented view env" and n: "Replicas (Spec ds) = Some n"
    and run: "reconcilePVC env ds w = (Ret None, w')"
  shows "claimKeys ds (nat (sint n)) \<subseteq> dom (pvcs (view w'))"
proof -
  let ?P = "\<lambda>i w. (dsNamespace ds, dataClaimName (dsName ds) (int i)) \<in> dom (pvcs (view w))"
  have "\<forall>i \<in> set [0..<nat (sint n)]. ?P i w'"
  proof (rule forErr_establishes [where b = "reconcileOnePVC env ds"])
    show "pres (\<lambda>w w'. ?P j w \<longrightarrow> ?P j w') (reconcileOnePVC env ds i)" for i j
      by (rule pres_mono [OF reconcileOnePVC_grows [OF env]]) (blast dest: map_le_implies_dom_le)
    show "forErr [0..<nat (sint n)] (reconcileOnePVC env ds) w = (Ret None, w')"
      using run n by (simp add: reconcilePVC_def)
  qed (rule reconcileOnePVC_present [OF env])
  then show ?thesis by (auto simp: claimKeys_def)
qed

text \<open>What a claim made for \<open>ds\<close> looks like; \<open>s\<close> are the objects at the time.\<close>

definition claimFor :: "directoryService \<Rightarrow> store \<Rightarrow> persistentVolumeClaim \<Rightarrow> bool" where
  "claimFor ds s p \<longleftrightarrow>
     Labels (ObjectMeta p) = Some (createLabels (dsName ds) (dsKind ds) None) \<and>
     Annotations (ObjectMeta p) = Some [''pv.beta.kubernetes.io/gid'' \<mapsto> ''0''] \<and>
     OwnerReferences (ObjectMeta p) = [] \<and> sourceResolved ds s (DataSource (pvcSpec p))"

lemma claimFor_snapshots: "snapshots s' = snapshots s \<Longrightarrow> claimFor ds s' p = claimFor ds s p"
  by (simp add: claimFor_def sourceResolved_def ownSnapshots_def cong: option.case_cong)

lemma reconcileOnePVC_new:
  assumes env: "env_documented view env" and run: "reconcileOnePVC env ds i w = (Ret None, w')"
    and new: "pvcs (view w) k \<noteq> Some p" "pvcs (view w') k = Some p"
  shows "claimFor ds (view w) p"
proof -
  let ?k = "(dsNamespace ds, dataClaimName (dsName ds) (int i))"
  let ?x = "newPVC (dsNamespace ds) (dataClaimName (dsName ds) (int i))"
  have k: "k = ?k"
  proof (rule ccontr)
    assume "k \<noteq> ?k"
    moreover have "stays {(KPvc, ?k)} view w w'"
      by (rule presD [OF reconcileOnePVC_stays [OF env] run]) simp
    ultimately have "pvcs (view w') k = pvcs (view w) k"
      by (auto intro: pvcK.stays_at)
    with new show False by simp
  qed
  from run obtain z l where cou: "kCreateOrUpdate (pvcClient env) ?x () (pvcMutate env ds) w = (Ret (None, z, l), w')"
    by (auto simp: reconcileOnePVC_def run_simps)
  from env_clients(1) [OF env] pvcMutate_quiet [OF env] cou show ?thesis
  proof (cases rule: pvcK.cou_success)
    case (existing cur w1 w2 y)
    with pvcCallback.existing_untouched [OF env_clients(1) [OF env] _ cou] new k show ?thesis by simp
  next
    case (fresh w1 w2 y)
    from fresh(3) obtain spec where spec: "setVolumeClaimTemplateFromSnapshot env ds w1 = (Ret spec, w2)"
      and y: "y = ?x\<lparr>ObjectMeta := (ObjectMeta ?x)\<lparr>Labels := Some (createLabels (dsName ds) (dsKind ds) None),
                Annotations := Some pvcAnnotations\<rparr>, pvcSpec := spec\<rparr>"
      by (auto simp: pvcMutate_def run_simps isZero_def)
    from fresh new k have "p = z" by simp
    with setVCT_resolved [OF env spec] fresh(2,7) y show ?thesis
      by (simp add: claimFor_def pvcAcc_def metaKept_def pvcAnnotations_def)
  qed
qed

lemma reconcilePVC_new:
  assumes env: "env_documented view env" and run: "reconcilePVC env ds w = (Ret None, w')"
    and new: "pvcs (view w) k \<noteq> Some p" "pvcs (view w') k = Some p"
  shows "claimFor ds (view w) p"
proof -
  from run obtain n where n: "Replicas (Spec ds) = Some n"
    and loop: "forErr [0..<nat (sint n)] (reconcileOnePVC env ds) w = (Ret None, w')"
    by (auto simp: reconcilePVC_def run_simps)
  let ?P = "\<lambda>w'. snapshots (view w') = snapshots (view w) \<and>
    (\<forall>k p. pvcs (view w') k = Some p \<longrightarrow> pvcs (view w) k = Some p \<or> claimFor ds (view w) p)"
  have "?P w'"
  proof (rule forErr_success_inv [OF _ _ loop])
    fix i u v
    assume P: "?P u" and round: "reconcileOnePVC env ds i u = (Ret None, v)"
    have "pres (stays (range (Pair KPvc)) view) (reconcileOnePVC env ds i)"
      by (rule reconcileOnePVC_stays [OF env]) simp
    from snapK.stays_kind [OF presD [OF this round]] P have snap: "snapshots (view v) = snapshots (view w)"
      by (auto simp: image_image)
    have "pvcs (view w) k = Some p \<or> claimFor ds (view w) p" if "pvcs (view v) k = Some p" for k p
      using reconcileOnePVC_new [OF env round _ that] P claimFor_snapshots [of "view u" "view w"] by blast
    with snap show "?P v" by blast
  qed simp
  with new show ?thesis by blast
qed

text \<open>
  Property C14. The volumes are there before the pods. When the volume step succeeds, every
  replica \<open>0 .. n-1\<close> has its claim \<open>data-<name>-<i>\<close>, under the name the stateful set controller
  will look for. Claims that were there before are unchanged, only claims of this directory are
  new, and each new one carries the directory's labels, the group annotation, no owner (so it
  survives the directory) and the source the template asks for.
\<close>

theorem volumes_created:
  assumes env: "env_documented view env" and n: "Replicas (Spec ds) = Some n"
    and run: "reconcilePVC env ds w = (Ret None, w')"
  shows "(\<forall>i < nat (sint n). \<exists>p. pvcs (view w') (dsNamespace ds, ''data-'' @ dsName ds @ ''-'' @ formatInt (int i)) = Some p) \<and>
    pvcs (view w) \<subseteq>\<^sub>m pvcs (view w') \<and>
    (\<forall>k p. pvcs (view w') k = Some p \<and> pvcs (view w) k = None \<longrightarrow> k \<in> claimKeys ds (nat (sint n)) \<and> claimFor ds (view w) p)"
proof -
  have "stays (Pair KPvc ` claimKeys ds (nat (sint n))) view w w'"
    by (rule presD [OF reconcilePVC_stays [OF env] run]) (simp add: n)
  then have same: "pvcs (view w') k = pvcs (view w) k" if "k \<notin> claimKeys ds (nat (sint n))" for k
    by (rule pvcK.stays_at) (use that in auto)
  have present: "\<exists>p. pvcs (view w') (dsNamespace ds, ''data-'' @ dsName ds @ ''-'' @ formatInt (int i)) = Some p"
    if "i < nat (sint n)" for i
    using reconcilePVC_present [OF env n run] that by (auto simp: claimKeys_def dataClaimName_def)
  have new: "k \<in> claimKeys ds (nat (sint n)) \<and> claimFor ds (view w) p"
    if "pvcs (view w') k = Some p" "pvcs (view w) k = None" for k p
    using same [of k] reconcilePVC_new [OF env run, of k p] that by auto
  from present new presD [OF reconcilePVC_grows [OF env] run] show ?thesis by blast
qed

text \<open>
  The volume step is idempotent: run again after a success it changes nothing in
  the cluster, whether or not the API server answers.
\<close>

theorem volume_step_idempotent:
  assumes env: "env_documented view env" and run: "reconcilePVC env ds w = (Ret None, w')"
    and again: "reconcilePVC env ds w' = (r, w'')"
  shows "view w'' = view w'"
proof -
  from run obtain n where n: "Replicas (Spec ds) = Some n" by (auto simp: reconcilePVC_def run_simps)
  note present = reconcilePVC_present [OF env n run]
  let ?P = "\<lambda>w. view w = view w'"
  have "pres (\<lambda>u v. ?P u \<longrightarrow> ?P v) (reconcileOnePVC env ds i)" if i: "i \<in> set [0..<nat (sint n)]" for i
  proof (rule presI, rule impI)
    fix u r v
    assume round: "reconcileOnePVC env ds i u = (r, v)" and u: "?P u"
    let ?x = "newPVC (dsNamespace ds) (dataClaimName (dsName ds) (int i))"
    from present i u obtain cur where cur: "pvcs (view u) (objkey ?x) = Some cur"
      by (auto simp: claimKeys_def)
    obtain q v1 where cou: "kCreateOrUpdate (pvcClient env) ?x () (pvcMutate env ds) u = (q, v1)"
      by (cases "kCreateOrUpdate (pvcClient env) ?x () (pvcMutate env ds) u")
    with round have "v = v1" by (auto simp: reconcileOnePVC_def bindM_def ret_def split: result.splits)
    with pvcCallback.existing_untouched [OF env_clients(1) [OF env] cur cou] u show "?P v" by simp
  qed
  then have "pres (\<lambda>u v. ?P u \<longrightarrow> ?P v) (forErr [0..<nat (sint n)] (reconcileOnePVC env ds))"
    by (rule keeps.pres_forErr)
  with again n show ?thesis by (auto simp: reconcilePVC_def dest: presD)
qed

text \<open>A run that creates both volumes of the sample directory.\<close>

definition sampleClaim :: "nat \<Rightarrow> persistentVolumeClaim" where
  "sampleClaim i = stamp 1000 \<lparr>ObjectMeta = (named ''prod'' (dataClaimName ''idrepo'' (int i)))
     \<lparr>Labels := Some (createLabels ''idrepo'' ''DirectoryService'' None), Annotations := Some pvcAnnotations\<rparr>,
     pvcSpec = \<lparr>DataSource = None, pvcOther = ''5Gi''\<rparr>\<rparr>"

lemma sampleClaim_step:
  assumes "mSnaps w = []" and "mClock w = 1000"
    and "lookupObj (mPvcs w) (''prod'', dataClaimName ''idrepo'' (int i)) = None"
  shows "reconcileOnePVC memEnv sampleDS i w = (Ret None, w\<lparr>mPvcs := upsert (sampleClaim i) (mPvcs w)\<rparr>)"
proof -
  have "getSnapshotList memEnv sampleDS w = (Ret (Inr []), w)"
    using assms(1) by (simp add: getSnapshotList_def bindM_def callM_def ret_def mem_defs Let_def sortBy_def)
  then have "pvcMutate memEnv sampleDS (newPVC ''prod'' (dataClaimName ''idrepo'' (int i))) () w =
     (Ret (None, \<lparr>ObjectMeta = (named ''prod'' (dataClaimName ''idrepo'' (int i)))
       \<lparr>Labels := Some (createLabels ''idrepo'' ''DirectoryService'' None), Annotations := Some pvcAnnotations\<rparr>,
       pvcSpec = \<lparr>DataSource = None, pvcOther = ''5Gi''\<rparr>\<rparr>, ()), w)"
    by (simp add: pvcMutate_def setVolumeClaimTemplateFromSnapshot_def bindM_def ret_def Let_def sample_defs
        latestSentinel_def isZero_def newPVC_def)
  note cou = mem_cou_fresh [where get = mPvcs and f = "pvcMutate memEnv sampleDS" and
      x = "newPVC ''prod'' (dataClaimName ''idrepo'' (int i))", OF _ this]
  show ?thesis
    using cou [where put = "\<lambda>xs w. w\<lparr>mPvcs := xs\<rparr>" and mU = keepStamp and mS = keepStamp] assms
    by (simp add: reconcileOnePVC_def memEnv_def bindM_def ret_def sampleClaim_def sampleDS_def objkey_def)
qed

lemma samplePVC_run:
  "reconcilePVC memEnv sampleDS emptyMem = (Ret None, emptyMem\<lparr>mPvcs := [sampleClaim 1, sampleClaim 0]\<rparr>)"
proof -
  have key: "objkey (sampleClaim i) = (''prod'', dataClaimName ''idrepo'' (int i))" "created (sampleClaim i)" for i
    by (simp_all add: sampleClaim_def objkey_def stamp_def created_def isZero_def)
  have "[0..<2] = [0, Suc 0]" by (simp add: upt_rec)
  with sampleClaim_step [of emptyMem 0] sampleClaim_step [of "emptyMem\<lparr>mPvcs := [sampleClaim 0]\<rparr>" 1] key
  show ?thesis
    by (simp add: reconcilePVC_def sample_defs checkM_apply ret_def emptyMem_def upsert_def dropKey_def
        lookupObj_Cons dataClaimName_def formatInt_inject)
qed

theorem volumes_created_witness:
  "reconcilePVC memEnv sampleDS emptyMem = (Ret None, emptyMem\<lparr>mPvcs := [sampleClaim 1, sampleClaim 0]\<rparr>) \<and>
   (\<exists>p q. pvcs (memView (emptyMem\<lparr>mPvcs := [sampleClaim 1, sampleClaim 0]\<rparr>)) (''prod'', ''data-idrepo-'' @ formatInt 0) = Some p \<and>
      pvcs (memView (emptyMem\<lparr>mPvcs := [sampleClaim 1, sampleClaim 0]\<rparr>)) (''prod'', ''data-idrepo-'' @ formatInt 1) = Some q)"
proof -
  let ?w = "emptyMem\<lparr>mPvcs := [sampleClaim 1, sampleClaim 0]\<rparr>"
  have "\<forall>i < 2. \<exists>p. pvcs (memView ?w) (''prod'', ''data-idrepo-'' @ formatInt (int i)) = Some p"
    using volumes_created [OF memEnv_documented _ samplePVC_run, of 2] by (simp add: sample_defs)
  from this [rule_format, of 0] this [rule_format, of 1] samplePVC_run show ?thesis by simp
qed

theorem volume_step_idempotent_witness:
  "let w = emptyMem\<lparr>mPvcs := [sampleClaim 1, sampleClaim 0]\<rparr> in
   reconcilePVC memEnv sampleDS emptyMem = (Ret None, w) \<and>
   memView (snd (reconcilePVC memEnv sampleDS w)) = memView w"
  using volume_step_idempotent [OF memEnv_documented samplePVC_run surjective_pairing] samplePVC_run
  by (simp add: Let_def)

end
