(* ===== verification/Sts.thy ===== *)
theory Sts
  imports Pvc
begin

text \<open>
  \<open>src/controllers/sts.go\<close>: the stateful set of directory pods. A new one is built from a
  template; of an existing one only the replica count and two images are brought up to date.

  Updating stores the address of the stateful set's own field in \<open>ds.Status.CurrentReplicas\<close>.
  The flag carried along with \<open>ds\<close> says that this happened, and \<open>reconcileSTS\<close> reads the field
  when the API server's reply has been decoded into the stateful set.
\<close>

section \<open>Constants of the package\<close>

definition ForgeRockUser :: int64 where "ForgeRockUser = 11111"

definition RootGroup :: int64 where "RootGroup = 0"

definition DSDataPath :: string where "DSDataPath = ''/opt/opendj/data''"

definition MasterKeyPath :: string where "MasterKeyPath = ''/var/run/secrets/ds-master-keypair''"

definition SSLKeyPath :: string where "SSLKeyPath = ''/var/run/secrets/ds-ssl-keypair''"

definition TruststoreKeyPath :: string where "TruststoreKeyPath = ''/var/run/secrets/truststore''"

lemmas path_defs = DSDataPath_def MasterKeyPath_def SSLKeyPath_def TruststoreKeyPath_def

section \<open>The template\<close>

definition accountOf :: "directoryService \<Rightarrow> string \<Rightarrow> directoryPasswords" where
  "accountOf ds dn = mapIndex zeroPasswords (Passwords (Spec ds)) dn"

definition stsVolumeMounts :: "directoryService \<Rightarrow> volumeMount list" where
  "stsVolumeMounts ds =
     [\<lparr>vmName = ''data'', MountPath = DSDataPath\<rparr>,
      \<lparr>vmName = ''admin-password'', MountPath = ''/var/run/secrets/admin''\<rparr>,
      \<lparr>vmName = ''monitor-password'', MountPath = ''/var/run/secrets/monitor''\<rparr>,
      \<lparr>vmName = ''ds-ssl-keypair'', MountPath = SSLKeyPath\<rparr>,
      \<lparr>vmName = ''ds-master-keypair'', MountPath = MasterKeyPath\<rparr>,
      \<lparr>vmName = ''truststore'', MountPath = TruststoreKeyPath\<rparr>,
      \<lparr>vmName = ''keys'', MountPath = ''/var/run/secrets/keys''\<rparr>]
     @ (if ScriptConfigMapName (PodTemplate (Spec ds)) \<noteq> ''''
        then [\<lparr>vmName = ''scripts'', MountPath = ''/opt/opendj/scripts''\<rparr>] else [])"

text \<open>The mode 0755 is octal.\<close>

definition stsVolumes :: "directoryService \<Rightarrow> volume list" where
  "stsVolumes ds =
     (let t = PodTemplate (Spec ds) in
      [\<lparr>volName = ''ds-master-keypair'', volSource = SecretVolume (MasterSecretName (Certificates t))\<rparr>,
       \<lparr>volName = ''ds-ssl-keypair'', volSource = SecretVolume (SSLSecretName (Certificates t))\<rparr>,
       \<lparr>volName = ''truststore'', volSource = SecretVolume (TruststoreSecretName (Certificates t))\<rparr>,
       \<lparr>volName = ''admin-password'', volSource = SecretVolume (SecretName (accountOf ds ''uid=admin''))\<rparr>,
       \<lparr>volName = ''monitor-password'', volSource = SecretVolume (SecretName (accountOf ds ''uid=monitor''))\<rparr>,
       \<lparr>volName = ''keys'', volSource = EmptyDir\<rparr>]
      @ (if ScriptConfigMapName t \<noteq> ''''
         then [\<lparr>volName = ''scripts'', volSource = ConfigMapVolume (ScriptConfigMapName t) 493\<rparr>] else []))"

definition stsEnvVars :: "directoryService \<Rightarrow> envVar list" where
  "stsEnvVars ds =
     [\<lparr>envName = ''POD_NAME'', envValue = '''', envValueFrom = Some (FieldRef ''metadata.name'')\<rparr>,
      \<lparr>envName = ''DS_SET_UID_ADMIN_AND_MONITOR_PASSWORDS'', envValue = ''true'', envValueFrom = None\<rparr>,
      \<lparr>envName = ''DS_UID_MONITOR_PASSWORD_FILE'',
       envValue = ''/var/run/secrets/monitor/'' @ Key (accountOf ds ''uid=monitor''), envValueFrom = None\<rparr>,
      \<lparr>envName = ''DS_UID_ADMIN_PASSWORD_FILE'',
       envValue = ''/var/run/secrets/admin/'' @ Key (accountOf ds ''uid=admin''), envValueFrom = None\<rparr>]
     @ tEnv (PodTemplate (Spec ds))"

definition stsInitContainer :: "directoryService \<Rightarrow> container" where
  "stsInitContainer ds =
     (let t = PodTemplate (Spec ds) in
      zeroContainer\<lparr>cName := ''init'', Image := tImage t, ImagePullPolicy := tImagePullPolicy t, Args := [''init''],
        VolumeMounts := stsVolumeMounts ds, Resources := tResources t, Env := stsEnvVars ds, EnvFrom := tInitEnvFrom t\<rparr>)"

definition stsMainContainer :: "directoryService \<Rightarrow> container" where
  "stsMainContainer ds =
     (let t = PodTemplate (Spec ds) in
      zeroContainer\<lparr>cName := ''ds'', Image := tImage t, ImagePullPolicy := tImagePullPolicy t, Args := [''start-ds''],
        VolumeMounts := stsVolumeMounts ds, Resources := tResources t,
        Ports := [\<lparr>cpName = ''http'', containerPortNo = 8080\<rparr>],
        Env := stsEnvVars ds, EnvFrom := tEnvFrom t,
        StartupProbe := Some \<lparr>probePath = ''/healthy'', probePort = ''http'', InitialDelaySeconds = 30,
          PeriodSeconds = 10, FailureThreshold = 720\<rparr>\<rparr>)"

definition spreadConstraint :: "string \<Rightarrow> string \<Rightarrow> topologySpreadConstraint" where
  "spreadConstraint key i = \<lparr>MaxSkew = 1, TopologyKey = key, WhenUnsatisfiable = ''ScheduleAnyway'',
     tscMatchLabels = [labelInstance \<mapsto> i]\<rparr>"

definition stsPodSpec :: "directoryService \<Rightarrow> string \<Rightarrow> podSpec" where
  "stsPodSpec ds svcName =
     zeroPodSpec\<lparr>ServiceAccountName := tServiceAccountName (PodTemplate (Spec ds)),
       TopologySpreadConstraints := [spreadConstraint ''topology.kubernetes.io/zone'' (dsName ds),
         spreadConstraint ''topology.kubernetes.io/hostname'' (dsName ds)],
       Tolerations := [\<lparr>tolKey = ''key'', tolOperator = ''Equal'', tolValue = ''directory'', tolEffect = ''NoSchedule''\<rparr>],
       Subdomain := svcName,
       psImagePullSecrets := tImagePullSecrets (PodTemplate (Spec ds)),
       InitContainers := [stsInitContainer ds],
       Containers := [stsMainContainer ds],
       SecurityContext := Some \<lparr>FSGroup = Some RootGroup, RunAsUser = Some ForgeRockUser, RunAsGroup = None,
         SELinuxOptions = None, WindowsOptions = None\<rparr>,
       Volumes := stsVolumes ds\<rparr>"

text \<open>The template, given the claim specification already resolved.\<close>

definition stsTemplateFor :: "directoryService \<Rightarrow> string \<Rightarrow> persistentVolumeClaimSpec \<Rightarrow> statefulSet" where
  "stsTemplateFor ds svcName claimSpec =
     \<lparr>ObjectMeta = zeroMeta\<lparr>Labels := Some (createLabels (dsName ds) (dsKind ds) (Labels (ObjectMeta ds))),
        Annotations := Some (createAnnotations (Annotations (ObjectMeta ds))),
        Name := dsName ds, Namespace := dsNamespace ds\<rparr>,
      stsSelector = [labelName \<mapsto> LabelApplicationName, labelInstance \<mapsto> dsName ds],
      stsServiceName = svcName,
      stsReplicas = Replicas (Spec ds),
      stsTemplate = \<lparr>ptLabels = Some (createLabels (dsName ds) (dsKind ds) (specLabels (Spec ds))),
        ptSpec = stsPodSpec ds svcName\<rparr>,
      stsVolumeClaimTemplates =
        [\<lparr>ObjectMeta = zeroMeta\<lparr>Name := ''data'', Namespace := dsNamespace ds,
            Labels := Some (createLabels (dsName ds) (dsKind ds) None),
            Annotations := Some [''pv.beta.kubernetes.io/gid'' \<mapsto> ''0'']\<rparr>,
          pvcSpec = claimSpec\<rparr>],
      stsCurrentReplicas = 0\<rparr>"

definition injectDebugContainers :: "statefulSet \<Rightarrow> volumeMount list \<Rightarrow> string \<Rightarrow> statefulSet" where
  "injectDebugContainers sts mounts img =
     (let debugInit = zeroContainer\<lparr>cName := ''debug-init'', Image := img, ImagePullPolicy := ''IfNotPresent'',
            Command := [''sh'', ''-c'', ''echo debug pod running && chown -R 11111:0 /opt/opendj/data''],
            VolumeMounts := mounts, cRunAsUser := Some 0\<rparr>;
          debugSidecar = zeroContainer\<lparr>cName := ''debug'', Image := img, ImagePullPolicy := ''IfNotPresent'',
            Command := [''bash'', ''-c'', ''echo debug pod running && while true; do sleep 300; done''],
            VolumeMounts := mounts\<rparr>;
          p = ptSpec (stsTemplate sts) in
      sts\<lparr>stsTemplate := (stsTemplate sts)\<lparr>ptSpec := p\<lparr>InitContainers := [debugInit] @ InitContainers p,
        Containers := [debugSidecar] @ Containers p\<rparr>\<rparr>\<rparr>)"

definition createDSStatefulSet ::
  "flags \<Rightarrow> 'w env \<Rightarrow> directoryService \<Rightarrow> string \<Rightarrow> ('w, statefulSet) M" where
  "createDSStatefulSet fl env ds svcName =
     bindM (setVolumeClaimTemplateFromSnapshot env ds) (\<lambda>claimSpec.
       (let stemplate = stsTemplateFor ds svcName claimSpec in
        ret (if DebugContainer fl
             then injectDebugContainers stemplate (stsVolumeMounts ds) (tImage (PodTemplate (Spec ds)))
             else stemplate)))"

section \<open>Updating\<close>

text \<open>\<open>cs[0].Image = image\<close>\<close>

definition setFirstImage :: "string \<Rightarrow> container list \<Rightarrow> ('w, container list) M" where
  "setFirstImage img cs = (case cs of [] \<Rightarrow> panic IndexOutOfRange | c # rest \<Rightarrow> ret (c\<lparr>Image := img\<rparr> # rest))"

definition updateDSStatefulSet ::
  "directoryService \<Rightarrow> statefulSet \<Rightarrow> ('w, goerr option \<times> statefulSet \<times> directoryService \<times> bool) M" where
  "updateDSStatefulSet ds sts =
     (let sts = sts\<lparr>stsReplicas := Replicas (Spec ds)\<rparr>;
          ds = ds\<lparr>Status := (Status ds)\<lparr>CurrentReplicas := Some (stsCurrentReplicas sts)\<rparr>\<rparr>;
          p = ptSpec (stsTemplate sts) in
      bindM (setFirstImage (tImage (PodTemplate (Spec ds))) (Containers p)) (\<lambda>cs.
      bindM (setFirstImage (tImage (PodTemplate (Spec ds))) (InitContainers p)) (\<lambda>ics.
        ret (None, sts\<lparr>stsTemplate := (stsTemplate sts)\<lparr>ptSpec := p\<lparr>Containers := cs, InitContainers := ics\<rparr>\<rparr>\<rparr>,
             ds, True))))"

definition stsMutate ::
  "flags \<Rightarrow> 'w env \<Rightarrow> string \<Rightarrow> ('w, statefulSet, directoryService \<times> bool) mutateFn" where
  "stsMutate fl env svcName sts l =
     (case l of (ds, aliased) \<Rightarrow>
      if isZero (CreationTimestamp (ObjectMeta sts)) then
        bindM (createDSStatefulSet fl env ds svcName) (\<lambda>sts.
          (case SetControllerReference env KDs (ObjectMeta ds) (ObjectMeta sts) of (_, refs) \<Rightarrow>
             ret (None, sts\<lparr>ObjectMeta := (ObjectMeta sts)\<lparr>OwnerReferences := refs\<rparr>\<rparr>, ds, aliased)))
      else updateDSStatefulSet ds sts)"

definition reconcileSTS ::
  "flags \<Rightarrow> 'w env \<Rightarrow> directoryService \<Rightarrow> string \<Rightarrow> ('w, goerr option \<times> directoryService) M" where
  "reconcileSTS fl env ds svcName =
     bindM (kCreateOrUpdate (stsClient env) (newSTS (dsNamespace ds) (dsName ds)) (ds, False)
             (stsMutate fl env svcName)) (\<lambda>(err, sts, ds, aliased).
       (let ds = (if aliased then ds\<lparr>Status := (Status ds)\<lparr>CurrentReplicas := Some (stsCurrentReplicas sts)\<rparr>\<rparr> else ds) in
        case err of None \<Rightarrow> ret (None, ds)
        | Some e \<Rightarrow> ret (Some (Wrap e ''unable to CreateOrUpdate StatefulSet''), ds)))"

section \<open>The pods it describes\<close>

lemma stsPodSpec_wellFormed: "podWellFormed [''data''] (stsPodSpec ds svcName)"
  by (simp add: podWellFormed_def stsPodSpec_def zeroPodSpec_def podVolumeNames_def podContainers_def stsVolumes_def
      stsVolumeMounts_def stsInitContainer_def stsMainContainer_def zeroContainer_def path_defs Let_def)

definition stsPod :: "statefulSet \<Rightarrow> podSpec" where
  "stsPod s = ptSpec (stsTemplate s)"

text \<open>What a new stateful set of \<open>ds\<close> is, whatever the outcome of the volume source.\<close>

lemma createDSStatefulSet_Ret:
  assumes "createDSStatefulSet fl env ds svcName w = (Ret s, w')"
  obtains claimSpec where "setVolumeClaimTemplateFromSnapshot env ds w = (Ret claimSpec, w')"
    "s = (if DebugContainer fl
          then injectDebugContainers (stsTemplateFor ds svcName claimSpec) (stsVolumeMounts ds) (tImage (PodTemplate (Spec ds)))
          else stsTemplateFor ds svcName claimSpec)"
  using assms by (auto simp: createDSStatefulSet_def bindM_eq_Ret ret_apply Let_def)

lemma debugContainers_fields [simp]:
  "ObjectMeta (injectDebugContainers s m img) = ObjectMeta s"
  "stsReplicas (injectDebugContainers s m img) = stsReplicas s"
  "stsSelector (injectDebugContainers s m img) = stsSelector s"
  "stsVolumeClaimTemplates (injectDebugContainers s m img) = stsVolumeClaimTemplates s"
  "ptLabels (stsTemplate (injectDebugContainers s m img)) = ptLabels (stsTemplate s)"
  "Volumes (stsPod (injectDebugContainers s m img)) = Volumes (stsPod s)"
  "map Image (Containers (stsPod (injectDebugContainers s m img))) = img # map Image (Containers (stsPod s))"
  "map Image (InitContainers (stsPod (injectDebugContainers s m img))) = img # map Image (InitContainers (stsPod s))"
  "map cName (Containers (stsPod (injectDebugContainers s m img))) = ''debug'' # map cName (Containers (stsPod s))"
  by (simp_all add: injectDebugContainers_def stsPod_def Let_def zeroContainer_def)

lemma stsTemplateFor_fields [simp]:
  "objkey (stsTemplateFor ds svcName c) = objkey ds"
  "OwnerReferences (ObjectMeta (stsTemplateFor ds svcName c)) = []"
  "stsReplicas (stsTemplateFor ds svcName c) = Replicas (Spec ds)"
  "stsSelector (stsTemplateFor ds svcName c) = instanceSelector (dsName ds)"
  "ptLabels (stsTemplate (stsTemplateFor ds svcName c)) = Some (createLabels (dsName ds) (dsKind ds) (specLabels (Spec ds)))"
  "stsPod (stsTemplateFor ds svcName c) = stsPodSpec ds svcName"
  "map Image (Containers (stsPodSpec ds svcName)) = [tImage (PodTemplate (Spec ds))]"
  "map Image (InitContainers (stsPodSpec ds svcName)) = [tImage (PodTemplate (Spec ds))]"
  by (simp_all add: stsTemplateFor_def objkey_def zeroMeta_def instanceSelector_def stsPod_def stsPodSpec_def
      zeroPodSpec_def stsMainContainer_def stsInitContainer_def zeroContainer_def Let_def)

lemma debugPod_wellFormed:
  "podWellFormed [''data''] (stsPod (injectDebugContainers (stsTemplateFor ds svcName c) (stsVolumeMounts ds) img))"
  by (simp add: injectDebugContainers_def stsPod_def stsTemplateFor_def podWellFormed_def stsPodSpec_def zeroPodSpec_def
      podVolumeNames_def podContainers_def stsVolumes_def stsVolumeMounts_def stsInitContainer_def stsMainContainer_def
      zeroContainer_def path_defs Let_def)

lemma createDSStatefulSet_fields:
  assumes "createDSStatefulSet fl env ds svcName w = (Ret s, w')"
  shows "objkey s = objkey ds" and "stsReplicas s = Replicas (Spec ds)" and "OwnerReferences (ObjectMeta s) = []"
    and "stsSelector s = instanceSelector (dsName ds)"
    and "ptLabels (stsTemplate s) = Some (createLabels (dsName ds) (dsKind ds) (specLabels (Spec ds)))"
    and "map Image (Containers (stsPod s)) = replicate (if DebugContainer fl then 2 else 1) (tImage (PodTemplate (Spec ds)))"
    and "map Image (InitContainers (stsPod s)) = replicate (if DebugContainer fl then 2 else 1) (tImage (PodTemplate (Spec ds)))"
    and "podWellFormed [''data''] (stsPod s)"
proof -
  from assms obtain c where s: "s = (if DebugContainer fl
      then injectDebugContainers (stsTemplateFor ds svcName c) (stsVolumeMounts ds) (tImage (PodTemplate (Spec ds)))
      else stsTemplateFor ds svcName c)"
    by (rule createDSStatefulSet_Ret)
  have key: "objkey (injectDebugContainers x m img) = objkey x" for x m img by (simp add: objkey_def)
  show "objkey s = objkey ds" using key by (simp add: s)
  show "podWellFormed [''data''] (stsPod s)" by (simp add: s debugPod_wellFormed stsPodSpec_wellFormed)
qed (use assms in \<open>auto elim!: createDSStatefulSet_Ret simp: numeral_2_eq_2\<close>)

lemma createDSStatefulSet_quiet:
  assumes env: "env_documented view env"
  shows "pres (stays K view) (createDSStatefulSet fl env ds svcName)" and "noPanic (createDSStatefulSet fl env ds svcName)"
proof -
  show "pres (stays K view) (createDSStatefulSet fl env ds svcName)"
    unfolding createDSStatefulSet_def Let_def by (auto intro!: frame.pres_bindM frame.pres_ret setVCT_quiet [OF env])
  have "noPanic (setVolumeClaimTemplateFromSnapshot env ds)" unfolding noPanic_def using setVCT_returns [OF env] by blast
  then show "noPanic (createDSStatefulSet fl env ds svcName)"
    unfolding createDSStatefulSet_def Let_def by (auto intro!: noPanic_intros)
qed

section \<open>Effect on the cluster\<close>

lemma setFirstImage_Ret:
  "setFirstImage img cs w = (Ret ds, w') \<longleftrightarrow> (\<exists>c rest. cs = c # rest \<and> ds = c\<lparr>Image := img\<rparr> # rest \<and> w' = w)"
  by (auto simp: setFirstImage_def go_simps split: list.splits)

lemma updateDSStatefulSet_Ret:
  assumes "updateDSStatefulSet ds s w = (Ret (e, y, ds', b), w')"
  shows "e = None \<and> b \<and> w' = w \<and> ObjectMeta y = ObjectMeta s \<and> stsReplicas y = Replicas (Spec ds) \<and>
    stsCurrentReplicas y = stsCurrentReplicas s \<and> ObjectMeta ds' = ObjectMeta ds \<and> Spec ds' = Spec ds \<and> dsKind ds' = dsKind ds \<and>
    Status ds' = (Status ds)\<lparr>CurrentReplicas := Some (stsCurrentReplicas s)\<rparr> \<and>
    (\<exists>c cs i ics. Containers (stsPod s) = c # cs \<and> InitContainers (stsPod s) = i # ics \<and>
       y = s\<lparr>stsReplicas := Replicas (Spec ds), stsTemplate := (stsTemplate s)\<lparr>ptSpec := (stsPod s)\<lparr>
         Containers := c\<lparr>Image := tImage (PodTemplate (Spec ds))\<rparr> # cs,
         InitContainers := i\<lparr>Image := tImage (PodTemplate (Spec ds))\<rparr> # ics\<rparr>\<rparr>\<rparr>)"
  using assms by (auto simp: updateDSStatefulSet_def Let_def bindM_eq_Ret setFirstImage_Ret ret_apply stsPod_def)

lemma updateDSStatefulSet_eq:
  assumes "Containers (stsPod s) = c # cs" and "InitContainers (stsPod s) = i # ics"
  shows "updateDSStatefulSet ds s w = (Ret (None,
    s\<lparr>stsReplicas := Replicas (Spec ds), stsTemplate := (stsTemplate s)\<lparr>ptSpec := (stsPod s)\<lparr>
         Containers := c\<lparr>Image := tImage (PodTemplate (Spec ds))\<rparr> # cs,
         InitContainers := i\<lparr>Image := tImage (PodTemplate (Spec ds))\<rparr> # ics\<rparr>\<rparr>\<rparr>,
    ds\<lparr>Status := (Status ds)\<lparr>CurrentReplicas := Some (stsCurrentReplicas s)\<rparr>\<rparr>, True), w)"
  using assms by (simp add: updateDSStatefulSet_def Let_def bindM_def setFirstImage_def ret_def stsPod_def)

lemma stsMutate_quiet:
  assumes env: "env_documented view env"
  shows "pres (stays K view) (stsMutate fl env svcName s l)"
proof (cases l)
  case (Pair ds b)
  then show ?thesis
    unfolding stsMutate_def updateDSStatefulSet_def Let_def setFirstImage_def
    by (auto intro!: frame.pres_bindM frame.pres_ret frame.pres_panic createDSStatefulSet_quiet(1) [OF env]
        split: prod.splits list.splits)
qed

interpretation stsCallback: mutate_fn KSts statefulsets "\<lambda>m s. s\<lparr>statefulsets := m\<rparr>"
    "stsMutate fl env svcName" k "\<lambda>(ds, b). objkey ds = k" for fl env svcName k
proof (unfold_locales, goal_cases)
  case (1 l y w e y' l' w')
  obtain ds b where l: "l = (ds, b)" by (cases l)
  obtain ds' b' where l': "l' = (ds', b')" by (cases l')
  show ?case
  proof (cases "isZero (CreationTimestamp (ObjectMeta y))")
    case True
    with 1 l l' obtain s where s: "createDSStatefulSet fl env ds svcName w = (Ret s, w')" and y': "ObjectMeta y' = (ObjectMeta s)
        \<lparr>OwnerReferences := snd (SetControllerReference env KDs (ObjectMeta ds) (ObjectMeta s))\<rparr>"
      by (auto simp: stsMutate_def run_simps split: prod.splits)
    from createDSStatefulSet_fields(1) [OF s] y' 1(1) l show ?thesis by (simp add: objkey_def)
  next
    case False
    with 1 l l' have "updateDSStatefulSet ds y w = (Ret (e, y', ds', b'), w')" by (simp add: stsMutate_def)
    from updateDSStatefulSet_Ret [OF this] 1(2) show ?thesis by (simp add: objkey_def)
  qed
qed

lemma reconcileSTS_stays:
  assumes env: "env_documented view env" and k: "(KSts, objkey ds) \<in> K"
  shows "pres (stays K view) (reconcileSTS fl env ds svcName)"
  unfolding reconcileSTS_def Let_def using k
  by (auto intro!: frame.pres_bindM frame.pres_ret stsK.cou_stays [OF env_clients(3) [OF env]] stsMutate_quiet [OF env]
      simp: objkey_def split: option.splits)

text \<open>The part of a stateful set that follows the resource.\<close>

definition stsFollows :: "directoryService \<Rightarrow> statefulSet \<Rightarrow> bool" where
  "stsFollows ds s \<longleftrightarrow> stsReplicas s = Replicas (Spec ds) \<and> Containers (stsPod s) \<noteq> [] \<and> InitContainers (stsPod s) \<noteq> [] \<and>
     Image (hd (Containers (stsPod s))) = tImage (PodTemplate (Spec ds)) \<and>
     Image (hd (InitContainers (stsPod s))) = tImage (PodTemplate (Spec ds))"

lemma same_images_hd:
  "map (\<lambda>c. (cName c, Image c)) cs = map (\<lambda>c. (cName c, Image c)) ds \<Longrightarrow> ds \<noteq> [] \<Longrightarrow>
   cs \<noteq> [] \<and> Image (hd cs) = Image (hd ds)"
  by (cases cs; cases ds) auto

lemma stsFollows_acc: "stsFollows ds y \<Longrightarrow> stsAcc old y z \<Longrightarrow> stsFollows ds z"
  using same_images_hd [of "Containers (stsPod z)" "Containers (stsPod y)"]
    same_images_hd [of "InitContainers (stsPod z)" "InitContainers (stsPod y)"]
  by (auto simp: stsFollows_def stsAcc_def podKept_def stsPod_def)

lemma stsFollows_created:
  assumes "createDSStatefulSet fl env ds svcName w = (Ret s, w')"
  shows "stsFollows ds (s\<lparr>ObjectMeta := m\<rparr>)"
proof -
  note f = createDSStatefulSet_fields [OF assms]
  have "map Image (Containers (stsPod s)) \<noteq> []" "map Image (InitContainers (stsPod s)) \<noteq> []"
    unfolding f(6,7) by simp_all
  moreover from this have "hd (map Image (Containers (stsPod s))) = tImage (PodTemplate (Spec ds))"
    "hd (map Image (InitContainers (stsPod s))) = tImage (PodTemplate (Spec ds))"
    unfolding f(6,7) by (simp_all add: numeral_2_eq_2)
  ultimately show ?thesis using f(2) by (simp add: stsFollows_def hd_map stsPod_def)
qed

lemma stsMutate_follows:
  assumes "stsMutate fl env svcName s (ds, b) w = (Ret (e, y, ds', b'), w')"
  shows "e = None \<and> stsFollows ds y \<and> Spec ds' = Spec ds \<and> ObjectMeta ds' = ObjectMeta ds \<and> dsKind ds' = dsKind ds \<and>
    (if created s then b' \<and> Status ds' = (Status ds)\<lparr>CurrentReplicas := Some (stsCurrentReplicas s)\<rparr> \<and>
        stsCurrentReplicas y = stsCurrentReplicas s
     else b' = b \<and> ds' = ds)"
proof (cases "created s")
  case True
  with assms have "updateDSStatefulSet ds s w = (Ret (e, y, ds', b'), w')" by (simp add: stsMutate_def created_def)
  from updateDSStatefulSet_Ret [OF this] True show ?thesis by (auto simp: stsFollows_def stsPod_def)
next
  case False
  with assms obtain x where "createDSStatefulSet fl env ds svcName w = (Ret x, w')"
    and "e = None" "y = x\<lparr>ObjectMeta := (ObjectMeta x)\<lparr>OwnerReferences :=
        snd (SetControllerReference env KDs (ObjectMeta ds) (ObjectMeta x))\<rparr>\<rparr>" "ds' = ds" "b' = b"
    by (auto simp: stsMutate_def created_def run_simps split: prod.splits)
  with False stsFollows_created show ?thesis by simp
qed

lemma reconcileSTS_success:
  assumes env: "env_documented view env" and run: "reconcileSTS fl env ds svcName w = (Ret (None, ds'), w')"
  shows "\<exists>s. statefulsets (view w') (objkey ds) = Some s \<and> stsFollows ds s \<and> Spec ds' = Spec ds \<and>
    ObjectMeta ds' = ObjectMeta ds \<and> dsKind ds' = dsKind ds \<and>
    (if statefulsets (view w) (objkey ds) = None then Status ds' = Status ds
     else Status ds' = (Status ds)\<lparr>CurrentReplicas := Some (stsCurrentReplicas s)\<rparr>)"
proof -
  let ?x = "newSTS (dsNamespace ds) (dsName ds)"
  from run obtain z ds1 b where cou: "kCreateOrUpdate (stsClient env) ?x (ds, False) (stsMutate fl env svcName) w =
      (Ret (None, z, ds1, b), w')"
    and ds': "ds' = (if b then ds1\<lparr>Status := (Status ds1)\<lparr>CurrentReplicas := Some (stsCurrentReplicas z)\<rparr>\<rparr> else ds1)"
    by (auto simp: reconcileSTS_def bindM_eq_Ret ret_apply Let_def split: option.splits)
  have k: "objkey ?x = objkey ds" by (simp add: objkey_def)
  from env_clients(3) [OF env] stsMutate_quiet [OF env] cou show ?thesis
  proof (cases rule: stsK.cou_success)
    case (existing cur w1 w2 y)
    note m = stsMutate_follows [OF existing(5)]
    from existing(9) m have "stsFollows ds z" by (auto dest: stsFollows_acc)
    with existing m ds' k show ?thesis by auto
  next
    case (fresh w1 w2 y)
    note m = stsMutate_follows [OF fresh(3)]
    have "\<not> created ?x" by (simp add: created_def isZero_def)
    moreover from fresh(7) m have "stsFollows ds z" by (auto dest: stsFollows_acc)
    ultimately show ?thesis using fresh m ds' k by auto
  qed
qed

text \<open>
  Property C22. The stateful set follows the resource. After a successful step the cluster has a
  stateful set under the directory's name and namespace with the requested number of replicas,
  and its first container and first init container run the requested image, whether the set was
  new or existed before. For an existing set the status reports the current replicas of the
  stored set; otherwise the status is untouched. Nothing but this one object changed.
\<close>

theorem statefulset_follows:
  assumes env: "env_documented view env" and run: "reconcileSTS fl env ds svcName w = (Ret (None, ds'), w')"
  shows "\<exists>s. statefulsets (view w') (dsNamespace ds, dsName ds) = Some s \<and> stsReplicas s = Replicas (Spec ds) \<and>
    Containers (stsPod s) \<noteq> [] \<and> Image (hd (Containers (stsPod s))) = tImage (PodTemplate (Spec ds)) \<and>
    InitContainers (stsPod s) \<noteq> [] \<and> Image (hd (InitContainers (stsPod s))) = tImage (PodTemplate (Spec ds)) \<and>
    CurrentReplicas (Status ds') = (if statefulsets (view w) (dsNamespace ds, dsName ds) = None
      then CurrentReplicas (Status ds) else Some (stsCurrentReplicas s)) \<and>
    same_except {(KSts, dsNamespace ds, dsName ds)} (view w) (view w')"
proof -
  have "stays {(KSts, dsNamespace ds, dsName ds)} view w w'"
    by (rule presD [OF reconcileSTS_stays [OF env] run]) (simp add: objkey_def)
  moreover obtain s where "statefulsets (view w') (objkey ds) = Some s" "stsFollows ds s"
    "if statefulsets (view w) (objkey ds) = None then Status ds' = Status ds
     else Status ds' = (Status ds)\<lparr>CurrentReplicas := Some (stsCurrentReplicas s)\<rparr>"
    using reconcileSTS_success [OF assms] by blast
  ultimately show ?thesis
    by (intro exI [of _ s]) (simp add: stsFollows_def stays_def objkey_def split: if_splits)
qed

text \<open>
  Property C27. A new stateful set is acceptable to Kubernetes: volumes, containers and mount
  paths of its pods are distinct and every mount has a volume, counting the claim template. Its
  selector matches the labels of its pods exactly if the user's labels do not redefine the name
  or instance label. The claims its controller will look for, template name, set name and
  ordinal joined by dashes, are those the volume step creates.
\<close>

theorem new_statefulset_acceptable:
  assumes run: "createDSStatefulSet fl env ds svcName w = (Ret s, w')"
  shows "podWellFormed [''data''] (ptSpec (stsTemplate s)) \<and>
    (stsSelector s \<subseteq>\<^sub>m mapGet (ptLabels (stsTemplate s)) \<longleftrightarrow>
       (\<forall>v. mapGet (specLabels (Spec ds)) labelName = Some v \<longrightarrow> v = ''ds'') \<and>
       (\<forall>v. mapGet (specLabels (Spec ds)) labelInstance = Some v \<longrightarrow> v = dsName ds)) \<and>
    (\<forall>i. map (\<lambda>t. Name (ObjectMeta t) @ ''-'' @ Name (ObjectMeta s) @ ''-'' @ formatInt i) (stsVolumeClaimTemplates s) =
       [dataClaimName (dsName ds) i])"
proof (intro conjI allI)
  note f = createDSStatefulSet_fields [OF run]
  from f(8) show "podWellFormed [''data''] (ptSpec (stsTemplate s))" by (simp add: stsPod_def)
  show "stsSelector s \<subseteq>\<^sub>m mapGet (ptLabels (stsTemplate s)) \<longleftrightarrow>
       (\<forall>v. mapGet (specLabels (Spec ds)) labelName = Some v \<longrightarrow> v = ''ds'') \<and>
       (\<forall>v. mapGet (specLabels (Spec ds)) labelInstance = Some v \<longrightarrow> v = dsName ds)"
    by (simp add: f(4,5) selector_matches_createLabels)
  fix i
  from run show "map (\<lambda>t. Name (ObjectMeta t) @ ''-'' @ Name (ObjectMeta s) @ ''-'' @ formatInt i) (stsVolumeClaimTemplates s) =
       [dataClaimName (dsName ds) i]"
    by (auto elim!: createDSStatefulSet_Ret simp: stsTemplateFor_def zeroMeta_def dataClaimName_def)
qed

text \<open>
  Updating an existing stateful set is idempotent, so that a reconciliation without
  a change of the resource writes nothing, and it leaves everything alone but the replica count
  and the two images. It returns exactly if the set has a container and an init container.
\<close>

theorem update_statefulset:
  "(Containers (stsPod s) \<noteq> [] \<and> InitContainers (stsPod s) \<noteq> [] \<longleftrightarrow>
      (\<exists>y ds'. updateDSStatefulSet ds s w = (Ret (None, y, ds', True), w))) \<and>
   (updateDSStatefulSet ds s w = (Ret (None, y, ds', True), w) \<longrightarrow>
      updateDSStatefulSet ds y w = (Ret (None, y, ds', True), w) \<and>
      ObjectMeta y = ObjectMeta s \<and> stsSelector y = stsSelector s \<and> Volumes (stsPod y) = Volumes (stsPod s) \<and>
      stsVolumeClaimTemplates y = stsVolumeClaimTemplates s \<and>
      tl (Containers (stsPod y)) = tl (Containers (stsPod s)) \<and>
      tl (InitContainers (stsPod y)) = tl (InitContainers (stsPod s)))"
proof (cases "Containers (stsPod s) \<noteq> [] \<and> InitContainers (stsPod s) \<noteq> []")
  case True
  then obtain c cs i ics where s: "Containers (stsPod s) = c # cs" "InitContainers (stsPod s) = i # ics"
    by (auto simp: neq_Nil_conv)
  note run = updateDSStatefulSet_eq [OF s, of ds w]
  have "updateDSStatefulSet ds y w = (Ret (None, y, ds', True), w)"
    if "updateDSStatefulSet ds s w = (Ret (None, y, ds', True), w)"
    using that run updateDSStatefulSet_eq [of y "c\<lparr>Image := tImage (PodTemplate (Spec ds))\<rparr>" cs
        "i\<lparr>Image := tImage (PodTemplate (Spec ds))\<rparr>" ics ds w]
    by (auto simp: stsPod_def)
  with True run s show ?thesis by (auto simp: stsPod_def)
next
  case False
  then show ?thesis using updateDSStatefulSet_Ret [of ds s w None _ _ True w] by fastforce
qed

text \<open>
  With debug containers switched on, a change of the image does not reach the
  directory: the update sets the image of the first container, which is the debug side car, and
  the container named \<open>ds\<close> keeps the image it was created with.
\<close>

theorem debug_container_blocks_image_update:
  assumes debug: "DebugContainer fl" and new: "createDSStatefulSet fl env ds svcName w = (Ret s, w')"
    and upd: "updateDSStatefulSet ds2 s u = (Ret (e, y, ds3, b), u')"
  shows "map (\<lambda>c. (cName c, Image c)) (Containers (stsPod y)) =
    [(''debug'', tImage (PodTemplate (Spec ds2))), (''ds'', tImage (PodTemplate (Spec ds)))]"
proof -
  from new debug obtain c where "s = injectDebugContainers (stsTemplateFor ds svcName c) (stsVolumeMounts ds)
      (tImage (PodTemplate (Spec ds)))"
    by (auto elim: createDSStatefulSet_Ret)
  with updateDSStatefulSet_Ret [OF upd] show ?thesis
    by (auto simp: injectDebugContainers_def stsTemplateFor_def stsPod_def stsPodSpec_def zeroPodSpec_def Let_def
        stsMainContainer_def zeroContainer_def)
qed

section \<open>Sample runs\<close>

definition plainFlags :: flags where
  "plainFlags = \<lparr>DevMode = False, DebugContainer = False\<rparr>"

definition sampleSTS :: statefulSet where
  "sampleSTS = stsTemplateFor sampleDS ''idrepo'' \<lparr>DataSource = None, pvcOther = ''5Gi''\<rparr>"

lemma sampleVCT:
  assumes "mSnaps w = []"
  shows "setVolumeClaimTemplateFromSnapshot memEnv sampleDS w = (Ret \<lparr>DataSource = None, pvcOther = ''5Gi''\<rparr>, w)"
proof -
  have "getSnapshotList memEnv sampleDS w = (Ret (Inr []), w)"
    using assms by (simp add: getSnapshotList_def bindM_def callM_def ret_def mem_defs Let_def sortBy_def)
  then show ?thesis
    by (simp add: setVolumeClaimTemplateFromSnapshot_def bindM_def ret_def Let_def sample_defs latestSentinel_def)
qed

lemma sampleSTS_create:
  "mSnaps w = [] \<Longrightarrow> createDSStatefulSet fl memEnv sampleDS ''idrepo'' w =
    (Ret (if DebugContainer fl then injectDebugContainers sampleSTS (stsVolumeMounts sampleDS) ''ds:7'' else sampleSTS), w)"
  using sampleVCT [of w]
  by (simp add: createDSStatefulSet_def bindM_def ret_def Let_def sampleSTS_def) (simp add: sample_defs)

definition ownedSTS :: statefulSet where
  "ownedSTS = sampleSTS\<lparr>ObjectMeta := (ObjectMeta sampleSTS)\<lparr>OwnerReferences := snd (memRef True KDs (ObjectMeta sampleDS) (ObjectMeta sampleSTS))\<rparr>\<rparr>"

lemma objkey_ownedSTS: "objkey ownedSTS = (''prod'', ''idrepo'')"
  by (simp add: ownedSTS_def sampleSTS_def stsTemplateFor_def objkey_def zeroMeta_def sampleDS_def)

lemma sampleSTS_run:
  assumes "mSnaps w = []" and "lookupObj (mSts w) (''prod'', ''idrepo'') = None"
  shows "reconcileSTS plainFlags memEnv sampleDS ''idrepo'' w =
    (Ret (None, sampleDS), w\<lparr>mSts := upsert (stamp (mClock w) ownedSTS) (mSts w)\<rparr>)"
proof -
  let ?x = "newSTS ''prod'' ''idrepo''"
  have f: "stsMutate plainFlags memEnv ''idrepo'' ?x (sampleDS, False) w = (Ret (None, ownedSTS, sampleDS, False), w)"
    using sampleSTS_create [OF assms(1), of plainFlags]
    by (simp add: stsMutate_def isZero_def bindM_def ret_def plainFlags_def ownedSTS_def memEnv_def split: prod.splits)
  have key: "objkey ?x = (''prod'', ''idrepo'')" by simp
  note cou = mem_cou_fresh [where get = mSts and f = "stsMutate plainFlags memEnv ''idrepo''" and x = ?x, OF _ f]
  have "dsNamespace sampleDS = ''prod''" "dsName sampleDS = ''idrepo''" by (simp_all add: sampleDS_def)
  moreover have "stsClient memEnv = memClient mSts (\<lambda>xs w. w\<lparr>mSts := xs\<rparr>) keepStamp keepStamp" by (simp add: memEnv_def)
  ultimately show ?thesis
    using cou [where put = "\<lambda>xs w. w\<lparr>mSts := xs\<rparr>" and mU = keepStamp and mS = keepStamp] assms(2)
    by (simp add: reconcileSTS_def bindM_def ret_def objkey_ownedSTS)
qed

theorem statefulset_follows_witness:
  "reconcileSTS plainFlags memEnv sampleDS ''idrepo'' emptyMem =
     (Ret (None, sampleDS), emptyMem\<lparr>mSts := [stamp 1000 ownedSTS]\<rparr>) \<and>
   (\<exists>s. statefulsets (memView (emptyMem\<lparr>mSts := [stamp 1000 ownedSTS]\<rparr>)) (''prod'', ''idrepo'') = Some s \<and>
      stsReplicas s = Some 2)"
proof -
  have run: "reconcileSTS plainFlags memEnv sampleDS ''idrepo'' emptyMem =
     (Ret (None, sampleDS), emptyMem\<lparr>mSts := [stamp 1000 ownedSTS]\<rparr>)"
    using sampleSTS_run [of emptyMem] by (simp add: emptyMem_def upsert_def dropKey_def)
  from statefulset_follows [OF memEnv_documented run] run show ?thesis
    by (auto simp: sample_defs)
qed

theorem new_statefulset_acceptable_witness:
  "createDSStatefulSet plainFlags memEnv sampleDS ''idrepo'' emptyMem = (Ret sampleSTS, emptyMem) \<and>
   podWellFormed [''data''] (ptSpec (stsTemplate sampleSTS)) \<and> stsSelector sampleSTS \<subseteq>\<^sub>m mapGet (ptLabels (stsTemplate sampleSTS))"
proof -
  have run: "createDSStatefulSet plainFlags memEnv sampleDS ''idrepo'' emptyMem = (Ret sampleSTS, emptyMem)"
    using sampleSTS_create [of emptyMem plainFlags] by (simp add: emptyMem_def plainFlags_def)
  from new_statefulset_acceptable [OF run] run show ?thesis by (simp add: sample_defs)
qed

theorem update_statefulset_witness:
  "\<exists>y ds'. updateDSStatefulSet sampleDS sampleSTS () = (Ret (None, y, ds', True), ()) \<and>
     updateDSStatefulSet sampleDS y () = (Ret (None, y, ds', True), ())"
proof -
  have "Containers (stsPod sampleSTS) \<noteq> [] \<and> InitContainers (stsPod sampleSTS) \<noteq> []"
    by (simp add: sampleSTS_def stsPodSpec_def)
  with update_statefulset [of sampleSTS sampleDS "()"] show ?thesis by blast
qed

theorem debug_container_blocks_image_update_witness:
  "let ds2 = sampleDS\<lparr>Spec := sampleSpec\<lparr>PodTemplate := sampleTemplate\<lparr>tImage := ''ds:8''\<rparr>\<rparr>\<rparr>;
       s = injectDebugContainers sampleSTS (stsVolumeMounts sampleDS) ''ds:7'' in
   \<exists>y ds3 b. updateDSStatefulSet ds2 s () = (Ret (None, y, ds3, b), ()) \<and>
     map (\<lambda>c. (cName c, Image c)) (Containers (stsPod y)) = [(''debug'', ''ds:8''), (''ds'', ''ds:7'')]"
proof -
  let ?fl = "plainFlags\<lparr>DebugContainer := True\<rparr>"
  let ?ds2 = "sampleDS\<lparr>Spec := sampleSpec\<lparr>PodTemplate := sampleTemplate\<lparr>tImage := ''ds:8''\<rparr>\<rparr>\<rparr>"
  let ?s = "injectDebugContainers sampleSTS (stsVolumeMounts sampleDS) ''ds:7''"
  have new: "createDSStatefulSet ?fl memEnv sampleDS ''idrepo'' emptyMem = (Ret ?s, emptyMem)"
    using sampleSTS_create [of emptyMem ?fl] by (simp add: emptyMem_def)
  obtain c cs i ics where "Containers (stsPod ?s) = c # cs" "InitContainers (stsPod ?s) = i # ics"
    by (auto simp: injectDebugContainers_def stsPod_def Let_def)
  from updateDSStatefulSet_eq [OF this, of ?ds2 "()"]
  obtain y ds3 where upd: "updateDSStatefulSet ?ds2 ?s () = (Ret (None, y, ds3, True), ())" by blast
  from debug_container_blocks_image_update [OF _ new upd] upd show ?thesis
    by (auto simp: Let_def sample_defs)
qed

end
