(* ===== verification/Proxies.thy ===== *)
theory Proxies
  imports Services Sts
begin

text \<open>
  \<open>src/controllers/proxy.go\<close>: the deployment of the LDAP proxy, created, updated or removed
  with the \<open>enabled\<close> switch. Updating makes the deployment's replica count an alias of the
  resource's field; the API server returns the count it was sent, so the alias is not
  observable and a copy stands for it.
\<close>

section \<open>Model\<close>

definition proxyBootstrapEnv :: "directoryService \<Rightarrow> envVar list" where
  "proxyBootstrapEnv ds =
     [\<lparr>envName = ''DSPROXY_BOOTSTRAP_REPLICATION_SERVERS'', envValue = dsName ds @ ''-0.'' @ dsName ds @ '':4444'',
       envValueFrom = None\<rparr>,
      \<lparr>envName = ''DSPROXY_PRIMARY_GROUP_ID'', envValue = PrimaryGroupID (Proxy (Spec ds)), envValueFrom = None\<rparr>]"

definition proxyInitContainer :: "directoryService \<Rightarrow> container" where
  "proxyInitContainer ds =
     zeroContainer\<lparr>cName := ''initialize'', Image := proxyImage (Proxy (Spec ds)), ImagePullPolicy := ''IfNotPresent'',
       Command := [''/opt/opendj/scripts/init-and-restore.sh''],
       VolumeMounts := [\<lparr>vmName = ''data'', MountPath = DSDataPath\<rparr>,
         \<lparr>vmName = ''admin-password'', MountPath = ''/var/run/secrets/admin''\<rparr>,
         \<lparr>vmName = ''monitor-password'', MountPath = ''/var/run/secrets/monitor''\<rparr>],
       Resources := proxyResources (Proxy (Spec ds)),
       Env := [\<lparr>envName = ''DS_SET_UID_ADMIN_AND_MONITOR_PASSWORDS'', envValue = ''true'', envValueFrom = None\<rparr>,
         \<lparr>envName = ''DS_UID_MONITOR_PASSWORD_FILE'',
          envValue = ''/var/run/secrets/monitor/'' @ Key (accountOf ds ''uid=monitor''), envValueFrom = None\<rparr>,
         \<lparr>envName = ''DS_UID_ADMIN_PASSWORD_FILE'',
          envValue = ''/var/run/secrets/admin/'' @ Key (accountOf ds ''uid=admin''), envValueFrom = None\<rparr>]
         @ proxyBootstrapEnv ds\<rparr>"

definition proxyMainContainer :: "directoryService \<Rightarrow> container" where
  "proxyMainContainer ds =
     zeroContainer\<lparr>cName := ''ds-proxy'', Image := proxyImage (Proxy (Spec ds)), ImagePullPolicy := ''IfNotPresent'',
       Args := [''start-ds''],
       VolumeMounts := [\<lparr>vmName = ''data'', MountPath = DSDataPath\<rparr>,
         \<lparr>vmName = ''ds-ssl-keypair'', MountPath = SSLKeyPath\<rparr>,
         \<lparr>vmName = ''ds-master-keypair'', MountPath = MasterKeyPath\<rparr>,
         \<lparr>vmName = ''truststore'', MountPath = TruststoreKeyPath\<rparr>],
       Resources := proxyResources (Proxy (Spec ds)),
       Env := proxyBootstrapEnv ds\<rparr>"

definition proxyAffinity :: "directoryService \<Rightarrow> podAffinity" where
  "proxyAffinity ds =
     \<lparr>NodeAffinityPreferred = [\<lparr>pstWeight = 100, pstMatchExpressions = [\<lparr>nsrKey = ''ds'', nsrOperator = ''Exists''\<rparr>]\<rparr>],
      PodAntiAffinityPreferred = [\<lparr>wpaWeight = 100, wpaMatchLabels = Map.empty,
        wpaMatchExpressions = [\<lparr>lsrKey = labelComponent, lsrOperator = ''In'',
          lsrValues = [mapIndex '''' (Some (proxyLabels ds)) labelComponent]\<rparr>],
        wpaTopologyKey = ''kubernetes.io/hostname''\<rparr>]\<rparr>"

definition proxyVolumes :: "directoryService \<Rightarrow> volume list" where
  "proxyVolumes ds =
     (let t = PodTemplate (Spec ds) in
      [\<lparr>volName = ''ds-master-keypair'', volSource = SecretVolume (MasterSecretName (Certificates t))\<rparr>,
       \<lparr>volName = ''ds-ssl-keypair'', volSource = SecretVolume (SSLSecretName (Certificates t))\<rparr>,
       \<lparr>volName = ''truststore'', volSource = SecretVolume (TruststoreSecretName (Certificates t))\<rparr>,
       \<lparr>volName = ''admin-password'', volSource = SecretVolume (SecretName (accountOf ds ''uid=admin''))\<rparr>,
       \<lparr>volName = ''monitor-password'', volSource = SecretVolume (SecretName (accountOf ds ''uid=monitor''))\<rparr>,
       \<lparr>volName = ''data'', volSource = EmptyDir\<rparr>])"

definition proxyPodSpec :: "directoryService \<Rightarrow> podSpec" where
  "proxyPodSpec ds =
     zeroPodSpec\<lparr>Affinity := Some (proxyAffinity ds),
       Tolerations := [\<lparr>tolKey = ''WorkerDedicatedDS'', tolOperator = ''Exists'', tolValue = '''', tolEffect = ''''\<rparr>],
       InitContainers := [proxyInitContainer ds],
       Containers := [proxyMainContainer ds],
       SecurityContext := Some \<lparr>FSGroup = Some 0, RunAsUser = Some 11111, RunAsGroup = None,
         SELinuxOptions = None, WindowsOptions = None\<rparr>,
       Volumes := proxyVolumes ds\<rparr>"

definition createDSProxyDeployment :: "directoryService \<Rightarrow> deployment" where
  "createDSProxyDeployment ds =
     \<lparr>ObjectMeta = zeroMeta\<lparr>Labels := Some (proxyLabels ds), Name := proxyNameOf ds, Namespace := dsNamespace ds\<rparr>,
      depSelector = proxySelector ds,
      depReplicas = Some (proxyReplicas (Proxy (Spec ds))),
      depTemplate = \<lparr>ptLabels = Some (proxyLabels ds), ptSpec = proxyPodSpec ds\<rparr>,
      depStatusReplicas = 0, depStatusReadyReplicas = 0\<rparr>"

definition updateDSProxyDeployment ::
  "directoryService \<Rightarrow> deployment \<Rightarrow> ('w, goerr option \<times> deployment \<times> directoryService) M" where
  "updateDSProxyDeployment ds dep =
     (let dep = dep\<lparr>depReplicas := Some (proxyReplicas (Proxy (Spec ds)))\<rparr>;
          ds = ds\<lparr>Status := (Status ds)\<lparr>ProxyStatus := (ProxyStatus (Status ds))
            \<lparr>statusReadyReplicas := depStatusReadyReplicas dep, statusReplicas := depStatusReplicas dep\<rparr>\<rparr>\<rparr>;
          p = ptSpec (depTemplate dep) in
      bindM (setFirstImage (proxyImage (Proxy (Spec ds))) (Containers p)) (\<lambda>cs.
      bindM (setFirstImage (proxyImage (Proxy (Spec ds))) (InitContainers p)) (\<lambda>ics.
        ret (None, dep\<lparr>depTemplate := (depTemplate dep)\<lparr>ptSpec := p\<lparr>Containers := cs, InitContainers := ics\<rparr>\<rparr>\<rparr>, ds))))"

definition proxyMutate :: "'w env \<Rightarrow> ('w, deployment, directoryService) mutateFn" where
  "proxyMutate env dep ds =
     (if isZero (CreationTimestamp (ObjectMeta dep)) then ret (None, controlledBy env ds (createDSProxyDeployment ds), ds)
      else updateDSProxyDeployment ds dep)"

definition reconcileProxy :: "'w env \<Rightarrow> directoryService \<Rightarrow> ('w, goerr option \<times> directoryService) M" where
  "reconcileProxy env ds =
     (if \<not> proxyEnabled (Proxy (Spec ds)) then
        bindM (removeIfOwned env ds (depClient env) (dsNamespace ds, proxyNameOf ds)) (\<lambda>err. ret (err, ds))
      else
        bindM (kCreateOrUpdate (depClient env) (newDeployment (dsNamespace ds) (proxyNameOf ds)) ds (proxyMutate env))
          (\<lambda>(err, dep, ds).
            case err of None \<Rightarrow> ret (None, ds) | Some e \<Rightarrow> ret (Some (Wrap e ''unable to CreateOrUpdate deployment''), ds)))"

section \<open>Lemmas\<close>

lemma proxyPodSpec_wellFormed: "podWellFormed [] (proxyPodSpec ds)"
  by (simp add: podWellFormed_def proxyPodSpec_def zeroPodSpec_def podVolumeNames_def podContainers_def proxyVolumes_def
      proxyInitContainer_def proxyMainContainer_def zeroContainer_def path_defs Let_def)

lemma objkey_createDSProxyDeployment: "objkey (createDSProxyDeployment ds) = (dsNamespace ds, proxyNameOf ds)"
  by (simp add: createDSProxyDeployment_def objkey_def zeroMeta_def)

lemma updateDSProxyDeployment_Ret:
  assumes "updateDSProxyDeployment ds d w = (Ret (e, y, ds'), w')"
  shows "e = None \<and> w' = w \<and> ObjectMeta y = ObjectMeta d \<and> depReplicas y = Some (proxyReplicas (Proxy (Spec ds))) \<and>
    ObjectMeta ds' = ObjectMeta ds \<and> dsKind ds' = dsKind ds \<and> Spec ds' = Spec ds \<and>
    ds' = ds\<lparr>Status := (Status ds)\<lparr>ProxyStatus := (ProxyStatus (Status ds))
      \<lparr>statusReadyReplicas := depStatusReadyReplicas d, statusReplicas := depStatusReplicas d\<rparr>\<rparr>\<rparr> \<and>
    (\<exists>c cs i ics. Containers (ptSpec (depTemplate y)) = c # cs \<and> InitContainers (ptSpec (depTemplate y)) = i # ics \<and>
       Image c = proxyImage (Proxy (Spec ds)) \<and> Image i = proxyImage (Proxy (Spec ds)))"
  using assms by (auto simp: updateDSProxyDeployment_def Let_def bindM_eq_Ret setFirstImage_Ret ret_apply)

interpretation proxyCallback: mutate_fn KDep deployments "\<lambda>m s. s\<lparr>deployments := m\<rparr>"
    "proxyMutate env" k "\<lambda>ds. (dsNamespace ds, proxyNameOf ds) = k" for env k
proof (unfold_locales, goal_cases)
  case (1 ds y w e y' ds' w')
  then show ?case
    using updateDSProxyDeployment_Ret [of ds y w e y' ds' w']
    by (auto simp: proxyMutate_def ret_apply objkey_createDSProxyDeployment split: if_splits) (simp_all add: objkey_def)
qed

lemma proxyMutate_quiet: "pres (stays K view) (proxyMutate env d ds)"
  unfolding proxyMutate_def updateDSProxyDeployment_def Let_def setFirstImage_def
  by (auto intro!: frame.pres_bindM frame.pres_ret frame.pres_panic split: list.splits)

lemma reconcileProxy_stays:
  assumes env: "env_documented view env" and k: "(KDep, dsNamespace ds, proxyNameOf ds) \<in> K"
  shows "pres (stays K view) (reconcileProxy env ds)"
proof -
  note kc = env_clients(4) [OF env]
  have "pres (stays K view) (removeIfOwned env ds (depClient env) (dsNamespace ds, proxyNameOf ds))"
  proof (rule removeIfOwned_stays [OF env depK.get_stays [OF kc]])
    fix x w w1
    assume "kGet (depClient env) (dsNamespace ds, proxyNameOf ds) w = (Inr x, w1)"
    with depK.get_Inr [OF kc] k show "pres (stays K view) (callM (kDelete (depClient env) x))"
      by (intro depK.delete_stays [OF kc]) fastforce
  qed
  then show ?thesis
    unfolding reconcileProxy_def using k
    by (auto intro!: frame.pres_bindM frame.pres_ret depK.cou_stays [OF kc] proxyMutate_quiet split: option.splits)
qed

text \<open>The resource in hand keeps its metadata and specification.\<close>

definition sameResource :: "directoryService \<Rightarrow> directoryService \<Rightarrow> bool" where
  "sameResource ds ds' \<longleftrightarrow> ObjectMeta ds' = ObjectMeta ds \<and> dsKind ds' = dsKind ds \<and> Spec ds' = Spec ds"

definition proxyFollows :: "directoryService \<Rightarrow> deployment \<Rightarrow> bool" where
  "proxyFollows ds d \<longleftrightarrow> depReplicas d = Some (proxyReplicas (Proxy (Spec ds))) \<and>
     Containers (ptSpec (depTemplate d)) \<noteq> [] \<and> InitContainers (ptSpec (depTemplate d)) \<noteq> [] \<and>
     Image (hd (Containers (ptSpec (depTemplate d)))) = proxyImage (Proxy (Spec ds)) \<and>
     Image (hd (InitContainers (ptSpec (depTemplate d)))) = proxyImage (Proxy (Spec ds))"

lemma proxyFollows_acc: "proxyFollows ds y \<Longrightarrow> depAcc old y z \<Longrightarrow> proxyFollows ds z"
  using same_images_hd [of "Containers (ptSpec (depTemplate z))" "Containers (ptSpec (depTemplate y))"]
    same_images_hd [of "InitContainers (ptSpec (depTemplate z))" "InitContainers (ptSpec (depTemplate y))"]
  by (auto simp: proxyFollows_def depAcc_def podKept_def)

lemma proxyFollows_created: "proxyFollows ds (controlledBy env ds (createDSProxyDeployment ds))"
  by (simp add: proxyFollows_def controlledBy_def createDSProxyDeployment_def proxyPodSpec_def proxyMainContainer_def
      proxyInitContainer_def)

lemma proxyMutate_follows:
  assumes "proxyMutate env d ds w = (Ret (e, y, ds'), w')"
  shows "e = None \<and> proxyFollows ds y \<and> sameResource ds ds' \<and>
    (if created d then ProxyStatus (Status ds') = (ProxyStatus (Status ds))
        \<lparr>statusReadyReplicas := depStatusReadyReplicas d, statusReplicas := depStatusReplicas d\<rparr> else ds' = ds)"
proof (cases "created d")
  case True
  with assms have "updateDSProxyDeployment ds d w = (Ret (e, y, ds'), w')" by (simp add: proxyMutate_def created_def)
  from updateDSProxyDeployment_Ret [OF this] True show ?thesis by (auto simp: proxyFollows_def sameResource_def)
next
  case False
  with assms show ?thesis
    by (auto simp: proxyMutate_def created_def ret_apply sameResource_def proxyFollows_created)
qed

text \<open>A step either leaves the resource's metadata and specification alone or reports nothing back.\<close>

lemma reconcileProxy_same:
  assumes env: "env_documented view env" and run: "reconcileProxy env ds w = (Ret (None, ds'), w')"
  shows "sameResource ds ds'"
proof (cases "proxyEnabled (Proxy (Spec ds))")
  case True
  with run obtain d where cou: "kCreateOrUpdate (depClient env) (newDeployment (dsNamespace ds) (proxyNameOf ds)) ds (proxyMutate env) w =
      (Ret (None, d, ds'), w')"
    by (auto simp: reconcileProxy_def bindM_eq_Ret ret_apply split: option.splits)
  from env_clients(4) [OF env] proxyMutate_quiet cou show ?thesis
    by (cases rule: depK.cou_success) (auto dest: proxyMutate_follows)
next
  case False
  with run show ?thesis by (auto simp: reconcileProxy_def bindM_eq_Ret ret_apply sameResource_def)
qed

lemma proxyMutate_status:
  assumes "proxyMutate env d ds w = (Ret (e, y, ds'), w')"
  shows "\<exists>p. Status ds' = (Status ds)\<lparr>ProxyStatus := p\<rparr>"
proof (cases "created d")
  case True
  with assms have "updateDSProxyDeployment ds d w = (Ret (e, y, ds'), w')" by (simp add: proxyMutate_def created_def)
  from updateDSProxyDeployment_Ret [OF this] show ?thesis by auto
next
  case False
  with assms show ?thesis by (auto simp: proxyMutate_def created_def ret_apply intro: exI [of _ "ProxyStatus (Status ds)"])
qed

text \<open>Of the status only the part about the proxy changes.\<close>

lemma reconcileProxy_status:
  assumes env: "env_documented view env" and run: "reconcileProxy env ds w = (Ret (None, ds'), w')"
  shows "\<exists>p. Status ds' = (Status ds)\<lparr>ProxyStatus := p\<rparr>"
proof (cases "proxyEnabled (Proxy (Spec ds))")
  case True
  with run obtain d where cou: "kCreateOrUpdate (depClient env) (newDeployment (dsNamespace ds) (proxyNameOf ds)) ds (proxyMutate env) w =
      (Ret (None, d, ds'), w')"
    by (auto simp: reconcileProxy_def bindM_eq_Ret ret_apply split: option.splits)
  from env_clients(4) [OF env] proxyMutate_quiet cou show ?thesis
    by (cases rule: depK.cou_success) (auto dest: proxyMutate_status)
next
  case False
  with run have "ds' = ds" by (auto simp: reconcileProxy_def bindM_eq_Ret ret_apply)
  then show ?thesis by (auto intro: exI [of _ "ProxyStatus (Status ds)"])
qed

text \<open>
  With the proxy enabled, a successful step leaves a deployment
  \<open><name>-proxy\<close> with the requested replicas and image in the cluster; the status takes over
  the replica counts of a deployment that existed before. No other object changes.
\<close>

theorem proxy_follows:
  assumes env: "env_documented view env" and on: "proxyEnabled (Proxy (Spec ds))"
    and run: "reconcileProxy env ds w = (Ret (None, ds'), w')"
  shows "\<exists>d. deployments (view w') (dsNamespace ds, dsName ds @ ''-proxy'') = Some d \<and>
    depReplicas d = Some (proxyReplicas (Proxy (Spec ds))) \<and>
    Containers (ptSpec (depTemplate d)) \<noteq> [] \<and> Image (hd (Containers (ptSpec (depTemplate d)))) = proxyImage (Proxy (Spec ds)) \<and>
    (case deployments (view w) (dsNamespace ds, dsName ds @ ''-proxy'') of
       None \<Rightarrow> ds' = ds
     | Some old \<Rightarrow> statusReplicas (ProxyStatus (Status ds')) = depStatusReplicas old \<and>
         statusReadyReplicas (ProxyStatus (Status ds')) = depStatusReadyReplicas old) \<and>
    same_except {(KDep, dsNamespace ds, dsName ds @ ''-proxy'')} (view w) (view w')"
proof -
  let ?x = "newDeployment (dsNamespace ds) (proxyNameOf ds)"
  from run on obtain d where cou: "kCreateOrUpdate (depClient env) ?x ds (proxyMutate env) w = (Ret (None, d, ds'), w')"
    by (auto simp: reconcileProxy_def bindM_eq_Ret ret_apply split: option.splits)
  have "stays {(KDep, dsNamespace ds, proxyNameOf ds)} view w w'"
    by (rule presD [OF reconcileProxy_stays [OF env] run]) simp
  then have same: "same_except {(KDep, dsNamespace ds, dsName ds @ ''-proxy'')} (view w) (view w')"
    by (simp add: stays_def proxyNameOf_def)
  from env_clients(4) [OF env] proxyMutate_quiet cou show ?thesis
  proof (cases rule: depK.cou_success)
    case (existing cur w1 w2 y)
    note m = proxyMutate_follows [OF existing(5)]
    from existing(9) m have "proxyFollows ds d" by (auto dest: proxyFollows_acc)
    with existing m same show ?thesis by (auto simp: proxyNameOf_def proxyFollows_def)
  next
    case (fresh w1 w2 y)
    note m = proxyMutate_follows [OF fresh(3)]
    have "\<not> created ?x" by (simp add: created_def isZero_def)
    moreover from fresh(7) m have "proxyFollows ds d" by (auto dest: proxyFollows_acc)
    ultimately show ?thesis using fresh m same by (auto simp: proxyNameOf_def proxyFollows_def)
  qed
qed

text \<open>
  With the proxy disabled, somebody else's deployment of that name is safe: if no
  controller reference of it points to this resource, the step changes nothing in the cluster,
  however it ends. If the deployment has no controller at all, the operator panics on the missing
  reference whenever it can read the deployment.
\<close>

theorem foreign_proxy_untouched:
  assumes env: "env_documented view env" and off: "\<not> proxyEnabled (Proxy (Spec ds))"
    and d: "deployments (view w) (dsNamespace ds, dsName ds @ ''-proxy'') = Some d"
    and foreign: "\<forall>r \<in> set (OwnerReferences (ObjectMeta d)). orController r \<longrightarrow> orUID r \<noteq> UID (ObjectMeta ds)"
    and run: "reconcileProxy env ds w = (r, w')"
  shows "view w' = view w \<and>
    ((\<forall>r \<in> set (OwnerReferences (ObjectMeta d)). \<not> orController r) \<longrightarrow>
       r = Panic NilDeref \<or> (\<exists>e. r = Ret (Some e, ds)))"
proof -
  let ?k = "(dsNamespace ds, proxyNameOf ds)"
  note kc = env_clients(4) [OF env]
  obtain g w1 where g: "kGet (depClient env) ?k w = (g, w1)" by (cases "kGet (depClient env) ?k w")
  have v1: "view w1 = view w" by (rule depK.get_view [OF kc g])
  show ?thesis
  proof (cases g)
    case (Inl e)
    with g depK.get_NotFound [OF kc, of ?k w w1] d have "e \<noteq> NotFound" by (auto simp: proxyNameOf_def)
    with g Inl run off v1 show ?thesis
      by (auto simp: reconcileProxy_def removeIfOwned_def bindM_def callM_def ret_def)
  next
    case (Inr x)
    with g depK.get_Inr [OF kc, of ?k w x w1] d have x: "x = d" by (simp add: proxyNameOf_def)
    from env have refs: "refs_documented env" by (simp add: env_documented_def)
    show ?thesis
    proof (cases "GetControllerOf env (ObjectMeta d)")
      case None
      with g Inr x run off v1 show ?thesis
        by (simp add: reconcileProxy_def removeIfOwned_def bindM_def callM_def panic_def)
    next
      case (Some o1)
      with refs have "o1 \<in> set (OwnerReferences (ObjectMeta d))" "orController o1" unfolding refs_documented_def by blast+
      with foreign have o1: "orUID o1 \<noteq> UID (ObjectMeta ds)"
        "\<not> (\<forall>r \<in> set (OwnerReferences (ObjectMeta d)). \<not> orController r)" by auto
      with g Inr x run off v1 Some show ?thesis
        by (auto simp: reconcileProxy_def removeIfOwned_def bindM_def callM_def ret_def)
    qed
  qed
qed

section \<open>Sample runs\<close>

definition proxyDS :: directoryService where
  "proxyDS = sampleDS\<lparr>Spec := sampleSpec\<lparr>Proxy := (Proxy sampleSpec)\<lparr>proxyEnabled := True\<rparr>\<rparr>\<rparr>"

theorem proxy_follows_witness:
  "\<exists>ds' w'. reconcileProxy memEnv proxyDS emptyMem = (Ret (None, ds'), w') \<and>
     (\<exists>d. deployments (memView w') (''prod'', ''idrepo-proxy'') = Some d \<and> depReplicas d = Some 1)"
proof -
  let ?x = "newDeployment ''prod'' ''idrepo-proxy''"
  have ns: "dsNamespace proxyDS = ''prod''" "proxyNameOf proxyDS = ''idrepo-proxy''" "proxyEnabled (Proxy (Spec proxyDS))"
    "dsName proxyDS = ''idrepo''" "proxyReplicas (Proxy (Spec proxyDS)) = 1"
    by (simp_all add: proxyDS_def proxyNameOf_def sample_defs)
  have f: "proxyMutate memEnv ?x proxyDS emptyMem =
      (Ret (None, controlledBy memEnv proxyDS (createDSProxyDeployment proxyDS), proxyDS), emptyMem)"
    by (simp add: proxyMutate_def isZero_def ret_def)
  have cl: "depClient memEnv = memClient mDeps (\<lambda>xs w. w\<lparr>mDeps := xs\<rparr>) keepStamp keepStamp" by (simp add: memEnv_def)
  note cou = mem_cou_fresh [where get = mDeps and f = "proxyMutate memEnv" and x = ?x, OF _ f]
  obtain w' where run: "reconcileProxy memEnv proxyDS emptyMem = (Ret (None, proxyDS), w')"
    using cou [where put = "\<lambda>xs w. w\<lparr>mDeps := xs\<rparr>" and mU = keepStamp and mS = keepStamp]
    by (auto simp: reconcileProxy_def cl bindM_def ret_def ns objkey_createDSProxyDeployment emptyMem_def)
  from proxy_follows [OF memEnv_documented ns(3) run] run show ?thesis by (auto simp: ns)
qed

definition orphanProxy :: deployment where
  "orphanProxy = stamp 70 (newDeployment ''prod'' ''idrepo-proxy'')"

theorem foreign_proxy_untouched_witness:
  "let w = emptyMem\<lparr>mDeps := [orphanProxy]\<rparr> in
   \<exists>r w'. reconcileProxy memEnv sampleDS w = (r, w') \<and> memView w' = memView w \<and>
     (r = Panic NilDeref \<or> (\<exists>e. r = Ret (Some e, sampleDS)))"
proof -
  let ?w = "emptyMem\<lparr>mDeps := [orphanProxy]\<rparr>"
  obtain r w' where run: "reconcileProxy memEnv sampleDS ?w = (r, w')" by (cases "reconcileProxy memEnv sampleDS ?w")
  have "deployments (memView ?w) (dsNamespace sampleDS, dsName sampleDS @ ''-proxy'') = Some orphanProxy"
    by (simp add: memView_def lookupObj_Cons orphanProxy_def sampleDS_def)
  moreover have "OwnerReferences (ObjectMeta orphanProxy) = []" by (simp add: orphanProxy_def stamp_def)
  moreover have "\<not> proxyEnabled (Proxy (Spec sampleDS))" by (simp add: sample_defs)
  ultimately show ?thesis
    using foreign_proxy_untouched [OF memEnv_documented, of sampleDS ?w orphanProxy r w'] run by (auto simp: Let_def)
qed

end
