(* ===== verification/Ldap.thy ===== *)
theory Ldap
  imports Util
begin

text \<open>
  \<open>src/pkg/ldap/client.go\<close>: the operator's LDAP client, over the library's connections
  (\<open>env\<close>), and its conversion of directory time stamps. A connection that was never opened is
  a nil pointer: using it panics.
\<close>

section \<open>Connections\<close>

record DSConnection =
  URL :: string
  DN :: string
  Password :: string
  ldap :: "conn option"

text \<open>An error made with \<open>fmt.Errorf\<close> from the text of another is written \<open>Wrap\<close>.\<close>

definition Connect :: "'w env \<Rightarrow> DSConnection \<Rightarrow> ('w, goerr option \<times> DSConnection) M" where
  "Connect env ds =
     bindM (callM (DialURL (ldapLib env) (URL ds))) (\<lambda>r.
       case r of
         Inl err \<Rightarrow> ret (Some (Wrap err (''Cant open ldap connection to '' @ URL ds @ '' using dn '' @ DN ds)), ds)
       | Inr l \<Rightarrow>
           bindM (callM (Bind (ldapLib env) l (DN ds) (Password ds))) (\<lambda>err.
             case err of
               Some e \<Rightarrow>
                 deferM (LdapClose (ldapLib env) (Some l))
                   (ret (Some (Wrap e (''Cant bind ldap connection to '' @ URL ds @ '' wiht '' @ DN ds)), ds))
             | None \<Rightarrow> ret (None, ds\<lparr>ldap := Some l\<rparr>)))"

definition onConn :: "DSConnection \<Rightarrow> (conn \<Rightarrow> ('w, 'a) M) \<Rightarrow> ('w, 'a) M" where
  "onConn ds f = (case ldap ds of None \<Rightarrow> panic NilDeref | Some l \<Rightarrow> f l)"

definition getEntry :: "'w env \<Rightarrow> DSConnection \<Rightarrow> string \<Rightarrow> ('w, goerr + ldapEntry) M" where
  "getEntry env ds dn =
     (let req = \<lparr>srBaseDN = ''ou=admins,ou=identities'', srSizeLimit = 0, srFilter = ''(uid='' @ dn @ '')'',
                 srAttributes = [''dn'', ''cn'', ''uid'']\<rparr> in
      bindM (onConn ds (\<lambda>l. callM (LdapSearch (ldapLib env) l req))) (\<lambda>r.
        case r of Inl err \<Rightarrow> ret (Inl err)
        | Inr entries \<Rightarrow> (case entries of [] \<Rightarrow> panic IndexOutOfRange | x # _ \<Rightarrow> ret (Inr x))))"

text \<open>The deferred \<open>Close\<close> is registered before the error of the dial is looked at.\<close>

definition BindPassword :: "'w env \<Rightarrow> DSConnection \<Rightarrow> string \<Rightarrow> string \<Rightarrow> ('w, goerr option) M" where
  "BindPassword env ds dn password =
     bindM (callM (DialURL (ldapLib env) (URL ds))) (\<lambda>r.
       deferM (LdapClose (ldapLib env) (case r of Inl _ \<Rightarrow> None | Inr tldap \<Rightarrow> Some tldap))
         (case r of Inl err \<Rightarrow> ret (Some err) | Inr tldap \<Rightarrow> callM (Bind (ldapLib env) tldap dn password)))"

definition UpdatePassword :: "'w env \<Rightarrow> DSConnection \<Rightarrow> string \<Rightarrow> string \<Rightarrow> ('w, goerr option) M" where
  "UpdatePassword env ds dn newPassword = onConn ds (\<lambda>l. callM (PasswordModify (ldapLib env) l dn '''' newPassword))"

definition purgeTaskDN :: "string \<Rightarrow> string" where
  "purgeTaskDN i = ''ds-recurring-task-id='' @ i @ ''-purge,cn=Recurring Tasks,cn=Tasks''"

definition backupTaskDN :: "string \<Rightarrow> string" where
  "backupTaskDN i = ''ds-recurring-task-id='' @ i @ ''-backup,cn=Recurring Tasks,cn=Tasks''"

definition createTask ::
  "'w env \<Rightarrow> DSConnection \<Rightarrow> string \<Rightarrow> string \<Rightarrow> string \<Rightarrow> string \<Rightarrow> string \<Rightarrow> int32 \<Rightarrow> ('w, goerr option) M" where
  "createTask env ds taskID taskDN cron backupPath taskObjClass purgeHours =
     (let req = \<lparr>arDN = taskDN, arAttributes =
        [(''objectclass'', [''top'', ''ds-task'', ''ds-recurring-task'', taskObjClass]),
         (''description'', [''task auto scheduled by ds-operator'']),
         (''ds-backup-location'', [backupPath]),
         (''ds-task-id'', [taskID]),
         (''ds-task-state'', [''RECURRING'']),
         (''ds-recurring-task-schedule'', [cron])]
        @ (if taskObjClass = ''ds-task-purge''
           then [(''ds-task-class-name'', [''org.opends.server.tasks.BackupPurgeTask'']),
                 (''ds-task-purge-older-than'', [formatInt (sint purgeHours) @ ''h''])]
           else [(''ds-task-class-name'', [''org.opends.server.tasks.BackupTask''])])
        @ [(''ds-task-backup-storage-property'',
            [''gs.credentials.path:/var/run/secrets/cloud-credentials-cache/gcp-credentials.json'',
             ''s3.keyId.env.var:AWS_ACCESS_KEY_ID'', ''s3.secret.env.var:AWS_SECRET_ACCESS_KEY'',
             ''az.accountName.env.var:AZURE_ACCOUNT_NAME'', ''az.accountKey.env.var:AZURE_ACCOUNT_KEY''])]\<rparr> in
      onConn ds (\<lambda>l. callM (LdapAdd (ldapLib env) l req)))"

text \<open>The search result is printed before the error is looked at; with an error it is nil.\<close>

definition GetMonitorData :: "'w env \<Rightarrow> DSConnection \<Rightarrow> ('w, goerr option) M" where
  "GetMonitorData env ds =
     (let req = \<lparr>srBaseDN = ''cn=monitor'', srSizeLimit = 100, srFilter = ''(objectclass=*)'', srAttributes = []\<rparr> in
      bindM (onConn ds (\<lambda>l. callM (LdapSearch (ldapLib env) l req))) (\<lambda>r.
      bindM (PrettyPrint (ldapLib env) (case r of Inl _ \<Rightarrow> None | Inr es \<Rightarrow> Some es)) (\<lambda>_.
        ret (case r of Inl err \<Rightarrow> Some err | Inr _ \<Rightarrow> None))))"

definition Close :: "'w env \<Rightarrow> DSConnection \<Rightarrow> ('w, unit) M" where
  "Close env ds = LdapClose (ldapLib env) (ldap ds)"

section \<open>Time stamps\<close>

text \<open>
  A point in time as its civil date in its own zone, for years that are not negative. The layout
  \<open>20060102150500\<close> of Go's \<open>time\<close> package reads: year, month, day, hour, \<^emph>\<open>second\<close> (the field
  \<open>05\<close>) and two literal zeros; there is no field for the minute.
\<close>

record civil =
  cYear :: nat
  cMonth :: nat
  cDay :: nat
  cHour :: nat
  cMinute :: nat
  cSecond :: nat

definition appendInt :: "nat \<Rightarrow> nat \<Rightarrow> string" where
  "appendInt width n = replicate (width - length (showNat n)) CHR ''0'' @ showNat n"

definition time2DirectoryTimeString :: "civil \<Rightarrow> string" where
  "time2DirectoryTimeString t =
     appendInt 4 (cYear t) @ appendInt 2 (cMonth t) @ appendInt 2 (cDay t) @ appendInt 2 (cHour t) @
     appendInt 2 (cSecond t) @ ''00''"

text \<open>Reading a fixed number of digits off the front.\<close>

fun getDigits :: "nat \<Rightarrow> nat \<Rightarrow> string \<Rightarrow> (nat \<times> string) option" where
  "getDigits 0 acc s = Some (acc, s)"
| "getDigits (Suc n) acc [] = None"
| "getDigits (Suc n) acc (c # cs) =
     (case digitVal c of None \<Rightarrow> None | Some d \<Rightarrow> getDigits n (10 * acc + d) cs)"

definition isLeap :: "nat \<Rightarrow> bool" where
  "isLeap y \<longleftrightarrow> y mod 4 = 0 \<and> (y mod 100 \<noteq> 0 \<or> y mod 400 = 0)"

definition daysIn :: "nat \<Rightarrow> nat \<Rightarrow> nat" where
  "daysIn m y = (if m = 2 then (if isLeap y then 29 else 28) else if m \<in> {4, 6, 9, 11} then 30 else 31)"

definition directoryTime2Time :: "string \<Rightarrow> goerr + civil" where
  "directoryTime2Time dsTime =
     (let err = Inl (Errorf ''parsing time'') in
      case getDigits 4 0 dsTime of None \<Rightarrow> err | Some (y, s1) \<Rightarrow>
      case getDigits 2 0 s1 of None \<Rightarrow> err | Some (m, s2) \<Rightarrow>
      if m = 0 \<or> 12 < m then err else
      case getDigits 2 0 s2 of None \<Rightarrow> err | Some (d, s3) \<Rightarrow>
      case getDigits 2 0 s3 of None \<Rightarrow> err | Some (h, s4) \<Rightarrow>
      if 24 \<le> h then err else
      case getDigits 2 0 s4 of None \<Rightarrow> err | Some (sec, s5) \<Rightarrow>
      if 60 \<le> sec then err
      else if s5 \<noteq> ''00'' then err
      else if d < 1 \<or> daysIn m y < d then err
      else Inr \<lparr>cYear = y, cMonth = m, cDay = d, cHour = h, cMinute = 0, cSecond = sec\<rparr>)"

definition validCivil :: "civil \<Rightarrow> bool" where
  "validCivil t \<longleftrightarrow> cYear t < 10000 \<and> 1 \<le> cMonth t \<and> cMonth t \<le> 12 \<and> 1 \<le> cDay t \<and> cDay t \<le> daysIn (cMonth t) (cYear t) \<and>
     cHour t < 24 \<and> cMinute t < 60 \<and> cSecond t < 60"

lemma digitChar_zero: "digitChar 0 = CHR ''0''"
  by code_simp

lemma appendInt_two: "n < 100 \<Longrightarrow> appendInt 2 n = [digitChar (n div 10), digitChar (n mod 10)]"
  by (auto simp: appendInt_def showNat.simps [of n] showNat.simps [of "n div 10"] digitChar_zero)

lemma appendInt_four:
  assumes "n < 10000"
  shows "appendInt 4 n = [digitChar (n div 1000), digitChar (n div 100 mod 10), digitChar (n div 10 mod 10), digitChar (n mod 10)]"
proof -
  have a: "n div 10 div 10 = n div 100" "n div 100 div 10 = n div 1000" by (simp_all flip: div_mult2_eq)
  consider "n < 10" | "10 \<le> n" "n < 100" | "100 \<le> n" "n < 1000" | "1000 \<le> n" using assms by linarith
  then show ?thesis
    using assms
    by cases (auto simp: appendInt_def showNat.simps [of n] showNat.simps [of "n div 10"] showNat.simps [of "n div 100"]
        showNat.simps [of "n div 1000"] a digitChar_zero numeral_3_eq_3)
qed

lemma getDigits_unroll:
  "getDigits 2 acc s = getDigits (Suc (Suc 0)) acc s" "getDigits 4 acc s = getDigits (Suc (Suc (Suc (Suc 0)))) acc s"
  by (simp_all add: eval_nat_numeral)

lemma getDigits_two:
  assumes "n < 100"
  shows "getDigits 2 0 (appendInt 2 n @ s) = Some (n, s)"
  using assms unfolding appendInt_two [OF assms] getDigits_unroll by simp

lemma getDigits_four:
  assumes "n < 10000"
  shows "getDigits 4 0 (appendInt 4 n @ s) = Some (n, s)"
proof -
  have a: "n div 10 div 10 = n div 100" "n div 100 div 10 = n div 1000" by (simp_all flip: div_mult2_eq)
  have "10 * (n div 1000) + n div 100 mod 10 = n div 100" "10 * (n div 100) + n div 10 mod 10 = n div 10"
    "10 * (n div 10) + n mod 10 = n"
    unfolding a [symmetric] by simp_all
  moreover have "n div 1000 < 10" using assms by simp
  ultimately show ?thesis unfolding appendInt_four [OF assms] getDigits_unroll by simp
qed

lemma daysIn_le: "daysIn m y \<le> 31"
  by (simp add: daysIn_def)

text \<open>
  Property C33. Converting a time to a directory time stamp and back gives the same time with the
  minute set to zero. So the round trip is exact only for times on the full hour; for all others
  the minutes are lost. A time here is its calendar fields in UTC: the zone and the fractions of a
  second of a Go time, which the format drops as well, are not part of it.
\<close>

theorem directory_time_roundtrip:
  assumes t: "validCivil t"
  shows "directoryTime2Time (time2DirectoryTimeString t) = Inr (t\<lparr>cMinute := 0\<rparr>) \<and>
    (directoryTime2Time (time2DirectoryTimeString t) = Inr t \<longleftrightarrow> cMinute t = 0)"
proof -
  from t have b: "cYear t < 10000" "cMonth t < 100" "cDay t < 100" "cHour t < 100" "cSecond t < 100"
    using daysIn_le [of "cMonth t" "cYear t"] by (simp_all add: validCivil_def)
  have "directoryTime2Time (time2DirectoryTimeString t) = Inr (t\<lparr>cMinute := 0\<rparr>)"
    using t b by (cases t) (simp add: directoryTime2Time_def time2DirectoryTimeString_def getDigits_two getDigits_four validCivil_def)
  then show ?thesis by (cases t) auto
qed

theorem directory_time_roundtrip_witness:
  "let t = \<lparr>cYear = 2022, cMonth = 3, cDay = 14, cHour = 15, cMinute = 9, cSecond = 26\<rparr> in
   directoryTime2Time (time2DirectoryTimeString t) = Inr (t\<lparr>cMinute := 0\<rparr>)"
proof -
  have "validCivil \<lparr>cYear = 2022, cMonth = 3, cDay = 14, cHour = 15, cMinute = 9, cSecond = 26\<rparr>"
    by (simp add: validCivil_def daysIn_def)
  from directory_time_roundtrip [OF this] show ?thesis by (simp add: Let_def)
qed

section \<open>Effect of the client\<close>

lemma onConn_stays: "(\<And>l. pres (stays K view) (f l)) \<Longrightarrow> pres (stays K view) (onConn ds f)"
  by (auto simp: onConn_def intro: frame.pres_panic split: option.splits)

lemma Connect_stays: "env_documented view env \<Longrightarrow> pres (stays K view) (Connect env ds)"
  unfolding Connect_def
  by (auto intro!: frame.pres_bindM frame.pres_ret frame.pres_deferM env_ldap_stays split: sum.splits option.splits)

lemma BindPassword_stays: "env_documented view env \<Longrightarrow> pres (stays K view) (BindPassword env ds dn pw)"
  unfolding BindPassword_def
  by (auto intro!: frame.pres_bindM frame.pres_ret frame.pres_deferM env_ldap_stays split: sum.splits)

lemma UpdatePassword_stays: "env_documented view env \<Longrightarrow> pres (stays K view) (UpdatePassword env ds dn pw)"
  unfolding UpdatePassword_def by (auto intro!: onConn_stays env_ldap_stays)

lemma Close_stays: "env_documented view env \<Longrightarrow> pres (stays K view) (Close env ds)"
  unfolding Close_def by (rule env_ldap_stays)

lemma Connect_Ret:
  assumes "Connect env ds w = (Ret (e, ds'), w')"
  shows "(if e = None then \<exists>l. ds' = ds\<lparr>ldap := Some l\<rparr> else ds' = ds)"
  using assms
  by (auto simp: Connect_def bindM_def callM_def deferM_def ret_def split: sum.splits prod.splits option.splits result.splits)

end
