(* ===== verification/Passwords_Sync.thy ===== *)
theory Passwords_Sync
  imports Ldap
begin

text \<open>
  \<open>src/controllers/passwords.go\<close>: bringing the passwords of the service accounts in the
  directory in line with the secrets, at most every five minutes. The time of the last check is
  an annotation of the resource.
\<close>

section \<open>Model\<close>

definition PasswordCheckTimeSeconds :: int64 where
  "PasswordCheckTimeSeconds = 300"

definition LastPasswordCheckAnnotation :: string where
  "LastPasswordCheckAnnotation = ''directory.forgerock.io/last-password-check''"

definition PasswordUpdatedStatus :: string where
  "PasswordUpdatedStatus = ''password-updated-status''"

definition lookupSecret :: "'w env \<Rightarrow> string \<Rightarrow> string \<Rightarrow> string \<Rightarrow> ('w, goerr + string) M" where
  "lookupSecret env ns name key =
     bindM (callM (kGet (secretClient env) (ns, name))) (\<lambda>r.
       case r of Inl err \<Rightarrow> ret (Inl err) | Inr sec \<Rightarrow> ret (Inr (mapIndex '''' (Data sec) key)))"

text \<open>Whether the last check is too recent; a time that does not parse counts as 0.\<close>

definition checkedRecently :: "int64 \<Rightarrow> string \<Rightarrow> bool" where
  "checkedRecently now lastTime \<longleftrightarrow> lastTime \<noteq> '''' \<and>
     (let lastTimeInt = (case parseInt lastTime of Inl _ \<Rightarrow> 0 | Inr i \<Rightarrow> word_of_int i);
          elapsed = now - lastTimeInt in
      sint elapsed < sint PasswordCheckTimeSeconds)"

text \<open>One round of the loop over \<open>ds.Spec.Passwords\<close>.\<close>

definition updateOnePassword :: "'w env \<Rightarrow> directoryService \<Rightarrow> DSConnection \<Rightarrow> string \<Rightarrow> ('w, goerr option) M" where
  "updateOnePassword env ds c dn =
     (if dn = ''uid=admin'' \<or> dn = ''uid=monitor'' then ret None
      else
        (let account = mapIndex zeroPasswords (Passwords (Spec ds)) dn in
         bindM (lookupSecret env (dsNamespace ds) (SecretNameForDN ds dn) (Key account)) (\<lambda>r.
           case r of
             Inl err \<Rightarrow> ret (Some err)
           | Inr pw \<Rightarrow>
               bindM (BindPassword env c dn pw) (\<lambda>err.
                 if err = None then ret None
                 else UpdatePassword env c dn pw))))"

definition updatePasswords ::
  "'w env \<Rightarrow> directoryService \<Rightarrow> DSConnection \<Rightarrow> ('w, goerr option \<times> directoryService) M" where
  "updatePasswords env ds c =
     bindM (callM (Now env)) (\<lambda>now.
       (let annotations = Annotations (ObjectMeta ds);
            lastTime = mapIndex '''' annotations LastPasswordCheckAnnotation in
        if checkedRecently now lastTime then ret (None, ds)
        else
          bindM (callM (rangeKeys env (Passwords (Spec ds)))) (\<lambda>dns.
          bindM (forErr dns (updateOnePassword env ds c)) (\<lambda>e.
            case e of
              Some err \<Rightarrow> ret (Some err, ds)
            | None \<Rightarrow>
                bindM (mapPut annotations PasswordUpdatedStatus ''updated'') (\<lambda>a.
                bindM (mapPut a LastPasswordCheckAnnotation (formatInt (sint now))) (\<lambda>a.
                  ret (None, ds\<lparr>ObjectMeta := (ObjectMeta ds)\<lparr>Annotations := a\<rparr>\<rparr>)))))))"

section \<open>Effect on the cluster\<close>

lemma lookupSecret_quiet: "env_documented view env \<Longrightarrow> pres (stays K view) (lookupSecret env ns n key)"
  unfolding lookupSecret_def
  by (auto intro!: frame.pres_bindM frame.pres_ret secretK.get_stays env_clients(2) split: sum.splits)

lemma updateOnePassword_quiet: "env_documented view env \<Longrightarrow> pres (stays K view) (updateOnePassword env ds c dn)"
  unfolding updateOnePassword_def Let_def
  by (auto intro!: frame.pres_bindM frame.pres_ret lookupSecret_quiet BindPassword_stays UpdatePassword_stays split: sum.splits)

lemma updatePasswords_quiet: "env_documented view env \<Longrightarrow> pres (stays K view) (updatePasswords env ds c)"
  unfolding updatePasswords_def Let_def mapPut_def
  by (auto intro!: frame.pres_bindM frame.pres_ret frame.pres_panic frame.pres_forErr env_runtime_stays updateOnePassword_quiet
      split: option.splits)

lemma updatePasswords_Ret:
  assumes "updatePasswords env ds c w = (Ret (e, ds'), w')"
  shows "dsKind ds' = dsKind ds \<and> Spec ds' = Spec ds \<and> Status ds' = Status ds \<and> objkey ds' = objkey ds \<and>
    (\<exists>a. ds' = ds\<lparr>ObjectMeta := (ObjectMeta ds)\<lparr>Annotations := a\<rparr>\<rparr>)"
proof -
  have same: "\<exists>a. x = x\<lparr>ObjectMeta := (ObjectMeta x)\<lparr>Annotations := a\<rparr>\<rparr>" for x :: directoryService
    by (rule exI [of _ "Annotations (ObjectMeta x)"]) simp
  from assms have "\<exists>a. ds' = ds\<lparr>ObjectMeta := (ObjectMeta ds)\<lparr>Annotations := a\<rparr>\<rparr>"
    by (auto simp: updatePasswords_def run_simps Let_def intro: same)
  then show ?thesis by (auto simp: objkey_def)
qed

section \<open>Rate limit\<close>

text \<open>
  Property C26. The directory is spared. If the resource records a check at time \<open>t\<close> and fewer
  than 300 seconds have passed since, the step returns at once: it does not list, look up, bind
  or change anything, and the resource is returned as it came. From 300 seconds on the accounts
  are checked. Both times are taken not to be negative, as Unix times are, so nothing wraps.
\<close>

theorem password_check_rate_limit:
  assumes now: "Now env w = (now, w1)" and pos: "0 \<le> sint now" "0 \<le> t" "t < 2 ^ 63"
    and last: "mapGet (Annotations (ObjectMeta ds)) ''directory.forgerock.io/last-password-check'' = Some (formatInt t)"
  shows "if sint now - t < 300 then updatePasswords env ds c w = (Ret (None, ds), w1)
    else \<not> checkedRecently now (formatInt t)"
proof -
  have "sint now < 2 ^ 63" using sint_lt [of now] by simp
  with pos have d: "sint (now - word_of_int t) = sint now - t"
    by (simp add: sint_word_ariths sint_sbintrunc' signed_take_bit_int_eq_self)
  have "showNat n \<noteq> []" for n by (subst showNat.simps) simp
  then have "formatInt t \<noteq> []" by (simp add: formatInt_def)
  with pos d parseInt_formatInt [of t] have "checkedRecently now (formatInt t) \<longleftrightarrow> sint now - t < 300"
    by (simp add: checkedRecently_def PasswordCheckTimeSeconds_def)
  with now last show ?thesis
    by (simp add: updatePasswords_def bindM_def callM_def ret_def mapIndex_def LastPasswordCheckAnnotation_def)
qed

theorem password_check_rate_limit_witness:
  "let ds = sampleDS\<lparr>ObjectMeta := (ObjectMeta sampleDS)\<lparr>Annotations :=
       Some [''directory.forgerock.io/last-password-check'' \<mapsto> formatInt 900]\<rparr>\<rparr> in
   updatePasswords memEnv ds \<lparr>URL = '''', DN = '''', Password = '''', ldap = None\<rparr> emptyMem = (Ret (None, ds), emptyMem)"
proof -
  let ?ds = "sampleDS\<lparr>ObjectMeta := (ObjectMeta sampleDS)\<lparr>Annotations :=
       Some [''directory.forgerock.io/last-password-check'' \<mapsto> formatInt 900]\<rparr>\<rparr>"
  have "Now memEnv emptyMem = (1000, emptyMem)" by (simp add: mem_defs)
  from password_check_rate_limit [OF this, of 900 ?ds "\<lparr>URL = '''', DN = '''', Password = '''', ldap = None\<rparr>"]
  show ?thesis by (simp add: Let_def)
qed

section \<open>The passwords in the directory\<close>

text \<open>
  What the directory accepts is read off a world by a second ghost function \<open>auth\<close>. A bind that
  succeeds with a non-empty password proves the password; a successful password modify with a
  non-empty new password sets it (with an empty one the server makes one up); nothing else the
  operator calls here has an effect on it.
\<close>

definition ldap_auth_documented :: "('w \<Rightarrow> string \<rightharpoonup> string) \<Rightarrow> 'w env \<Rightarrow> bool" where
  "ldap_auth_documented auth env \<longleftrightarrow>
     (\<forall>c d p w r w'. Bind (ldapLib env) c d p w = (r, w') \<longrightarrow> auth w' = auth w \<and> (r = None \<and> p \<noteq> '''' \<longrightarrow> auth w d = Some p)) \<and>
     (\<forall>c d o1 p w r w'. PasswordModify (ldapLib env) c d o1 p w = (r, w') \<longrightarrow>
        (\<exists>x. auth w' = (auth w)(d := x)) \<and> (r = None \<and> p \<noteq> '''' \<longrightarrow> auth w' d = Some p)) \<and>
     (\<forall>u w. auth (snd (DialURL (ldapLib env) u w)) = auth w) \<and>
     (\<forall>c w. auth (snd (LdapClose (ldapLib env) c w)) = auth w) \<and>
     (\<forall>k w. auth (snd (kGet (secretClient env) k w)) = auth w)"

definition authKept :: "('w \<Rightarrow> string \<rightharpoonup> string) \<Rightarrow> string set \<Rightarrow> 'w \<Rightarrow> 'w \<Rightarrow> bool" where
  "authKept auth D w w' \<longleftrightarrow> (\<forall>d. d \<notin> D \<longrightarrow> auth w' d = auth w d)"

interpretation authFrame: world_order "authKept auth D" for auth :: "'w \<Rightarrow> string \<rightharpoonup> string" and D
  by unfold_locales (auto simp: authKept_def)

lemma auth_quiet:
  assumes "ldap_auth_documented auth env"
  shows "pres (authKept auth D) (callM (Bind (ldapLib env) c d p))"
    and "pres (authKept auth D) (callM (DialURL (ldapLib env) u))"
    and "pres (authKept auth D) (LdapClose (ldapLib env) oc)"
    and "pres (authKept auth D) (callM (kGet (secretClient env) k))"
    and "d \<in> D \<Longrightarrow> pres (authKept auth D) (callM (PasswordModify (ldapLib env) c d o1 p))"
proof -
  note a = assms [unfolded ldap_auth_documented_def]
  show "pres (authKept auth D) (callM (Bind (ldapLib env) c d p))"
    by (rule authFrame.pres_callM) (use a in \<open>auto simp: authKept_def\<close>)
  show "pres (authKept auth D) (callM (DialURL (ldapLib env) u))"
    by (rule authFrame.pres_callM) (use a in \<open>metis authKept_def snd_conv\<close>)
  show "pres (authKept auth D) (LdapClose (ldapLib env) oc)"
    by (rule presI) (use a in \<open>metis authKept_def snd_conv\<close>)
  show "pres (authKept auth D) (callM (kGet (secretClient env) k))"
    by (rule authFrame.pres_callM) (use a in \<open>metis authKept_def snd_conv\<close>)
  show "pres (authKept auth D) (callM (PasswordModify (ldapLib env) c d o1 p))" if "d \<in> D"
  proof (rule authFrame.pres_callM)
    fix w x w'
    assume "PasswordModify (ldapLib env) c d o1 p w = (x, w')"
    with a obtain y where "auth w' = (auth w)(d := y)" by blast
    with that show "authKept auth D w w'" by (auto simp: authKept_def)
  qed
qed

lemma BindPassword_auth: "ldap_auth_documented auth env \<Longrightarrow> pres (authKept auth D) (BindPassword env c dn pw)"
  unfolding BindPassword_def
  by (auto intro!: authFrame.pres_bindM authFrame.pres_deferM authFrame.pres_ret auth_quiet split: sum.splits)

lemma updateOnePassword_auth:
  "ldap_auth_documented auth env \<Longrightarrow> dn \<in> D \<Longrightarrow> pres (authKept auth D) (updateOnePassword env ds c dn)"
  unfolding updateOnePassword_def Let_def lookupSecret_def UpdatePassword_def onConn_def
  by (auto intro!: authFrame.pres_bindM authFrame.pres_ret authFrame.pres_panic auth_quiet BindPassword_auth
      split: sum.splits option.splits)

lemma BindPassword_accepts:
  assumes auth: "ldap_auth_documented auth env" and run: "BindPassword env c dn pw w = (Ret None, w')" and pw: "pw \<noteq> ''''"
  shows "auth w' dn = Some pw"
proof -
  note a = auth [unfolded ldap_auth_documented_def]
  from run obtain l w1 w2 x where bind: "Bind (ldapLib env) l dn pw w1 = (None, w2)" and close: "LdapClose (ldapLib env) (Some l) w2 = (Ret x, w')"
    by (auto simp: BindPassword_def bindM_def callM_def deferM_def ret_def split: sum.splits prod.splits result.splits)
  from a bind pw have "auth w2 = auth w1" "auth w1 dn = Some pw" by blast+
  moreover from a close have "auth w' = auth w2" by (metis snd_conv)
  ultimately show ?thesis by simp
qed

lemma updateOnePassword_accepts:
  assumes env: "env_documented view env" and auth: "ldap_auth_documented auth env"
    and run: "updateOnePassword env ds c dn w = (Ret None, w')"
    and dn: "dn \<noteq> ''uid=admin''" "dn \<noteq> ''uid=monitor''" and a: "mapIndex zeroPasswords (Passwords (Spec ds)) dn = a"
  shows "\<exists>s. secrets (view w) (dsNamespace ds, SecretName a) = Some s \<and>
    (mapIndex '''' (Data s) (Key a) \<noteq> '''' \<longrightarrow> auth w' dn = Some (mapIndex '''' (Data s) (Key a)))"
proof -
  from run dn a obtain s w1 where get: "kGet (secretClient env) (dsNamespace ds, SecretName a) w = (Inr s, w1)"
    and rest: "bindM (BindPassword env c dn (mapIndex '''' (Data s) (Key a))) (\<lambda>err. if err = None then ret None
        else UpdatePassword env c dn (mapIndex '''' (Data s) (Key a))) w1 = (Ret None, w')"
    by (auto simp: updateOnePassword_def Let_def lookupSecret_def SecretNameForDN_def bindM_def callM_def ret_def
        split: sum.splits prod.splits)
  let ?pw = "mapIndex '''' (Data s) (Key a)"
  have "auth w' dn = Some ?pw" if pw: "?pw \<noteq> ''''"
  proof -
    from rest obtain e w2 where b: "BindPassword env c dn ?pw w1 = (Ret e, w2)"
      and k: "(if e = None then ret None else UpdatePassword env c dn ?pw) w2 = (Ret None, w')"
      by (auto simp: bindM_eq_Ret)
    show ?thesis
    proof (cases e)
      case None
      with b k BindPassword_accepts [OF auth _ pw] show ?thesis by (auto simp: ret_def)
    next
      case (Some err)
      with k obtain l where "PasswordModify (ldapLib env) l dn '''' ?pw w2 = (None, w')"
        by (auto simp: UpdatePassword_def onConn_def callM_def panic_def split: option.splits prod.splits)
      with auth pw show ?thesis unfolding ldap_auth_documented_def by blast
    qed
  qed
  with secretK.get_Inr [OF env_clients(2) [OF env] get] show ?thesis by blast
qed

text \<open>
  Property C21. After a round of password checks that was not skipped and did not fail, the
  directory accepts, for every account of the resource other than the two built-in ones, the
  password its secret holds. The cluster is unchanged, and the resource gets the time of the
  check and the status in its annotations, and nothing else. An account whose secret has no (or an
  empty) entry under the key is exempt: the new password is then chosen by the server.
\<close>

theorem passwords_synchronised:
  assumes env: "env_documented view env" and auth: "ldap_auth_documented auth env"
    and fin: "finite (dom (mapGet (Passwords (Spec ds))))"
    and now: "Now env w = (now, w1)"
    and notskipped: "\<not> checkedRecently now (mapIndex '''' (Annotations (ObjectMeta ds)) LastPasswordCheckAnnotation)"
    and run: "updatePasswords env ds c w = (Ret (None, ds'), w')"
    and a: "mapGet (Passwords (Spec ds)) dn = Some a" and dn: "dn \<noteq> ''uid=admin''" "dn \<noteq> ''uid=monitor''"
  shows "(\<exists>s. secrets (view w') (dsNamespace ds, SecretName a) = Some s \<and>
      (mapIndex '''' (Data s) (Key a) \<noteq> '''' \<longrightarrow> auth w' dn = Some (mapIndex '''' (Data s) (Key a)))) \<and>
    view w' = view w \<and>
    (\<exists>m. Annotations (ObjectMeta ds) = Some m \<and> ds' = ds\<lparr>ObjectMeta := (ObjectMeta ds)\<lparr>Annotations :=
       Some (m(''password-updated-status'' \<mapsto> ''updated'', ''directory.forgerock.io/last-password-check'' \<mapsto> formatInt (sint now)))\<rparr>\<rparr>)"
proof -
  from run now notskipped obtain dns w2 m where range: "rangeKeys env (Passwords (Spec ds)) w1 = (dns, w2)"
    and loop: "forErr dns (updateOnePassword env ds c) w2 = (Ret None, w')"
    and m: "Annotations (ObjectMeta ds) = Some m" "ds' = ds\<lparr>ObjectMeta := (ObjectMeta ds)\<lparr>Annotations :=
       Some (m(''password-updated-status'' \<mapsto> ''updated'', ''directory.forgerock.io/last-password-check'' \<mapsto> formatInt (sint now)))\<rparr>\<rparr>"
    by (auto simp: updatePasswords_def Let_def run_simps mapPut_def PasswordUpdatedStatus_def LastPasswordCheckAnnotation_def)
  from env_rangeKeys [OF env fin range] a have dns: "dn \<in> set dns" by blast
  have v: "view w' = view w"
    using presD [OF updatePasswords_quiet [OF env, of "{}"] run] by (simp add: stays_empty)
  have "callM (Now env) w = (Ret now, w1)" "callM (rangeKeys env (Passwords (Spec ds))) w1 = (Ret dns, w2)"
    using now range by (simp_all add: callM_def)
  then have v2: "view w2 = view w"
    using presD [OF env_runtime_stays(1) [OF env, of "{}"]] presD [OF env_runtime_stays(3) [OF env, of "{}"]]
    by (metis stays_empty)
  let ?acct = "\<lambda>d. mapIndex zeroPasswords (Passwords (Spec ds)) d"
  let ?P = "\<lambda>d u. d \<noteq> ''uid=admin'' \<and> d \<noteq> ''uid=monitor'' \<and> view u = view w \<longrightarrow>
    (\<exists>s. secrets (view u) (dsNamespace ds, SecretName (?acct d)) = Some s \<and>
      (mapIndex '''' (Data s) (Key (?acct d)) \<noteq> '''' \<longrightarrow> auth u d = Some (mapIndex '''' (Data s) (Key (?acct d)))))"
  have quiet: "view u' = view u" if "updateOnePassword env ds c d u = (r, u')" for d u r u'
    using presD [OF updateOnePassword_quiet [OF env, of "{}"] that] by (simp add: stays_empty)
  have "\<forall>d \<in> set dns. ?P d w'"
  proof (rule forErr_success_establishes [OF _ _ loop])
    fix d d' u u'
    assume round: "updateOnePassword env ds c d u = (Ret None, u')"
    from updateOnePassword_accepts [OF env auth round _ _ refl] quiet [OF round] show new: "?P d u'" by auto
    assume P: "?P d' u"
    show "?P d' u'"
    proof (cases "d' = d")
      case False
      with presD [OF updateOnePassword_auth [OF auth, of d "{d}"] round] have "auth u' d' = auth u d'"
        by (simp add: authKept_def)
      with P quiet [OF round] show ?thesis by simp
    qed (use new in simp)
  qed
  with dns a dn v m show ?thesis by (force simp: mapIndex_def)
qed

lemma ldap_auth_memEnv: "ldap_auth_documented (\<lambda>w. map_of (mLdap w)) memEnv"
  unfolding ldap_auth_documented_def
  by (auto simp: memEnv_def memLdap_def memClient_def memBase_def ret_def panic_def fun_eq_iff split: if_splits option.splits)

text \<open>A resource with one service account, its secret, and a directory that does not know it yet.\<close>

definition accountDS :: directoryService where
  "accountDS = sampleDS\<lparr>Spec := sampleSpec\<lparr>Passwords :=
     Some [''uid=am'' \<mapsto> \<lparr>SecretName = ''am'', Key = ''pw'', Create = False\<rparr>]\<rparr>\<rparr>"

definition accountSecretObj :: secret where
  "accountSecretObj = stamp 60 ((newSecret ''prod'' ''am'')\<lparr>Data := Some [''pw'' \<mapsto> ''s3cret'']\<rparr>)"

definition accountConn :: DSConnection where
  "accountConn = \<lparr>URL = ''ldaps://idrepo-0'', DN = ''uid=admin'', Password = ''x'', ldap = Some 0\<rparr>"

lemma lookup_accountSecret: "lookupObj [accountSecretObj] (''prod'', ''am'') = Some accountSecretObj"
  by (simp add: lookupObj_Cons accountSecretObj_def objkey_def stamp_def created_def isZero_def)

lemma account_round:
  "updateOnePassword memEnv accountDS accountConn ''uid=am'' (emptyMem\<lparr>mSecrets := [accountSecretObj]\<rparr>) =
     (Ret None, emptyMem\<lparr>mSecrets := [accountSecretObj], mLdap := [(''uid=am'', ''s3cret'')]\<rparr>)"
proof -
  have "Data accountSecretObj = Some [''pw'' \<mapsto> ''s3cret'']" by (simp add: accountSecretObj_def stamp_def)
  then show ?thesis
    by (simp add: updateOnePassword_def Let_def lookupSecret_def SecretNameForDN_def accountDS_def sampleDS_def mapIndex_def
        bindM_def callM_def ret_def BindPassword_def deferM_def UpdatePassword_def onConn_def accountConn_def memEnv_def
        memLdap_def memClient_def memBase_def emptyMem_def lookup_accountSecret)
qed

theorem passwords_synchronised_witness:
  "\<exists>ds' w'. updatePasswords memEnv accountDS accountConn (emptyMem\<lparr>mSecrets := [accountSecretObj]\<rparr>) = (Ret (None, ds'), w') \<and>
     map_of (mLdap w') ''uid=am'' = Some ''s3cret''"
proof -
  let ?w = "emptyMem\<lparr>mSecrets := [accountSecretObj]\<rparr>"
  have now: "Now memEnv ?w = (1000, ?w)" by (simp add: mem_defs)
  have acct: "mapGet (Passwords (Spec accountDS)) ''uid=am'' = Some \<lparr>SecretName = ''am'', Key = ''pw'', Create = False\<rparr>"
    and fin: "finite (dom (mapGet (Passwords (Spec accountDS))))" and ns: "dsNamespace accountDS = ''prod''"
    and ann: "Annotations (ObjectMeta accountDS) = Some Map.empty"
    by (simp_all add: accountDS_def sampleDS_def)
  have fresh: "\<not> checkedRecently 1000 (mapIndex '''' (Annotations (ObjectMeta accountDS)) LastPasswordCheckAnnotation)"
    by (simp add: ann mapIndex_def checkedRecently_def)
  have range: "rangeKeys memEnv (Passwords (Spec accountDS)) ?w = ([''uid=am''], ?w)"
    by (simp add: memEnv_def accountDS_def)
  obtain ds' w' where run: "updatePasswords memEnv accountDS accountConn ?w = (Ret (None, ds'), w')"
    using now fresh range account_round ann
    by (auto simp: updatePasswords_def Let_def bindM_def callM_def checkM_def ret_def mapPut_def)
  have sec: "secrets (memView w') (''prod'', ''am'') = Some accountSecretObj"
    using presD [OF updatePasswords_quiet [OF memEnv_documented, of "{}"] run]
    by (simp add: stays_empty) (simp add: memView_def lookup_accountSecret)
  have data: "Data accountSecretObj = Some [''pw'' \<mapsto> ''s3cret'']" by (simp add: accountSecretObj_def stamp_def)
  from passwords_synchronised [OF memEnv_documented ldap_auth_memEnv fin now fresh run acct] run sec data
  show ?thesis by (auto simp: ns mapIndex_def)
qed

text \<open>
  A resource without annotations crashes the operator when all its passwords are in
  order: the map it then writes to is nil. So such a check never reports success, and because the
  time of the check is never recorded it is repeated, with the same outcome, at every
  reconciliation.
\<close>

theorem no_annotations_no_success:
  assumes nil: "Annotations (ObjectMeta ds) = None"
    and now: "Now env w = (now, w1)" and range: "rangeKeys env (Passwords (Spec ds)) w1 = (dns, w2)"
    and checks: "forErr dns (updateOnePassword env ds c) w2 = (Ret None, w')"
  shows "updatePasswords env ds c w = (Panic NilMapWrite, w')"
  using assms by (simp add: updatePasswords_def Let_def bindM_def callM_def mapIndex_def checkedRecently_def mapPut_def panic_def)

theorem no_annotations_no_success_witness:
  "let ds = accountDS\<lparr>ObjectMeta := (ObjectMeta accountDS)\<lparr>Annotations := None\<rparr>, Spec := (Spec accountDS)\<lparr>Passwords := None\<rparr>\<rparr> in
   updatePasswords memEnv ds accountConn emptyMem = (Panic NilMapWrite, emptyMem)"
proof -
  let ?ds = "accountDS\<lparr>ObjectMeta := (ObjectMeta accountDS)\<lparr>Annotations := None\<rparr>, Spec := (Spec accountDS)\<lparr>Passwords := None\<rparr>\<rparr>"
  have "Now memEnv emptyMem = (1000, emptyMem)" "rangeKeys memEnv (Passwords (Spec ?ds)) emptyMem = ([], emptyMem)"
    by (simp_all add: mem_defs)
  from no_annotations_no_success [OF _ this] show ?thesis by (simp add: Let_def ret_def)
qed

text \<open>
  Checking a password while the directory cannot be reached does not report the
  failed dial: the deferred \<open>Close\<close> runs on the nil connection, so if closing a nil connection
  panics, the whole check does, and with it the operator.
\<close>

theorem bind_check_unreachable_panics:
  assumes dial: "DialURL (ldapLib env) (URL c) w = (Inl err, w1)"
    and nil_close: "LdapClose (ldapLib env) None w1 = (Panic p, w2)"
  shows "BindPassword env c dn pw w = (Panic p, w2)"
  using assms by (simp add: BindPassword_def bindM_def callM_def deferM_def ret_def)

theorem bind_check_unreachable_panics_witness:
  "BindPassword memEnv accountConn ''uid=am'' ''s3cret'' (emptyMem\<lparr>mLdapUp := False\<rparr>) =
     (Panic NilDeref, emptyMem\<lparr>mLdapUp := False\<rparr>)"
  by (rule bind_check_unreachable_panics [of _ _ _ "Errorf ''connection refused''" "emptyMem\<lparr>mLdapUp := False\<rparr>"])
    (simp_all add: memEnv_def memLdap_def panic_def)

end
