(* ===== verification/Ds_Controller.thy ===== *)
theory Ds_Controller
  imports Secrets Proxies Passwords_Sync
begin

text \<open>
  \<open>src/controllers/directoryservice_controller.go\<close>: the reconciliation of a
  \<open>DirectoryService\<close>, which runs the steps of the other theories in order: volumes, secrets,
  stateful set, proxy, service, snapshots, passwords, and the write-back of the resource.
\<close>

section \<open>Model\<close>

text \<open>\<open>ctrl.Result\<close>: after how many seconds to come back, 0 for not at all.\<close>

record ctrlResult =
  RequeueAfter :: int

definition noResult :: ctrlResult where
  "noResult = \<lparr>RequeueAfter = 0\<rparr>"

definition requeue :: ctrlResult where
  "requeue = \<lparr>RequeueAfter = 60\<rparr>"

definition getAdminLDAPConnection ::
  "flags \<Rightarrow> 'w env \<Rightarrow> directoryService \<Rightarrow> service \<Rightarrow> ('w, goerr + DSConnection) M" where
  "getAdminLDAPConnection fl env ds svc =
     (let svcName = Name (ObjectMeta svc);
          url = (if DevMode fl then ''ldaps://localhost:1636''
                 else ''ldaps://'' @ svcName @ ''-0.'' @ svcName @ ''.'' @ Namespace (ObjectMeta svc) @ ''.svc:1636'');
          account = mapIndex zeroPasswords (Passwords (Spec ds)) ''uid=admin'' in
      bindM (callM (kGet (secretClient env) (dsNamespace ds, SecretName account))) (\<lambda>r.
        case r of
          Inl err \<Rightarrow> ret (Inl (Errorf (''Can'' @ [CHR 0x27] @ ''t find the admin ldap secret'')))
        | Inr adminSecret \<Rightarrow>
            (let password = mapIndex '''' (Data adminSecret) (Key account) in
             bindM (Connect env \<lparr>URL = url, DN = ''uid=admin'', Password = password, ldap = None\<rparr>) (\<lambda>(err, c).
               case err of Some e \<Rightarrow> ret (Inl e) | None \<Rightarrow> ret (Inr c)))))"

text \<open>The end of \<open>Reconcile\<close>, once there is an LDAP connection.\<close>

definition updateResource ::
  "'w env \<Rightarrow> directoryService \<Rightarrow> DSConnection \<Rightarrow> ('w, ctrlResult \<times> goerr option) M" where
  "updateResource env ds c =
     bindM (updatePasswords env ds c) (\<lambda>(err, ds).
       case err of
         Some e \<Rightarrow> ret (requeue, None)
       | None \<Rightarrow>
           bindM (callM (kUpdate (dsClient env) ds)) (\<lambda>r.
             case r of
               Inl e \<Rightarrow> ret (noResult, Some e)
             | Inr ds \<Rightarrow>
                 bindM (statusUpdateDS env ds) (\<lambda>(err, ds).
                   case err of Some e \<Rightarrow> ret (noResult, Some e) | None \<Rightarrow> ret (requeue, None))))"

text \<open>
  The rest of \<open>Reconcile\<close>, backwards: each stage runs one step and goes on with the next unless
  the step failed.
\<close>

definition ldapStage :: "flags \<Rightarrow> 'w env \<Rightarrow> directoryService \<Rightarrow> service \<Rightarrow> ('w, ctrlResult \<times> goerr option) M" where
  "ldapStage fl env ds svc =
     bindM (getAdminLDAPConnection fl env ds svc) (\<lambda>r.
       case r of Inl e \<Rightarrow> ret (\<lparr>RequeueAfter = 90\<rparr>, None)
       | Inr c \<Rightarrow> deferM (Close env c) (updateResource env ds c))"

definition snapshotStage :: "flags \<Rightarrow> 'w env \<Rightarrow> directoryService \<Rightarrow> service \<Rightarrow> ('w, ctrlResult \<times> goerr option) M" where
  "snapshotStage fl env ds svc =
     bindM (reconcileSnapshots env ds) (\<lambda>(err, ds).
       case err of Some e \<Rightarrow> ret (requeue, Some e) | None \<Rightarrow> ldapStage fl env ds svc)"

definition serviceStage :: "flags \<Rightarrow> 'w env \<Rightarrow> directoryService \<Rightarrow> string \<Rightarrow> ('w, ctrlResult \<times> goerr option) M" where
  "serviceStage fl env ds svcName =
     bindM (reconcileService env ds svcName) (\<lambda>(svc, err).
       case err of Some e \<Rightarrow> ret (requeue, Some e) | None \<Rightarrow> snapshotStage fl env ds svc)"

definition proxyStage :: "flags \<Rightarrow> 'w env \<Rightarrow> directoryService \<Rightarrow> string \<Rightarrow> ('w, ctrlResult \<times> goerr option) M" where
  "proxyStage fl env ds svcName =
     bindM (reconcileProxy env ds) (\<lambda>(err, ds).
       case err of Some e \<Rightarrow> ret (requeue, Some e) | None \<Rightarrow> serviceStage fl env ds svcName)"

definition stsStage :: "flags \<Rightarrow> 'w env \<Rightarrow> directoryService \<Rightarrow> string \<Rightarrow> ('w, ctrlResult \<times> goerr option) M" where
  "stsStage fl env ds svcName =
     bindM (reconcileSTS fl env ds svcName) (\<lambda>(err, ds).
       case err of Some e \<Rightarrow> ret (requeue, Some e) | None \<Rightarrow> proxyStage fl env ds svcName)"

definition Reconcile :: "flags \<Rightarrow> 'w env \<Rightarrow> nsname \<Rightarrow> ('w, ctrlResult \<times> goerr option) M" where
  "Reconcile fl env req =
     bindM (callM (kGet (dsClient env) req)) (\<lambda>r.
       case r of
         Inl err \<Rightarrow> ret (noResult, IgnoreNotFound err)
       | Inr ds \<Rightarrow>
           (let svcName = dsName ds in
            checkM (reconcilePVC env ds) (\<lambda>e. ret (requeue, Some e))
           (checkM (reconcileSecrets env ds) (\<lambda>e. ret (requeue, Some e))
           (stsStage fl env ds svcName))))"

section \<open>Footprint\<close>

text \<open>The objects a reconciliation of \<open>ds\<close> may touch.\<close>

definition ownObjects :: "directoryService \<Rightarrow> (kind \<times> nsname) set" where
  "ownObjects ds =
     (case Replicas (Spec ds) of None \<Rightarrow> {} | Some n \<Rightarrow> Pair KPvc ` claimKeys ds (nat (sint n))) \<union>
     Pair KSecret ` createdSecretKeys ds \<union>
     {(KSts, dsNamespace ds, dsName ds), (KDep, dsNamespace ds, dsName ds @ ''-proxy''),
      (KSvc, dsNamespace ds, dsName ds), (KDs, dsNamespace ds, dsName ds)} \<union>
     range (\<lambda>n. (KSnap, dsNamespace ds, n))"

lemma ownObjects_mem:
  "(KSts, objkey ds) \<in> ownObjects ds" "(KDep, dsNamespace ds, proxyNameOf ds) \<in> ownObjects ds"
  "(KSvc, dsNamespace ds, dsName ds) \<in> ownObjects ds" "(KDs, objkey ds) \<in> ownObjects ds"
  "(KSnap, dsNamespace ds, n) \<in> ownObjects ds" "Pair KSecret ` createdSecretKeys ds \<subseteq> ownObjects ds"
  "Replicas (Spec ds) = Some n' \<Longrightarrow> Pair KPvc ` claimKeys ds (nat (sint n')) \<subseteq> ownObjects ds"
  by (auto simp: ownObjects_def objkey_def proxyNameOf_def)

lemma getAdminLDAPConnection_quiet:
  "env_documented view env \<Longrightarrow> pres (stays K view) (getAdminLDAPConnection fl env ds svc)"
  unfolding getAdminLDAPConnection_def Let_def
  by (auto intro!: frame.pres_bindM frame.pres_ret secretK.get_stays env_clients(2) Connect_stays split: sum.splits option.splits)

lemma kUpdate_ds:
  assumes "env_documented view env" and "kUpdate (dsClient env) ds w = (Inr y, w')"
  shows "objkey y = objkey ds \<and> dsAcc (directoryservices (view w) (objkey ds)) ds y \<and>
    directoryservices (view w') (objkey ds) = Some y"
  using dsK.update_Inr [OF env_clients(8) [OF assms(1)] assms(2)] by simp

lemma updateResource_stays:
  assumes env: "env_documented view env" and k: "(KDs, objkey ds) \<in> K"
  shows "pres (stays K view) (updateResource env ds c)"
proof -
  have upd: "pres (stays K view) (bindM (callM (kUpdate (dsClient env) ds1)) (\<lambda>r.
      case r of Inl e \<Rightarrow> ret (noResult, Some e)
      | Inr ds \<Rightarrow> bindM (statusUpdateDS env ds) (\<lambda>(err, ds).
          case err of Some e \<Rightarrow> ret (noResult, Some e) | None \<Rightarrow> ret (requeue, None))))" if "objkey ds1 = objkey ds" for ds1
  proof (rule frame.pres_bindM_reach [OF dsK.update_stays [OF env_clients(8) [OF env]]])
    show "(KDs, objkey ds1) \<in> K" using k that by simp
  next
    fix r w w1
    assume "callM (kUpdate (dsClient env) ds1) w = (Ret r, w1)"
    then have "objkey y = objkey ds" if "r = Inr y" for y
      using that kUpdate_ds [OF env, of ds1 w y w1] \<open>objkey ds1 = objkey ds\<close> by (simp add: callM_eq_Ret)
    with k show "pres (stays K view) (case r of Inl e \<Rightarrow> ret (noResult, Some e)
      | Inr ds \<Rightarrow> bindM (statusUpdateDS env ds) (\<lambda>(err, ds).
          case err of Some e \<Rightarrow> ret (noResult, Some e) | None \<Rightarrow> ret (requeue, None)))"
      by (auto intro!: frame.pres_bindM frame.pres_ret statusUpdateDS_stays [OF env] split: sum.splits option.splits)
  qed
  show ?thesis
    unfolding updateResource_def
    by (rule frame.pres_bindM_reach [OF updatePasswords_quiet [OF env]])
      (auto dest!: updatePasswords_Ret intro!: frame.pres_ret upd split: option.splits)
qed

lemma ldapStage_stays:
  assumes env: "env_documented view env" and "(KDs, objkey ds) \<in> K"
  shows "pres (stays K view) (ldapStage fl env ds svc)"
  unfolding ldapStage_def using assms(2)
  by (auto intro!: frame.pres_bindM frame.pres_ret frame.pres_deferM getAdminLDAPConnection_quiet [OF env]
      Close_stays [OF env] updateResource_stays [OF env] split: sum.splits)

lemma snapshotStage_stays:
  assumes env: "env_documented view env" and "(KDs, objkey ds) \<in> K" "\<And>n. (KSnap, dsNamespace ds, n) \<in> K"
  shows "pres (stays K view) (snapshotStage fl env ds svc)"
  unfolding snapshotStage_def
  by (rule frame.pres_bindM_reach [OF reconcileSnapshots_stays [OF env]])
    (use assms(2,3) in \<open>auto dest!: reconcileSnapshots_key [OF env] intro!: frame.pres_ret ldapStage_stays [OF env]
      split: option.splits\<close>)

lemma serviceStage_stays:
  assumes env: "env_documented view env" and "(KDs, objkey ds) \<in> K" "\<And>n. (KSnap, dsNamespace ds, n) \<in> K"
    "(KSvc, dsNamespace ds, svcName) \<in> K"
  shows "pres (stays K view) (serviceStage fl env ds svcName)"
  unfolding serviceStage_def using assms(2-)
  by (auto intro!: frame.pres_bindM frame.pres_ret reconcileService_stays [OF env] snapshotStage_stays [OF env]
      split: option.splits)

text \<open>The conditions only depend on the metadata, which the steps before leave alone.\<close>

lemma proxyStage_stays:
  assumes env: "env_documented view env" and "(KDs, objkey ds) \<in> K" "\<And>n. (KSnap, dsNamespace ds, n) \<in> K"
    "(KSvc, dsNamespace ds, svcName) \<in> K" "(KDep, dsNamespace ds, proxyNameOf ds) \<in> K"
  shows "pres (stays K view) (proxyStage fl env ds svcName)"
  unfolding proxyStage_def
proof (rule frame.pres_bindM_reach [OF reconcileProxy_stays [OF env assms(5)]], goal_cases)
  case (1 x w w1)
  obtain err ds1 where x: "x = (err, ds1)" by (cases x)
  have "ObjectMeta ds1 = ObjectMeta ds" if "err = None"
    using reconcileProxy_same [OF env 1 [unfolded x that]] by (simp add: sameResource_def)
  with x assms(2-) show ?case
    by (auto intro!: frame.pres_ret serviceStage_stays [OF env] simp: objkey_def split: option.splits)
qed

lemma stsStage_stays:
  assumes env: "env_documented view env" and "(KDs, objkey ds) \<in> K" "\<And>n. (KSnap, dsNamespace ds, n) \<in> K"
    "(KSvc, dsNamespace ds, svcName) \<in> K" "(KDep, dsNamespace ds, proxyNameOf ds) \<in> K" "(KSts, objkey ds) \<in> K"
  shows "pres (stays K view) (stsStage fl env ds svcName)"
  unfolding stsStage_def
proof (rule frame.pres_bindM_reach [OF reconcileSTS_stays [OF env assms(6)]], goal_cases)
  case (1 x w w1)
  obtain err ds1 where x: "x = (err, ds1)" by (cases x)
  have "ObjectMeta ds1 = ObjectMeta ds" if "err = None"
    using reconcileSTS_success [OF env 1 [unfolded x that]] by auto
  with x assms(2-5) show ?case
    by (auto intro!: frame.pres_ret proxyStage_stays [OF env] simp: objkey_def proxyNameOf_def split: option.splits)
qed

definition reconcileBody :: "flags \<Rightarrow> 'w env \<Rightarrow> directoryService \<Rightarrow> ('w, ctrlResult \<times> goerr option) M" where
  "reconcileBody fl env ds =
     checkM (reconcilePVC env ds) (\<lambda>e. ret (requeue, Some e))
    (checkM (reconcileSecrets env ds) (\<lambda>e. ret (requeue, Some e))
    (stsStage fl env ds (dsName ds)))"

lemma Reconcile_body:
  "Reconcile fl env req = bindM (callM (kGet (dsClient env) req))
     (\<lambda>r. case r of Inl err \<Rightarrow> ret (noResult, IgnoreNotFound err) | Inr ds \<Rightarrow> reconcileBody fl env ds)"
  unfolding Reconcile_def reconcileBody_def Let_def by (rule refl)

lemma stsStage_stays_own: "env_documented view env \<Longrightarrow> pres (stays (ownObjects ds) view) (stsStage fl env ds (dsName ds))"
  by (auto intro!: stsStage_stays ownObjects_mem)

lemma reconcileBody_stays:
  assumes env: "env_documented view env"
  shows "pres (stays (ownObjects ds) view) (reconcileBody fl env ds)"
  unfolding reconcileBody_def
  by (intro frame.pres_checkM frame.pres_ret reconcilePVC_stays [OF env] reconcileSecrets_stays [OF env]
      stsStage_stays_own [OF env] ownObjects_mem)

text \<open>A run either found no resource, or worked on the one the cluster holds under the requested key.\<close>

lemma Reconcile_cases:
  assumes env: "env_documented view env" and run: "Reconcile fl env req w = (r, w')"
  obtains (missing) err w1 where "kGet (dsClient env) req w = (Inl err, w1)" "r = Ret (noResult, IgnoreNotFound err)"
      "view w' = view w"
  | (found) ds w1 where "kGet (dsClient env) req w = (Inr ds, w1)" "directoryservices (view w) req = Some ds"
      "objkey ds = req" "view w1 = view w" "reconcileBody fl env ds w1 = (r, w')"
proof -
  obtain g w1 where g: "kGet (dsClient env) req w = (g, w1)" by (cases "kGet (dsClient env) req w")
  note kc = env_clients(8) [OF env]
  have v1: "view w1 = view w" by (rule dsK.get_view [OF kc g])
  show thesis
  proof (cases g)
    case (Inl err)
    with g run v1 show thesis by (intro missing) (auto simp: Reconcile_body bindM_def callM_def ret_def)
  next
    case (Inr ds)
    with g run v1 dsK.get_Inr [OF kc g [unfolded Inr]] show thesis
      by (intro found) (auto simp: Reconcile_body bindM_def callM_def)
  qed
qed

text \<open>
  Property C1. A reconciliation stays within its own objects. However it ends, it changes nothing
  but: the volume claims of the replicas, the secrets the resource asks it to fill, the stateful
  set and the service of the resource's name, the deployment \<open><name>-proxy\<close>, snapshots in the
  resource's namespace, and the resource itself. In particular no object of another namespace, no
  backup, restore or job, and no other directory is touched. If there is no resource under the
  requested name, nothing is.
\<close>

theorem reconcile_footprint:
  assumes env: "env_documented view env" and run: "Reconcile fl env req w = (r, w')"
  shows "case directoryservices (view w) req of
      None \<Rightarrow> view w' = view w
    | Some ds \<Rightarrow> same_except (ownObjects ds) (view w) (view w')"
  using env run
proof (cases rule: Reconcile_cases)
  case (missing err w1)
  then show ?thesis by (simp add: same_except_refl split: option.splits)
next
  case (found ds w1)
  with presD [OF reconcileBody_stays [OF env] found(5)] show ?thesis by (simp add: stays_def)
qed

lemma reconcileBody_pvcs:
  assumes env: "env_documented view env" and run: "reconcileBody fl env ds w = (r, w')"
  shows "pvcs (view w) \<subseteq>\<^sub>m pvcs (view w') \<and>
    (statefulsets (view w') \<noteq> statefulsets (view w) \<longrightarrow>
      (\<exists>n. Replicas (Spec ds) = Some n \<and> claimKeys ds (nat (sint n)) \<subseteq> dom (pvcs (view w'))))"
proof -
  let ?rest = "checkM (reconcileSecrets env ds) (\<lambda>e. ret (requeue, Some e)) (stsStage fl env ds (dsName ds))"
  let ?K = "ownObjects ds - range (Pair KPvc)"
  have rest: "pres (stays ?K view) ?rest"
    by (intro frame.pres_checkM frame.pres_ret reconcileSecrets_stays [OF env] stsStage_stays [OF env])
      (use ownObjects_mem [of ds] in auto)
  obtain q w1 where pvc: "reconcilePVC env ds w = (q, w1)" by (cases "reconcilePVC env ds w")
  have grows: "pvcs (view w) \<subseteq>\<^sub>m pvcs (view w1)" by (rule presD [OF reconcilePVC_grows [OF env] pvc])
  show ?thesis
  proof (cases "q = Ret None")
    case True
    from pvc True obtain n where n: "Replicas (Spec ds) = Some n" by (auto simp: reconcilePVC_def run_simps)
    from run pvc True have "?rest w1 = (r, w')" by (simp add: reconcileBody_def checkM_apply)
    with rest have "stays ?K view w1 w'" by (rule presD)
    then have "pvcs (view w') = pvcs (view w1)" by (rule pvcK.stays_kind) auto
    with grows n reconcilePVC_present [OF env n pvc [unfolded True]] show ?thesis by auto
  next
    case False
    with run pvc have "w' = w1"
      by (auto simp: reconcileBody_def checkM_apply ret_def split: result.splits option.splits)
    moreover have "stays (range (Pair KPvc)) view w w1"
      by (rule presD [OF reconcilePVC_stays [OF env] pvc]) auto
    then have "statefulsets (view w1) = statefulsets (view w)" by (rule stsK.stays_kind) auto
    ultimately show ?thesis using grows by simp
  qed
qed

text \<open>
  Property C2. Pods come after their volumes. If a reconciliation creates or changes a stateful
  set, then at the end of it every replica of the resource has its volume claim: the pods never
  start with a volume made by the stateful set's own claim template, which cannot be updated.
  And whatever a reconciliation does, every volume claim that was in the cluster is still there,
  unchanged.
\<close>

theorem volumes_before_pods:
  assumes env: "env_documented view env" and run: "Reconcile fl env req w = (r, w')"
  shows "pvcs (view w) \<subseteq>\<^sub>m pvcs (view w') \<and>
    (statefulsets (view w') \<noteq> statefulsets (view w) \<longrightarrow>
      (\<exists>ds n. directoryservices (view w) req = Some ds \<and> Replicas (Spec ds) = Some n \<and>
        (\<forall>i < nat (sint n). (fst req, dataClaimName (snd req) (int i)) \<in> dom (pvcs (view w')))))"
  using env run
proof (cases rule: Reconcile_cases)
  case (found ds w1)
  then have req: "req = (dsNamespace ds, dsName ds)" by (simp add: objkey_def)
  from reconcileBody_pvcs [OF env found(5)] found(2,4) show ?thesis
    by (auto simp: claimKeys_def req)
qed simp

section \<open>Coming back\<close>

text \<open>Every stage ends in one of three ways: with an error, or with one of the two delays.\<close>

definition comesBack :: "ctrlResult \<times> goerr option \<Rightarrow> bool" where
  "comesBack r \<longleftrightarrow> snd r \<noteq> None \<or> RequeueAfter (fst r) \<in> {60, 90}"

lemma comesBack_simps [simp]:
  "comesBack (requeue, e)" "comesBack (r, Some err)" "comesBack (\<lparr>RequeueAfter = 90\<rparr>, e)"
  by (simp_all add: comesBack_def requeue_def)

lemma updateResource_comesBack: "yields comesBack (updateResource env ds c)"
  unfolding updateResource_def by (auto intro!: yields_bindM simp: yields_ret split: option.splits sum.splits)

lemma ldapStage_comesBack: "yields comesBack (ldapStage fl env ds svc)"
  unfolding ldapStage_def
  by (auto intro!: yields_bindM yields_deferM updateResource_comesBack simp: yields_ret split: sum.splits)

lemma stsStage_comesBack: "yields comesBack (stsStage fl env ds svcName)"
  unfolding stsStage_def proxyStage_def serviceStage_def snapshotStage_def
  by (auto intro!: yields_bindM ldapStage_comesBack simp: yields_ret split: option.splits)

lemma reconcileBody_comesBack: "yields comesBack (reconcileBody fl env ds)"
  unfolding reconcileBody_def by (auto intro!: yields_checkM stsStage_comesBack simp: yields_ret)

text \<open>
  Property C29. The operator never forgets a directory. A reconciliation of a resource that can be
  read either reports an error, upon which the framework retries, or asks to be run again in 60
  or 90 seconds. Only when the resource is gone does it finish without both.
\<close>

theorem reconcile_comes_back:
  assumes env: "env_documented view env" and run: "Reconcile fl env req w = (Ret (res, err), w')"
  shows "(err \<noteq> None \<or> RequeueAfter res = 60 \<or> RequeueAfter res = 90) \<or>
    directoryservices (view w) req = None \<and> RequeueAfter res = 0"
  using env run
proof (cases rule: Reconcile_cases)
  case (missing e w1)
  then show ?thesis
    using dsK.get_NotFound [OF env_clients(8) [OF env], of req w w1]
    by (auto simp: IgnoreNotFound_def noResult_def split: if_splits)
next
  case (found ds w1)
  from yieldsD [OF reconcileBody_comesBack found(5)] show ?thesis by (auto simp: comesBack_def)
qed

section \<open>The reported status\<close>

text \<open>What the steps before the write-back leave of the stored resource.\<close>

lemma updateResource_status:
  assumes env: "env_documented view env" and stored: "directoryservices (view w) (objkey ds) = Some d"
    and run: "updateResource env ds c w = (Ret (res, None), w')"
  shows "\<exists>d'. directoryservices (view w') (objkey ds) = Some d' \<and> Status d' = Status d"
proof -
  note kc = env_clients(8) [OF env]
  obtain e ds1 w1 where pw: "updatePasswords env ds c w = (Ret (e, ds1), w1)"
    using run by (auto simp: updateResource_def bindM_eq_Ret)
  have v1: "view w1 = view w" using presD [OF updatePasswords_quiet [OF env, of "{}"] pw] by (simp add: stays_empty)
  have k1: "objkey ds1 = objkey ds" using updatePasswords_Ret [OF pw] by simp
  show ?thesis
  proof (cases e)
    case (Some err)
    with run pw stored v1 show ?thesis by (auto simp: updateResource_def bindM_def ret_def)
  next
    case None
    with run pw obtain y w2 z where upd: "kUpdate (dsClient env) ds1 w1 = (Inr y, w2)"
      and st: "kStatusUpdate (dsClient env) y w2 = (Inr z, w')"
      by (auto simp: updateResource_def bindM_def callM_def ret_def statusUpdateDS_def split: sum.splits prod.splits option.splits)
    from kUpdate_ds [OF env upd] v1 k1 stored have y: "objkey y = objkey ds" "Status y = Status d" by (simp_all add: dsAcc_def)
    from dsK.statusUpdate_Inr [OF kc st] y show ?thesis by (simp add: dsAccS_def)
  qed
qed

lemma ldapStage_status:
  assumes env: "env_documented view env" and stored: "directoryservices (view w) (objkey ds) = Some d"
    and run: "ldapStage fl env ds svc w = (Ret (res, None), w')"
  shows "\<exists>d'. directoryservices (view w') (objkey ds) = Some d' \<and> Status d' = Status d"
proof -
  obtain r w1 where g: "getAdminLDAPConnection fl env ds svc w = (Ret r, w1)"
    and rest: "(case r of Inl e \<Rightarrow> ret (\<lparr>RequeueAfter = 90\<rparr>, None)
      | Inr c \<Rightarrow> deferM (Close env c) (updateResource env ds c)) w1 = (Ret (res, None), w')"
    using run by (auto simp: ldapStage_def bindM_eq_Ret)
  have v1: "view w1 = view w"
    using presD [OF getAdminLDAPConnection_quiet [OF env, of "{}"] g] by (simp add: stays_empty)
  show ?thesis
  proof (cases r)
    case (Inl e)
    with rest v1 stored show ?thesis by (simp add: ret_def)
  next
    case (Inr c)
    with rest obtain w2 x where u: "updateResource env ds c w1 = (Ret (res, None), w2)" and x: "Close env c w2 = (Ret x, w')"
      by (auto simp: deferM_eq_Ret)
    have "view w' = view w2" using presD [OF Close_stays [OF env, of "{}"] x] by (simp add: stays_empty)
    with updateResource_status [OF env _ u] v1 stored show ?thesis by simp
  qed
qed

text \<open>The steps of a reconciliation that got as far as the snapshots without an error.\<close>

lemma reconcileBody_stepsE:
  assumes env: "env_documented view env" and run: "reconcileBody fl env ds w = (Ret (res, None), w')"
  obtains ds1 ds2 svc w2 w3 w4 w5 w6 where "reconcilePVC env ds w = (Ret None, w2)" "reconcileSecrets env ds w2 = (Ret None, w3)"
    "reconcileSTS fl env ds (dsName ds) w3 = (Ret (None, ds1), w4)" "reconcileProxy env ds1 w4 = (Ret (None, ds2), w5)"
    "reconcileService env ds2 (dsName ds) w5 = (Ret (svc, None), w6)" "snapshotStage fl env ds2 svc w6 = (Ret (res, None), w')"
    "sameResource ds ds1" "sameResource ds ds2"
proof -
  obtain w2 w3 where p: "reconcilePVC env ds w = (Ret None, w2)" and s: "reconcileSecrets env ds w2 = (Ret None, w3)"
    and st: "stsStage fl env ds (dsName ds) w3 = (Ret (res, None), w')"
    using run by (auto simp: reconcileBody_def checkM_eq_Ret ret_apply)
  obtain ds1 w4 where sts: "reconcileSTS fl env ds (dsName ds) w3 = (Ret (None, ds1), w4)"
    and st1: "proxyStage fl env ds1 (dsName ds) w4 = (Ret (res, None), w')"
    using st by (auto simp: stsStage_def bindM_eq_Ret ret_apply split: option.splits)
  obtain ds2 w5 where pr: "reconcileProxy env ds1 w4 = (Ret (None, ds2), w5)"
    and st2: "serviceStage fl env ds2 (dsName ds) w5 = (Ret (res, None), w')"
    using st1 by (auto simp: proxyStage_def bindM_eq_Ret ret_apply split: option.splits)
  obtain svc w6 where sv: "reconcileService env ds2 (dsName ds) w5 = (Ret (svc, None), w6)"
    and st3: "snapshotStage fl env ds2 svc w6 = (Ret (res, None), w')"
    using st2 by (auto simp: serviceStage_def bindM_eq_Ret ret_apply split: option.splits)
  have "sameResource ds ds1" using reconcileSTS_success [OF env sts] by (auto simp: sameResource_def)
  moreover from this have "sameResource ds ds2" using reconcileProxy_same [OF env pr] by (simp add: sameResource_def)
  ultimately show thesis by (rule that [OF p s sts pr sv st3])
qed

text \<open>The resource in hand when the snapshots' turn comes has the counts of the stateful set and the proxy.\<close>

lemma reconcileBody_successE:
  assumes env: "env_documented view env" and run: "reconcileBody fl env ds w = (Ret (res, None), w')"
  obtains ds2 svc w1 s q where "snapshotStage fl env ds2 svc w1 = (Ret (res, None), w')" "sameResource ds ds2"
    "stays (UNIV - {(KDs, objkey ds)}) view w w1" "statefulsets (view w1) (objkey ds) = Some s"
    "Status ds2 = (if statefulsets (view w) (objkey ds) = None then Status ds
       else (Status ds)\<lparr>CurrentReplicas := Some (stsCurrentReplicas s)\<rparr>)\<lparr>ProxyStatus := q\<rparr>"
proof -
  obtain ds1 ds2 svc w2 w3 w4 w5 w6 where p: "reconcilePVC env ds w = (Ret None, w2)" and s: "reconcileSecrets env ds w2 = (Ret None, w3)"
    and sts: "reconcileSTS fl env ds (dsName ds) w3 = (Ret (None, ds1), w4)" and pr: "reconcileProxy env ds1 w4 = (Ret (None, ds2), w5)"
    and sv: "reconcileService env ds2 (dsName ds) w5 = (Ret (svc, None), w6)" and st3: "snapshotStage fl env ds2 svc w6 = (Ret (res, None), w')"
    and same: "sameResource ds ds2"
    using env run by (rule reconcileBody_stepsE)
  let ?K = "UNIV - {(KDs, objkey ds)}" and ?L = "UNIV - range (Pair KSts)"
  note step = presD [OF reconcilePVC_stays [OF env] p] presD [OF reconcileSecrets_stays [OF env] s]
    presD [OF reconcileSTS_stays [OF env] sts] presD [OF reconcileProxy_stays [OF env] pr] presD [OF reconcileService_stays [OF env] sv]
  have "stays ?K view w w2" "stays ?K view w2 w3" "stays ?K view w3 w4" "stays ?K view w4 w5" "stays ?K view w5 w6"
    by (rule step; auto)+
  then have all: "stays ?K view w w6" by (blast intro: frame.R_trans)
  have l: "stays ?L view w w2" "stays ?L view w2 w3" "stays ?L view w4 w5" "stays ?L view w5 w6"
    by (rule step; auto)+
  have "statefulsets (view w3) (objkey ds) = statefulsets (view w) (objkey ds)"
    "statefulsets (view w6) (objkey ds) = statefulsets (view w4) (objkey ds)"
    using stsK.stays_at [OF frame.R_trans [OF l(1,2)], of "objkey ds"] stsK.stays_at [OF frame.R_trans [OF l(3,4)], of "objkey ds"] by auto
  with reconcileSTS_success [OF env sts] obtain z where z: "statefulsets (view w6) (objkey ds) = Some z"
    and st1: "Status ds1 = (if statefulsets (view w) (objkey ds) = None then Status ds
      else (Status ds)\<lparr>CurrentReplicas := Some (stsCurrentReplicas z)\<rparr>)" by auto
  from reconcileProxy_status [OF env pr] obtain q where "Status ds2 = (Status ds1)\<lparr>ProxyStatus := q\<rparr>" ..
  from that [OF st3 same all z this [unfolded st1]] show thesis .
qed

text \<open>The snapshots and the connection leave the stored status alone, or store the one in hand with the time.\<close>

lemma snapshotStage_status:
  assumes env: "env_documented view env" and stored: "directoryservices (view w) (objkey ds) = Some d"
    and run: "snapshotStage fl env ds svc w = (Ret (res, None), w')"
  shows "\<exists>d'. directoryservices (view w') (objkey ds) = Some d' \<and>
    (Status d' = Status d \<or> snapEnabled (Snapshots (Spec ds)) \<and>
      (\<exists>now. Status d' = Status (setLastSnapshot ds now) \<and>
         (LastSnapshotTimeStamp (SnapshotStatus (Status ds)) = 0 \<or> sint (snapshotDeadline ds) \<le> sint now)))"
proof -
  from run obtain ds1 w1 where sn: "reconcileSnapshots env ds w = (Ret (None, ds1), w1)"
    and rest: "ldapStage fl env ds1 svc w1 = (Ret (res, None), w')"
    by (auto simp: snapshotStage_def bindM_eq_Ret ret_apply split: option.splits)
  have k: "objkey ds1 = objkey ds" using reconcileSnapshots_key [OF env sn] by simp
  from reconcileSnapshots_stored [OF env sn] stored obtain d1 where d1: "directoryservices (view w1) (objkey ds) = Some d1"
    and s1: "d1 = d \<or> snapEnabled (Snapshots (Spec ds)) \<and> (\<exists>now. Status d1 = Status (setLastSnapshot ds now) \<and>
       (LastSnapshotTimeStamp (SnapshotStatus (Status ds)) = 0 \<or> sint (snapshotDeadline ds) \<le> sint now))"
    by auto
  obtain d' where "directoryservices (view w') (objkey ds) = Some d'" "Status d' = Status d1"
    using ldapStage_status [OF env _ rest] d1 k by auto
  with s1 show ?thesis by auto
qed

lemma snapshotDeadline_cong:
  "Spec a = Spec b \<Longrightarrow> SnapshotStatus (Status a) = SnapshotStatus (Status b) \<Longrightarrow> snapshotDeadline a = snapshotDeadline b"
  by (simp add: snapshotDeadline_def)

text \<open>
  Property C37. The replica counts the operator reads off the stateful set and the proxy reach the
  reported status only by way of the snapshots. Before the last status update, the resource is
  updated, and the server's reply to that, which carries the stored status, replaces the one in
  memory. So a reconciliation that ends without an error either leaves the stored status exactly as
  it was, whatever the stateful set reports, or snapshots are enabled and the snapshot step wrote
  the status together with the current time: on its first run, or because a snapshot was due. Only
  then the stored count is that of the stateful set (if it existed before). With snapshots switched
  off the stored status is never refreshed.
\<close>

theorem status_only_with_snapshots:
  assumes env: "env_documented view env" and stored: "directoryservices (view w) req = Some d"
    and run: "Reconcile fl env req w = (Ret (res, None), w')"
  shows "\<exists>d'. directoryservices (view w') req = Some d' \<and>
    (Status d' = Status d \<or>
     snapEnabled (Snapshots (Spec d)) \<and>
     (LastSnapshotTimeStamp (SnapshotStatus (Status d)) = 0 \<or>
      sint (snapshotDeadline d) \<le> sint (LastSnapshotTimeStamp (SnapshotStatus (Status d')))) \<and>
     (\<exists>s. statefulsets (view w') req = Some s \<and> CurrentReplicas (Status d') =
        (if statefulsets (view w) req = None then CurrentReplicas (Status d) else Some (stsCurrentReplicas s))))"
  using env run
proof (cases rule: Reconcile_cases)
  case (found ds w1)
  from found(2) stored have ds: "ds = d" by simp
  obtain ds2 svc w6 s q where sn: "snapshotStage fl env ds2 svc w6 = (Ret (res, None), w')" and same: "sameResource ds ds2"
    and all: "stays (UNIV - {(KDs, objkey ds)}) view w1 w6" and s: "statefulsets (view w6) (objkey ds) = Some s"
    and st: "Status ds2 = (if statefulsets (view w1) (objkey ds) = None then Status ds
       else (Status ds)\<lparr>CurrentReplicas := Some (stsCurrentReplicas s)\<rparr>)\<lparr>ProxyStatus := q\<rparr>"
    using env found(5) by (rule reconcileBody_successE)
  have k: "objkey ds2 = req" using same found(3) by (simp add: sameResource_def objkey_def)
  from dsK.stays_at [OF all, of req] found(3,4) stored have st6: "directoryservices (view w6) (objkey ds2) = Some d" by (simp add: k)
  have "stays (UNIV - range (Pair KSts)) view w6 w'" by (rule presD [OF snapshotStage_stays [OF env] sn]) auto
  from stsK.stays_at [OF this, of req] s found(3) have z: "statefulsets (view w') req = Some s" by auto
  have snapSt: "SnapshotStatus (Status ds2) = SnapshotStatus (Status d)" using st ds by simp
  have spec: "Spec ds2 = Spec d" using same ds by (simp add: sameResource_def)
  from snapshotStage_status [OF env st6 sn] k spec snapSt snapshotDeadline_cong [OF spec snapSt] z st ds found(3,4)
  show ?thesis by (auto simp: setLastSnapshot_def)
qed (use stored in \<open>auto split: if_splits\<close>)

section \<open>A sample reconciliation\<close>

text \<open>
  A directory without replicas and snapshots whose stateful set and service exist, whose stored
  status claims seven replicas, and whose admin password the directory knows.
\<close>

definition quietDS :: directoryService where
  "quietDS = sampleDS\<lparr>Spec := sampleSpec\<lparr>Replicas := Some 0,
     Passwords := Some [''uid=admin'' \<mapsto> \<lparr>SecretName = ''ds-passwords'', Key = ''admin.pw'', Create = False\<rparr>],
     Snapshots := (Snapshots sampleSpec)\<lparr>snapEnabled := False\<rparr>\<rparr>,
     Status := sampleStatus\<lparr>CurrentReplicas := Some 7\<rparr>\<rparr>"

definition quietSTS :: statefulSet where
  "quietSTS = stamp 60 (stsTemplateFor quietDS ''idrepo'' \<lparr>DataSource = None, pvcOther = ''5Gi''\<rparr>)"

definition quietSvc :: service where
  "quietSvc = stamp 60 (createService quietDS (newService ''prod'' ''idrepo''))"

definition quietWorld :: memw where
  "quietWorld = emptyMem\<lparr>mDss := [quietDS], mSts := [quietSTS], mSvcs := [quietSvc],
     mSecrets := [sampleSecret (Some [''admin.pw'' \<mapsto> ''old''])], mLdap := [(''uid=admin'', ''old'')]\<rparr>"

definition quietDS1 :: directoryService where
  "quietDS1 = quietDS\<lparr>Status := (Status quietDS)\<lparr>CurrentReplicas := Some 0\<rparr>\<rparr>"

lemma quiet_fields:
  "dsName quietDS = ''idrepo''" "dsNamespace quietDS = ''prod''" "objkey quietDS = (''prod'', ''idrepo'')" "created quietDS"
  "dsName quietDS1 = ''idrepo''" "dsNamespace quietDS1 = ''prod''"
  "Replicas (Spec quietDS) = Some 0" "Spec quietDS1 = Spec quietDS"
  "Passwords (Spec quietDS) = Some [''uid=admin'' \<mapsto> \<lparr>SecretName = ''ds-passwords'', Key = ''admin.pw'', Create = False\<rparr>]"
  "\<not> snapEnabled (Snapshots (Spec quietDS))" "\<not> proxyEnabled (Proxy (Spec quietDS))"
  by (simp_all add: quietDS_def quietDS1_def sample_defs objkey_def created_def isZero_def)

lemma quiet_volumes_secrets:
  "reconcilePVC memEnv quietDS quietWorld = (Ret None, quietWorld)"
  "reconcileSecrets memEnv quietDS quietWorld = (Ret None, quietWorld)"
proof -
  show "reconcilePVC memEnv quietDS quietWorld = (Ret None, quietWorld)"
    by (simp add: reconcilePVC_def quiet_fields ret_def)
  have "rangeKeys memEnv (Passwords (Spec quietDS)) quietWorld = ([''uid=admin''], quietWorld)"
    by (simp add: memEnv_def quiet_fields)
  then show "reconcileSecrets memEnv quietDS quietWorld = (Ret None, quietWorld)"
    by (simp add: reconcileSecrets_def bindM_def callM_def checkM_apply ret_def reconcileOneSecret_skips quiet_fields mapIndex_def)
qed

lemma quiet_sts: "reconcileSTS plainFlags memEnv quietDS ''idrepo'' quietWorld = (Ret (None, quietDS1), quietWorld)"
proof -
  let ?x = "newSTS ''prod'' ''idrepo''"
  have look: "lookupObj [quietSTS] (''prod'', ''idrepo'') = Some quietSTS"
    by (simp add: lookupObj_Cons quietSTS_def quiet_fields)
  have pod: "Containers (stsPod quietSTS) = [stsMainContainer quietDS]" "InitContainers (stsPod quietSTS) = [stsInitContainer quietDS]"
    by (simp_all add: quietSTS_def stsPod_def stamp_def stsTemplateFor_def stsPodSpec_def zeroPodSpec_def)
  have same: "quietSTS\<lparr>stsReplicas := Replicas (Spec quietDS), stsTemplate := (stsTemplate quietSTS)\<lparr>ptSpec := (stsPod quietSTS)\<lparr>
         Containers := [(stsMainContainer quietDS)\<lparr>Image := tImage (PodTemplate (Spec quietDS))\<rparr>],
         InitContainers := [(stsInitContainer quietDS)\<lparr>Image := tImage (PodTemplate (Spec quietDS))\<rparr>]\<rparr>\<rparr>\<rparr> = quietSTS"
    by (simp add: quietSTS_def stsPod_def stamp_def stsTemplateFor_def stsPodSpec_def zeroPodSpec_def stsMainContainer_def
        stsInitContainer_def Let_def zeroContainer_def)
  have "stsCurrentReplicas quietSTS = 0" by (simp add: quietSTS_def stamp_def stsTemplateFor_def)
  with updateDSStatefulSet_eq [OF pod, of quietDS quietWorld] same
  have "updateDSStatefulSet quietDS quietSTS quietWorld = (Ret (None, quietSTS, quietDS1, True), quietWorld)"
    by (simp add: quietDS1_def)
  moreover have "\<not> isZero (CreationTimestamp (ObjectMeta quietSTS))" by (simp add: quietSTS_def stamp_def isZero_def)
  ultimately have f: "stsMutate plainFlags memEnv ''idrepo'' quietSTS (quietDS, False) quietWorld =
      (Ret (None, quietSTS, quietDS1, True), quietWorld)"
    by (simp add: stsMutate_def)
  note cou = mem_cou_same [where get = mSts and f = "stsMutate plainFlags memEnv ''idrepo''" and x = ?x, OF _ f]
  have "stsClient memEnv = memClient mSts (\<lambda>xs w. w\<lparr>mSts := xs\<rparr>) keepStamp keepStamp" by (simp add: memEnv_def)
  with cou [where put = "\<lambda>xs w. w\<lparr>mSts := xs\<rparr>" and mU = keepStamp and mS = keepStamp] look
  show ?thesis
    by (simp add: reconcileSTS_def quiet_fields bindM_def ret_def quietWorld_def)
      (simp add: quietDS1_def quietSTS_def stamp_def stsTemplateFor_def)
qed

lemma quiet_rest:
  "reconcileProxy memEnv quietDS1 quietWorld = (Ret (None, quietDS1), quietWorld)"
  "reconcileService memEnv quietDS1 ''idrepo'' quietWorld = (Ret (quietSvc, None), quietWorld)"
  "reconcileSnapshots memEnv quietDS1 quietWorld = (Ret (None, quietDS1), quietWorld)"
proof -
  show "reconcileProxy memEnv quietDS1 quietWorld = (Ret (None, quietDS1), quietWorld)"
    by (simp add: reconcileProxy_def removeIfOwned_def quiet_fields bindM_def callM_def ret_def memEnv_def memClient_def memBase_def
        quietWorld_def emptyMem_def)
  show "reconcileSnapshots memEnv quietDS1 quietWorld = (Ret (None, quietDS1), quietWorld)"
    by (simp add: reconcileSnapshots_def quiet_fields ret_def)
  have look: "lookupObj (mSvcs quietWorld) (objkey (newService ''prod'' ''idrepo'')) = Some quietSvc"
    by (simp add: quietWorld_def lookupObj_Cons quietSvc_def)
      (simp add: createService_def objkey_def zeroMeta_def quiet_fields)
  have f: "serviceMutate memEnv quietDS1 quietSvc () quietWorld = (Ret (None, quietSvc, ()), quietWorld)"
    by (simp add: serviceMutate_def ret_def quietSvc_def stamp_def isZero_def)
  have "svcClient memEnv = memClient mSvcs (\<lambda>xs w. w\<lparr>mSvcs := xs\<rparr>) keepStamp keepStamp" by (simp add: memEnv_def)
  with mem_cou_same [where get = mSvcs and f = "serviceMutate memEnv quietDS1" and put = "\<lambda>xs w. w\<lparr>mSvcs := xs\<rparr>"
      and mU = keepStamp and mS = keepStamp, OF look f]
  show "reconcileService memEnv quietDS1 ''idrepo'' quietWorld = (Ret (quietSvc, None), quietWorld)"
    by (simp add: reconcileService_def quiet_fields bindM_def ret_def)
qed

definition quietConn :: DSConnection where
  "quietConn = \<lparr>URL = ''ldaps://idrepo-0.idrepo.prod.svc:1636'', DN = ''uid=admin'', Password = ''old'', ldap = Some 0\<rparr>"

lemma quiet_connection:
  "getAdminLDAPConnection plainFlags memEnv quietDS1 quietSvc quietWorld = (Ret (Inr quietConn), quietWorld)"
proof -
  have svc: "Name (ObjectMeta quietSvc) = ''idrepo''" "Namespace (ObjectMeta quietSvc) = ''prod''"
    by (simp_all add: quietSvc_def stamp_def createService_def zeroMeta_def quiet_fields)
  have get: "kGet (secretClient memEnv) (''prod'', ''ds-passwords'') quietWorld =
      (Inr (sampleSecret (Some [''admin.pw'' \<mapsto> ''old''])), quietWorld)"
    by (simp add: memEnv_def memClient_def memBase_def quietWorld_def lookup_sampleSecret)
  have data: "Data (sampleSecret d) = d" for d by (simp add: sampleSecret_def stamp_def)
  have con: "Connect memEnv \<lparr>URL = ''ldaps://idrepo-0.idrepo.prod.svc:1636'', DN = ''uid=admin'', Password = ''old'', ldap = None\<rparr>
      quietWorld = (Ret (None, quietConn), quietWorld)"
    by (simp add: Connect_def bindM_def callM_def ret_def memEnv_def memLdap_def quietWorld_def emptyMem_def quietConn_def)
  show ?thesis
    using get con
    by (simp add: getAdminLDAPConnection_def plainFlags_def svc quiet_fields mapIndex_def bindM_def callM_def ret_def data)
qed

definition quietDS2 :: directoryService where
  "quietDS2 = quietDS1\<lparr>ObjectMeta := (ObjectMeta quietDS1)\<lparr>Annotations :=
     Some [''password-updated-status'' \<mapsto> ''updated'', ''directory.forgerock.io/last-password-check'' \<mapsto> formatInt 1000]\<rparr>\<rparr>"

lemma quiet_passwords: "updatePasswords memEnv quietDS1 quietConn quietWorld = (Ret (None, quietDS2), quietWorld)"
proof -
  have now: "Now memEnv quietWorld = (1000, quietWorld)" by (simp add: mem_defs quietWorld_def)
  have range: "rangeKeys memEnv (Passwords (Spec quietDS1)) quietWorld = ([''uid=admin''], quietWorld)"
    by (simp add: memEnv_def quiet_fields)
  have ann: "Annotations (ObjectMeta quietDS1) = Some Map.empty" by (simp add: quietDS1_def quietDS_def sampleDS_def)
  have "updateOnePassword memEnv quietDS1 quietConn ''uid=admin'' quietWorld = (Ret None, quietWorld)"
    by (simp add: updateOnePassword_def ret_def)
  with now range ann show ?thesis
    by (simp add: updatePasswords_def Let_def bindM_def callM_def checkM_def ret_def mapIndex_def checkedRecently_def mapPut_def
        quietDS2_def PasswordUpdatedStatus_def LastPasswordCheckAnnotation_def)
qed

lemma quiet_update:
  "\<exists>w'. updateResource memEnv quietDS1 quietConn quietWorld = (Ret (requeue, None), w') \<and> Close memEnv quietConn w' = (Ret (), w')"
proof -
  have look: "lookupObj [quietDS] (''prod'', ''idrepo'') = Some quietDS" by (simp add: lookupObj_Cons quiet_fields)
  have key: "objkey quietDS2 = (''prod'', ''idrepo'')" by (simp add: quietDS2_def objkey_def quiet_fields)
  let ?y = "dsMergeU quietDS quietDS2"
  have y: "objkey ?y = (''prod'', ''idrepo'')" "created ?y"
    by (simp_all add: dsMergeU_def keepStamp_def quietDS2_def objkey_def created_def quiet_fields) (simp add: quietDS_def sampleDS_def isZero_def)
  let ?w1 = "quietWorld\<lparr>mDss := [?y]\<rparr>"
  have upd: "kUpdate (dsClient memEnv) quietDS2 quietWorld = (Inr ?y, ?w1)"
    using look key y by (simp add: memEnv_def memClient_def memBase_def quietWorld_def Let_def upsert_def dropKey_def quiet_fields)
  have st: "\<exists>z w'. statusUpdateDS memEnv ?y ?w1 = (Ret (None, z), w')"
    using y by (simp add: statusUpdateDS_def bindM_def callM_def ret_def memEnv_def memClient_def memBase_def lookupObj_Cons Let_def)
  have "Close memEnv quietConn w = (Ret (), w)" for w
    by (simp add: Close_def quietConn_def memEnv_def memLdap_def ret_def)
  with upd st quiet_passwords show ?thesis
    by (auto simp: updateResource_def bindM_def callM_def ret_def)
qed

lemma quiet_run: "\<exists>w'. Reconcile plainFlags memEnv (''prod'', ''idrepo'') quietWorld = (Ret (requeue, None), w')"
proof -
  have get: "kGet (dsClient memEnv) (''prod'', ''idrepo'') quietWorld = (Inr quietDS, quietWorld)"
    by (simp add: memEnv_def memClient_def memBase_def quietWorld_def lookupObj_Cons quiet_fields)
  obtain w' where "updateResource memEnv quietDS1 quietConn quietWorld = (Ret (requeue, None), w')" "Close memEnv quietConn w' = (Ret (), w')"
    using quiet_update by blast
  with quiet_connection have "ldapStage plainFlags memEnv quietDS1 quietSvc quietWorld = (Ret (requeue, None), w')"
    by (simp add: ldapStage_def bindM_def deferM_def)
  with quiet_rest quiet_sts have "stsStage plainFlags memEnv quietDS ''idrepo'' quietWorld = (Ret (requeue, None), w')"
    by (simp add: stsStage_def proxyStage_def serviceStage_def snapshotStage_def bindM_def)
  with get quiet_volumes_secrets show ?thesis
    by (simp add: Reconcile_body reconcileBody_def bindM_def callM_def checkM_apply quiet_fields)
qed

lemma quiet_stored: "directoryservices (memView quietWorld) (''prod'', ''idrepo'') = Some quietDS"
  by (simp add: memView_def quietWorld_def lookupObj_Cons quiet_fields)

theorem reconcile_footprint_witness:
  "same_except (ownObjects quietDS) (memView quietWorld)
     (memView (snd (Reconcile plainFlags memEnv (''prod'', ''idrepo'') quietWorld)))"
  using reconcile_footprint [OF memEnv_documented surjective_pairing, of plainFlags "(''prod'', ''idrepo'')" quietWorld] quiet_stored
  by simp

theorem reconcile_comes_back_witness:
  "\<exists>res err w'. Reconcile plainFlags memEnv (''prod'', ''idrepo'') quietWorld = (Ret (res, err), w') \<and>
     (err \<noteq> None \<or> RequeueAfter res = 60 \<or> RequeueAfter res = 90)"
proof -
  obtain w' where run: "Reconcile plainFlags memEnv (''prod'', ''idrepo'') quietWorld = (Ret (requeue, None), w')"
    using quiet_run by blast
  from reconcile_comes_back [OF memEnv_documented run] run quiet_stored show ?thesis by auto
qed

theorem status_only_with_snapshots_witness:
  "\<exists>res w' d'. Reconcile plainFlags memEnv (''prod'', ''idrepo'') quietWorld = (Ret (res, None), w') \<and>
     directoryservices (memView w') (''prod'', ''idrepo'') = Some d' \<and> CurrentReplicas (Status d') = Some 7 \<and>
     stsCurrentReplicas quietSTS = 0"
proof -
  obtain w' where run: "Reconcile plainFlags memEnv (''prod'', ''idrepo'') quietWorld = (Ret (requeue, None), w')"
    using quiet_run by blast
  from status_only_with_snapshots [OF memEnv_documented quiet_stored run] run quiet_fields(10) show ?thesis
    by (auto simp: quietDS_def quietSTS_def stamp_def stsTemplateFor_def)
qed

end
