(* ===== verification/Jobs.thy ===== *)
theory Jobs
  imports Sts
begin

text \<open>
  \<open>src/controllers/job.go\<close>: the job that runs a backup or a restore. It is created once, named
  after its owner, and never updated. The callback also changes the data claim of the caller in
  memory; that claim is the variable it captures.
\<close>

section \<open>Model\<close>

definition jobVolumes :: "persistentVolumeClaim \<Rightarrow> string \<Rightarrow> directoryPodTemplate \<Rightarrow> volume list" where
  "jobVolumes dataPVC backupPVC t =
     [\<lparr>volName = ''backup'', volSource = PvcVolume backupPVC\<rparr>,
      \<lparr>volName = ''data'', volSource = PvcVolume (Name (ObjectMeta dataPVC))\<rparr>,
      \<lparr>volName = ''master-keypair'', volSource = SecretVolume (MasterSecretName (Certificates t))\<rparr>,
      \<lparr>volName = ''keys'', volSource = EmptyDir\<rparr>]
     @ (if ScriptConfigMapName t \<noteq> ''''
        then [\<lparr>volName = ''scripts'', volSource = ConfigMapVolume (ScriptConfigMapName t) 493\<rparr>] else [])"

definition jobVolumeMounts :: "directoryPodTemplate \<Rightarrow> volumeMount list" where
  "jobVolumeMounts t =
     [\<lparr>vmName = ''backup'', MountPath = ''/backup''\<rparr>,
      \<lparr>vmName = ''data'', MountPath = DSDataPath\<rparr>,
      \<lparr>vmName = ''master-keypair'', MountPath = MasterKeyPath\<rparr>,
      \<lparr>vmName = ''keys'', MountPath = ''/var/run/secrets/keys''\<rparr>]
     @ (if ScriptConfigMapName t \<noteq> ''''
        then [\<lparr>vmName = ''scripts'', MountPath = ''/opt/opendj/scripts''\<rparr>] else [])"

definition jobPodSpec ::
  "flags \<Rightarrow> string \<Rightarrow> persistentVolumeClaim \<Rightarrow> string \<Rightarrow> directoryPodTemplate \<Rightarrow> string list \<Rightarrow> podSpec" where
  "jobPodSpec fl ns dataPVC backupPVC t args =
     (let user = (if DebugContainer fl then 0 else ForgeRockUser);
          envVars = [\<lparr>envName = ''NAMESPACE'', envValue = ns, envValueFrom = None\<rparr>] @ tEnv t in
      zeroPodSpec\<lparr>Volumes := jobVolumes dataPVC backupPVC t,
        RestartPolicy := ''Never'',
        SecurityContext := Some \<lparr>FSGroup = Some RootGroup, RunAsUser = Some user, RunAsGroup = Some RootGroup,
          SELinuxOptions = Some (), WindowsOptions = Some ()\<rparr>,
        ServiceAccountName := tServiceAccountName t,
        Containers := [zeroContainer\<lparr>cName := ''ds-job'', Image := tImage t, Args := args,
          ImagePullPolicy := tImagePullPolicy t, Env := envVars, Resources := tResources t,
          VolumeMounts := jobVolumeMounts t\<rparr>]\<rparr>)"

text \<open>The error of the first owner reference is ignored, that of the second is returned.\<close>

definition jobMutate ::
  "'w env \<Rightarrow> podSpec \<Rightarrow> kind \<Rightarrow> objectMeta \<Rightarrow> string \<Rightarrow> ('w, job, persistentVolumeClaim) mutateFn" where
  "jobMutate env pod ownerKd owner knd j dataPVC =
     (if isZero (CreationTimestamp (ObjectMeta j)) then
        (let j = j\<lparr>ObjectMeta := (ObjectMeta j)\<lparr>Labels := Some (createLabels (Name (ObjectMeta j)) knd None)\<rparr>,
                   jobTemplate := \<lparr>ptLabels = None, ptSpec = pod\<rparr>\<rparr>;
             dataPVC = dataPVC\<lparr>ObjectMeta := (ObjectMeta dataPVC)
               \<lparr>OwnerReferences := snd (SetOwnerReference env KJob (ObjectMeta j) (ObjectMeta dataPVC))\<rparr>\<rparr> in
         case SetOwnerReference env ownerKd owner (ObjectMeta j) of (err, refs) \<Rightarrow>
           ret (err, j\<lparr>ObjectMeta := (ObjectMeta j)\<lparr>OwnerReferences := refs\<rparr>\<rparr>, dataPVC))
      else ret (None, j, dataPVC))"

definition createDSJob ::
  "flags \<Rightarrow> 'w env \<Rightarrow> persistentVolumeClaim \<Rightarrow> string \<Rightarrow> directoryPodTemplate \<Rightarrow> string list \<Rightarrow> kind \<Rightarrow> objectMeta \<Rightarrow> string \<Rightarrow>
   ('w, goerr option \<times> job \<times> persistentVolumeClaim) M" where
  "createDSJob fl env dataPVC backupPVC t args ownerKd owner knd =
     kCreateOrUpdate (jobClient env) (newJob (Namespace owner) (Name owner)) dataPVC
       (jobMutate env (jobPodSpec fl (Namespace owner) dataPVC backupPVC t args) ownerKd owner knd)"

section \<open>Lemmas\<close>

interpretation jobCallback: create_only KJob jobs "\<lambda>m s. s\<lparr>jobs := m\<rparr>" "jobMutate env pod ownerKd owner knd" k
  for env pod ownerKd owner knd k
  by unfold_locales (auto simp: jobMutate_def created_def ret_apply Let_def objkey_def split: if_splits prod.splits)

lemma jobMutate_quiet: "pres (stays K view) (jobMutate env pod ownerKd owner knd j p)"
  by (auto simp: jobMutate_def Let_def intro: frame.pres_ret split: prod.splits)

lemma jobMutate_noPanic: "noPanic (jobMutate env pod ownerKd owner knd j p)"
  by (auto simp: jobMutate_def Let_def intro: noPanic_ret split: prod.splits)

lemma createDSJob_stays:
  assumes env: "env_documented view env" and k: "(KJob, Namespace owner, Name owner) \<in> K"
  shows "pres (stays K view) (createDSJob fl env dataPVC backupPVC t args ownerKd owner knd)"
  unfolding createDSJob_def using k by (auto intro!: jobK.cou_stays [OF env_clients(7) [OF env]] jobMutate_quiet)

lemma createDSJob_grows:
  "env_documented view env \<Longrightarrow>
   pres (\<lambda>w w'. jobs (view w) \<subseteq>\<^sub>m jobs (view w')) (createDSJob fl env dataPVC backupPVC t args ownerKd owner knd)"
  unfolding createDSJob_def by (intro jobCallback.pres_cou_grows [OF env_clients(7)] jobMutate_quiet)

lemma createDSJob_noPanic:
  "env_documented view env \<Longrightarrow> noPanic (createDSJob fl env dataPVC backupPVC t args ownerKd owner knd)"
  unfolding createDSJob_def by (intro jobK.cou_noPanic [OF env_clients(7)] jobMutate_noPanic)

lemma jobPodSpec_wellFormed: "podWellFormed [] (jobPodSpec fl ns p b t args)"
  by (simp add: podWellFormed_def jobPodSpec_def zeroPodSpec_def podVolumeNames_def podContainers_def jobVolumes_def
      jobVolumeMounts_def zeroContainer_def path_defs Let_def)

lemma createDSJob_success:
  assumes env: "env_documented view env"
    and run: "createDSJob fl env p b t args ownerKd owner knd w = (Ret (None, j, p'), w')"
  shows "jobs (view w') (Namespace owner, Name owner) = Some j \<and>
    (jobs (view w) (Namespace owner, Name owner) = None \<longrightarrow>
       Volumes (ptSpec (jobTemplate j)) = jobVolumes p b t \<and>
       Labels (ObjectMeta j) = Some (createLabels (Name owner) knd None) \<and>
       map (\<lambda>c. (cName c, Image c)) (Containers (ptSpec (jobTemplate j))) = [(''ds-job'', tImage t)] \<and>
       (\<exists>r \<in> set (OwnerReferences (ObjectMeta j)). orUID r = UID owner)) \<and>
    (\<forall>old. jobs (view w) (Namespace owner, Name owner) = Some old \<longrightarrow> j = old \<and> view w' = view w)"
proof -
  let ?x = "newJob (Namespace owner) (Name owner)"
  let ?pod = "jobPodSpec fl (Namespace owner) p b t args"
  note kc = env_clients(7) [OF env]
  from run have cou: "kCreateOrUpdate (jobClient env) ?x p (jobMutate env ?pod ownerKd owner knd) w = (Ret (None, j, p'), w')"
    by (simp add: createDSJob_def)
  have old: "j = old \<and> view w' = view w" if "jobs (view w) (objkey ?x) = Some old" for old
    using jobCallback.existing_untouched [OF kc that cou] by simp
  from kc jobMutate_quiet cou show ?thesis
  proof (cases rule: jobK.cou_success)
    case (existing cur w1 w2 y)
    with old show ?thesis by simp
  next
    case (fresh w1 w2 y)
    from env have refs: "refs_documented env" by (simp add: env_documented_def)
    from fresh(3) obtain rs m where y: "ptSpec (jobTemplate y) = ?pod" "Labels (ObjectMeta y) = Some (createLabels (Name owner) knd None)"
      and rs: "OwnerReferences (ObjectMeta y) = rs" "SetOwnerReference env ownerKd owner m = (None, rs)"
      by (auto simp: jobMutate_def isZero_def ret_apply Let_def split: prod.splits)
    from rs refs have "\<exists>r \<in> set rs. orUID r = UID owner" unfolding refs_documented_def refsHold_def by meson
    with fresh y rs show ?thesis
      by (simp add: jobAcc_def metaKept_def podKept_def) (simp add: jobPodSpec_def Let_def zeroPodSpec_def zeroContainer_def)
  qed
qed

text \<open>Whatever the outcome, at most a new job that has not completed was added.\<close>

lemma createDSJob_effect:
  assumes env: "env_documented view env" and run: "createDSJob fl env p b t args ownerKd owner knd w = (r, w')"
  shows "view w' = view w \<or> jobs (view w) (Namespace owner, Name owner) = None \<and>
    (\<exists>z. view w' = (view w)\<lparr>jobs := (jobs (view w))((Namespace owner, Name owner) \<mapsto> z)\<rparr> \<and> jobCompletionTime z = None)"
proof -
  let ?x = "newJob (Namespace owner) (Name owner)"
  let ?f = "jobMutate env (jobPodSpec fl (Namespace owner) p b t args) ownerKd owner knd"
  note kc = env_clients(7) [OF env]
  from run have cou: "kCreateOrUpdate (jobClient env) ?x p ?f w = (r, w')" by (simp add: createDSJob_def)
  show ?thesis
  proof (cases "jobs (view w) (objkey ?x)")
    case (Some old)
    with jobCallback.existing_untouched [OF kc Some cou] show ?thesis by blast
  next
    case None
    have "jobCompletionTime y = None" if "?f ?x p w1 = (Ret (None, y, l1), w2)" for w1 y l1 w2
      using that by (auto simp: jobMutate_def isZero_def ret_apply Let_def newJob_def split: prod.splits)
    with jobK.cou_effect [OF kc jobMutate_quiet cou] None show ?thesis by (auto simp: jobAcc_def)
  qed
qed

text \<open>
  A job is made once. After a successful call the job of the owner's name exists. If
  it existed before, it is the same and nothing in the cluster changed, so a backup or restore is
  not run twice; if not, its pod mounts the given backup and data claims, runs the given image, is
  well formed, and the job is owned by the backup or restore resource.
\<close>

theorem job_created_once:
  assumes env: "env_documented view env"
    and run: "createDSJob fl env p b t args ownerKd owner knd w = (Ret (None, j, p'), w')"
  shows "jobs (view w') (Namespace owner, Name owner) = Some j \<and>
    (case jobs (view w) (Namespace owner, Name owner) of
       Some old \<Rightarrow> j = old \<and> view w' = view w
     | None \<Rightarrow> {\<lparr>volName = ''backup'', volSource = PvcVolume b\<rparr>,
                 \<lparr>volName = ''data'', volSource = PvcVolume (Name (ObjectMeta p))\<rparr>} \<subseteq> set (Volumes (ptSpec (jobTemplate j))) \<and>
               map Image (Containers (ptSpec (jobTemplate j))) = [tImage t] \<and>
               podWellFormed [] (jobPodSpec fl (Namespace owner) p b t args) \<and>
               (\<exists>r \<in> set (OwnerReferences (ObjectMeta j)). orUID r = UID owner))"
proof -
  note s = createDSJob_success [OF env run]
  have "map Image (Containers (ptSpec (jobTemplate j))) = [tImage t]"
    if "map (\<lambda>c. (cName c, Image c)) (Containers (ptSpec (jobTemplate j))) = [(''ds-job'', tImage t)]"
    using that by auto
  with s show ?thesis by (auto simp: jobPodSpec_wellFormed jobVolumes_def split: option.splits)
qed

section \<open>A sample job\<close>

lemma jobMutate_fresh:
  "SetOwnerReference env ownerKd owner m = (None, rs) \<Longrightarrow> CreationTimestamp (ObjectMeta j) = None \<Longrightarrow>
   m = (ObjectMeta j)\<lparr>Labels := Some (createLabels (Name (ObjectMeta j)) knd None)\<rparr> \<Longrightarrow>
   \<exists>y p'. jobMutate env pod ownerKd owner knd j p w = (Ret (None, y, p'), w) \<and> objkey y = objkey j"
  by (simp add: jobMutate_def Let_def ret_def isZero_def objkey_def)

lemma memRef_owner: "\<exists>rs. memRef False kd ow m = (None, rs)"
  by (simp add: memRef_def Let_def)

lemma mem_createDSJob:
  assumes none: "lookupObj (mJobs w) (Namespace ow, Name ow) = None"
  obtains j p' where "createDSJob fl memEnv p b t args kd ow knd w = (Ret (None, j, p'), w\<lparr>mJobs := j # dropKey (Namespace ow, Name ow) (mJobs w)\<rparr>)"
proof -
  let ?x = "newJob (Namespace ow) (Name ow)"
  let ?f = "jobMutate memEnv (jobPodSpec fl (Namespace ow) p b t args) kd ow knd"
  have "SetOwnerReference memEnv = memRef False" by (simp add: memEnv_def)
  then obtain y p' where f: "?f ?x p w = (Ret (None, y, p'), w)" "objkey y = objkey ?x"
    using memRef_owner jobMutate_fresh [of memEnv kd ow _ _ ?x knd] by (metis ObjectMeta_new(5) meta_named(6))
  have "lookupObj (mJobs w) (objkey ?x) = None" using none by simp
  then obtain z where "kCreateOrUpdate (memClient mJobs (\<lambda>xs w. w\<lparr>mJobs := xs\<rparr>) keepStamp keepStamp) ?x p ?f w =
      (Ret (None, z, p'), w\<lparr>mJobs := z # dropKey (objkey ?x) (mJobs w)\<rparr>)"
    using f by (rule mem_cou_makes)
  then show thesis by (intro that [of z p']) (simp add: createDSJob_def memEnv_def)
qed

theorem job_created_once_witness:
  "\<exists>j p' w'. createDSJob plainFlags memEnv (newPVC ''prod'' ''temp-b'') ''b'' sampleTemplate [''backup''] KDb
       (named ''prod'' ''b'') ''DirectoryBackup'' emptyMem = (Ret (None, j, p'), w') \<and>
     jobs (memView w') (''prod'', ''b'') = Some j \<and> map Image (Containers (ptSpec (jobTemplate j))) = [''ds:7'']"
proof -
  have "lookupObj (mJobs emptyMem) (Namespace (named ''prod'' ''b''), Name (named ''prod'' ''b'')) = None" by (simp add: emptyMem_def)
  then obtain j p' w' where run: "createDSJob plainFlags memEnv (newPVC ''prod'' ''temp-b'') ''b'' sampleTemplate [''backup''] KDb
      (named ''prod'' ''b'') ''DirectoryBackup'' emptyMem = (Ret (None, j, p'), w')"
    by (rule mem_createDSJob)
  have "jobs (memView emptyMem) (''prod'', ''b'') = None" by (simp add: memView_def emptyMem_def)
  with job_created_once [OF memEnv_documented run] run show ?thesis by (auto simp: sampleTemplate_def)
qed

end
