(* ===== verification/Backups.thy ===== *)
theory Backups
  imports Ds_Controller Jobs
begin

text \<open>
  \<open>src/controllers/directorybackup_controller.go\<close>: a backup takes a snapshot of the named
  volume claim, makes a second claim from the snapshot, and runs a job that copies it to the
  backup claim. All objects are in the backup's namespace; the snapshot and the copy are called
  \<open>temp-<name>\<close>, the backup claim and the job \<open><name>\<close>.
\<close>

section \<open>Model\<close>

abbreviation dbName :: "directoryBackup \<Rightarrow> string" where
  "dbName db \<equiv> Name (ObjectMeta db)"

abbreviation dbNamespace :: "directoryBackup \<Rightarrow> string" where
  "dbNamespace db \<equiv> Namespace (ObjectMeta db)"

definition tempName :: "string \<Rightarrow> string" where
  "tempName n = ''temp-'' @ n"

definition SnapshotApiGroupString :: string where
  "SnapshotApiGroupString = ''snapshot.storage.k8s.io''"

text \<open>\<open>r.Get\<close> of the job, where a missing job is the zero value and no error.\<close>

definition fetchJob :: "'w env \<Rightarrow> nsname \<Rightarrow> ('w, goerr + job) M" where
  "fetchJob env req =
     bindM (callM (kGet (jobClient env) req)) (\<lambda>r.
       case r of
         Inr j \<Rightarrow> ret (Inr j)
       | Inl err \<Rightarrow> (case IgnoreNotFound err of Some e \<Rightarrow> ret (Inl e) | None \<Rightarrow> ret (Inr (newJob '''' ''''))))"

definition recordJob :: "job \<Rightarrow> backupStatus \<Rightarrow> backupStatus" where
  "recordJob j s =
     (if \<not> isZero (CreationTimestamp (ObjectMeta j)) then
        (let s = s\<lparr>StartTimestamp := Some (CreationTimestamp (ObjectMeta j))\<rparr> in
         if jobCompletionTime j \<noteq> None then s\<lparr>CompletionTimestamp := jobCompletionTime j\<rparr> else s)
      else s)"

definition backupPvcMutate :: "directoryBackup \<Rightarrow> ('w, persistentVolumeClaim, unit) mutateFn" where
  "backupPvcMutate db pvc l =
     (if isZero (CreationTimestamp (ObjectMeta pvc)) then
        ret (None, pvc\<lparr>ObjectMeta := (ObjectMeta pvc)\<lparr>Labels := Some (createLabels (Name (ObjectMeta pvc)) (dbKind db) None),
                         Annotations := Some pvcAnnotations\<rparr>,
                       pvcSpec := VolumeClaimSpec (dbPodTemplate db)\<rparr>, l)
      else ret (None, pvc, l))"

text \<open>\<open>return controllerutil.SetOwnerReference(&db, &x, r.Scheme)\<close>\<close>

definition ownedByBackup :: "'w env \<Rightarrow> directoryBackup \<Rightarrow> 'x k8sobj_scheme \<Rightarrow> goerr option \<times> 'x k8sobj_scheme" where
  "ownedByBackup env db x =
     (case SetOwnerReference env KDb (ObjectMeta db) (ObjectMeta x) of (err, refs) \<Rightarrow>
        (err, x\<lparr>ObjectMeta := (ObjectMeta x)\<lparr>OwnerReferences := refs\<rparr>\<rparr>))"

definition backupSnapMutate :: "'w env \<Rightarrow> directoryBackup \<Rightarrow> ('w, volumeSnapshot, unit) mutateFn" where
  "backupSnapMutate env db snap l =
     (let snap = (if isZero (CreationTimestamp (ObjectMeta snap)) then
          snap\<lparr>ObjectMeta := (ObjectMeta snap)\<lparr>Labels := Some (createLabels (Name (ObjectMeta snap)) (dbKind db) None)\<rparr>,
               vsClassName := Some (VolumeSnapshotClassName (dbPodTemplate db)),
               vsSourcePVC := Some (ClaimToBackup db)\<rparr>
        else snap) in
      case ownedByBackup env db snap of (err, snap) \<Rightarrow> ret (err, snap, l))"

definition backupDataMutate :: "'w env \<Rightarrow> directoryBackup \<Rightarrow> string \<Rightarrow> ('w, persistentVolumeClaim, unit) mutateFn" where
  "backupDataMutate env db snapName pvc l =
     (let pvc = (if isZero (CreationTimestamp (ObjectMeta pvc)) then
          pvc\<lparr>ObjectMeta := (ObjectMeta pvc)\<lparr>Labels := Some (createLabels snapName (dbKind db) None),
                Annotations := Some pvcAnnotations\<rparr>,
              pvcSpec := (VolumeClaimSpec (dbPodTemplate db))\<lparr>DataSource :=
                Some \<lparr>refAPIGroup = Some SnapshotApiGroupString, refKind = ''VolumeSnapshot'', refName = snapName\<rparr>\<rparr>\<rparr>
        else pvc) in
      case ownedByBackup env db pvc of (err, pvc) \<Rightarrow> ret (err, pvc, l))"

text \<open>The part of \<open>Reconcile\<close> that creates the objects, backwards.\<close>

definition backupJobStage ::
  "flags \<Rightarrow> 'w env \<Rightarrow> directoryBackup \<Rightarrow> persistentVolumeClaim \<Rightarrow> persistentVolumeClaim \<Rightarrow> ('w, ctrlResult \<times> goerr option) M" where
  "backupJobStage fl env db pvc dataPVC =
     bindM (createDSJob fl env dataPVC (Name (ObjectMeta pvc)) (dbPodTemplate db) [''backup''] KDb (ObjectMeta db) (dbKind db))
       (\<lambda>(err, j, p). ret (noResult, err))"

definition backupDataStage ::
  "flags \<Rightarrow> 'w env \<Rightarrow> directoryBackup \<Rightarrow> persistentVolumeClaim \<Rightarrow> volumeSnapshot \<Rightarrow> ('w, ctrlResult \<times> goerr option) M" where
  "backupDataStage fl env db pvc snap =
     bindM (kCreateOrUpdate (pvcClient env) (newPVC (Namespace (ObjectMeta snap)) (Name (ObjectMeta snap))) ()
         (backupDataMutate env db (Name (ObjectMeta snap)))) (\<lambda>(err, dataPVC, l).
       case err of Some e \<Rightarrow> ret (noResult, Some e) | None \<Rightarrow> backupJobStage fl env db pvc dataPVC)"

definition backupSnapStage ::
  "flags \<Rightarrow> 'w env \<Rightarrow> directoryBackup \<Rightarrow> persistentVolumeClaim \<Rightarrow> ('w, ctrlResult \<times> goerr option) M" where
  "backupSnapStage fl env db pvc =
     bindM (kCreateOrUpdate (snapClient env) (newSnapshot (dbNamespace db) (tempName (dbName db))) () (backupSnapMutate env db))
       (\<lambda>(err, snap, l).
       case err of Some e \<Rightarrow> ret (noResult, Some e) | None \<Rightarrow> backupDataStage fl env db pvc snap)"

definition backupObjects :: "flags \<Rightarrow> 'w env \<Rightarrow> directoryBackup \<Rightarrow> ('w, ctrlResult \<times> goerr option) M" where
  "backupObjects fl env db =
     bindM (kCreateOrUpdate (pvcClient env) (newPVC (dbNamespace db) (dbName db)) () (backupPvcMutate db)) (\<lambda>(err, pvc, l).
       case err of Some e \<Rightarrow> ret (noResult, Some e) | None \<Rightarrow> backupSnapStage fl env db pvc)"

definition statusUpdateDB :: "'w env \<Rightarrow> directoryBackup \<Rightarrow> ('w, goerr option \<times> directoryBackup) M" where
  "statusUpdateDB env db =
     bindM (callM (kStatusUpdate (dbClient env) db)) (\<lambda>r.
       case r of Inl err \<Rightarrow> ret (Some err, db) | Inr db' \<Rightarrow> ret (None, db'))"

definition ReconcileBackup :: "flags \<Rightarrow> 'w env \<Rightarrow> nsname \<Rightarrow> ('w, ctrlResult \<times> goerr option) M" where
  "ReconcileBackup fl env req =
     bindM (callM (kGet (dbClient env) req)) (\<lambda>r.
       case r of
         Inl err \<Rightarrow> ret (noResult, IgnoreNotFound err)
       | Inr db \<Rightarrow>
           bindM (fetchJob env req) (\<lambda>rj.
             case rj of
               Inl err \<Rightarrow> ret (noResult, Some err)
             | Inr backupJob \<Rightarrow>
                 bindM (statusUpdateDB env (db\<lparr>dbStatus := recordJob backupJob (dbStatus db)\<rparr>)) (\<lambda>(err, db).
                   case err of Some e \<Rightarrow> ret (noResult, Some e) | None \<Rightarrow> backupObjects fl env db)))"

section \<open>Callbacks\<close>

interpretation backupPvcCallback: create_only KPvc pvcs "\<lambda>m s. s\<lparr>pvcs := m\<rparr>" "backupPvcMutate db" k for db k
  by unfold_locales (auto simp: backupPvcMutate_def created_def ret_apply objkey_def split: if_splits)

lemma ownedByBackup_simps [simp]:
  "objkey (snd (ownedByBackup env db x)) = objkey x"
  "vsSourcePVC (snd (ownedByBackup env db s)) = vsSourcePVC s"
  "pvcSpec (snd (ownedByBackup env db p)) = pvcSpec p"
  by (simp_all add: ownedByBackup_def objkey_def split: prod.splits)

lemma backupSnapMutate_eq:
  "backupSnapMutate env db s l w =
     (let s1 = (if created s then s
          else s\<lparr>ObjectMeta := (ObjectMeta s)\<lparr>Labels := Some (createLabels (Name (ObjectMeta s)) (dbKind db) None)\<rparr>,
               vsClassName := Some (VolumeSnapshotClassName (dbPodTemplate db)), vsSourcePVC := Some (ClaimToBackup db)\<rparr>) in
      (Ret (fst (ownedByBackup env db s1), snd (ownedByBackup env db s1), l), w))"
  by (simp add: backupSnapMutate_def Let_def ret_def created_def split: prod.splits)

lemma backupDataMutate_eq:
  "backupDataMutate env db n p l w =
     (let p1 = (if created p then p
          else p\<lparr>ObjectMeta := (ObjectMeta p)\<lparr>Labels := Some (createLabels n (dbKind db) None), Annotations := Some pvcAnnotations\<rparr>,
              pvcSpec := (VolumeClaimSpec (dbPodTemplate db))\<lparr>DataSource :=
                Some \<lparr>refAPIGroup = Some SnapshotApiGroupString, refKind = ''VolumeSnapshot'', refName = n\<rparr>\<rparr>\<rparr>) in
      (Ret (fst (ownedByBackup env db p1), snd (ownedByBackup env db p1), l), w))"
  by (simp add: backupDataMutate_def Let_def ret_def created_def split: prod.splits)

lemma backup_keys:
  "objkey (s\<lparr>ObjectMeta := (ObjectMeta s)\<lparr>Labels := x\<rparr>, vsClassName := a, vsSourcePVC := b\<rparr>) = objkey s"
  "objkey (p\<lparr>ObjectMeta := (ObjectMeta p)\<lparr>Labels := x, Annotations := y\<rparr>, pvcSpec := c\<rparr>) = objkey p"
  by (simp_all add: objkey_def)

interpretation backupSnapCallback: mutate_fn KSnap snapshots "\<lambda>m s. s\<lparr>snapshots := m\<rparr>" "backupSnapMutate env db" k "\<lambda>_. True"
  for env db k
  by unfold_locales (auto simp: backupSnapMutate_eq backup_keys Let_def split: if_splits)

interpretation backupDataCallback: mutate_fn KPvc pvcs "\<lambda>m s. s\<lparr>pvcs := m\<rparr>" "backupDataMutate env db n" k "\<lambda>_. True"
  for env db n k
  by unfold_locales (auto simp: backupDataMutate_eq backup_keys Let_def split: if_splits)

section \<open>Footprint\<close>

lemma tempName_neq [simp]: "tempName n \<noteq> n" "n \<noteq> tempName n"
proof -
  have "length (tempName n) \<noteq> length n" by (simp add: tempName_def)
  then show "tempName n \<noteq> n" "n \<noteq> tempName n" by auto
qed

definition backupMade :: "directoryBackup \<Rightarrow> (kind \<times> nsname) set" where
  "backupMade db = {(KPvc, objkey db), (KSnap, dbNamespace db, tempName (dbName db)),
     (KPvc, dbNamespace db, tempName (dbName db)), (KJob, objkey db)}"

definition backupOwn :: "directoryBackup \<Rightarrow> (kind \<times> nsname) set" where
  "backupOwn db = insert (KDb, objkey db) (backupMade db)"

lemma backupMade_mem:
  "(KPvc, dbNamespace db, dbName db) \<in> backupMade db" "(KJob, dbNamespace db, dbName db) \<in> backupMade db"
  "(KSnap, dbNamespace db, tempName (dbName db)) \<in> backupMade db" "(KPvc, dbNamespace db, tempName (dbName db)) \<in> backupMade db"
  "(KDb, k) \<notin> backupMade db" "backupMade db \<subseteq> backupOwn db"
  by (auto simp: backupMade_def backupOwn_def objkey_def)

lemma backupMade_key: "objkey db' = objkey db \<Longrightarrow> backupMade db' = backupMade db"
  by (simp add: backupMade_def objkey_def)

lemma backup_quiet:
  "pres (stays K view) (backupPvcMutate db y m)"
  "pres (stays K view) (backupSnapMutate env db y2 m)"
  "pres (stays K view) (backupDataMutate env db n y m)"
  by (auto simp: backupPvcMutate_def backupSnapMutate_def backupDataMutate_def Let_def intro: frame.pres_ret split: prod.splits)

lemma fetchJob_quiet: "env_documented view env \<Longrightarrow> pres (stays K view) (fetchJob env req)"
  unfolding fetchJob_def
  by (auto intro!: frame.pres_bindM frame.pres_ret jobK.get_stays env_clients(7) split: sum.splits option.splits)

text \<open>The job the reconciler sees is the stored one, or the zero value when there is none.\<close>

definition storedJob :: "store \<Rightarrow> nsname \<Rightarrow> job" where
  "storedJob s req = (case jobs s req of Some j \<Rightarrow> j | None \<Rightarrow> newJob '''' '''')"

lemma fetchJob_Inr:
  assumes env: "env_documented view env" and run: "fetchJob env req w = (Ret (Inr j), w')"
  shows "j = storedJob (view w) req \<and> view w' = view w \<and> (created j \<longleftrightarrow> jobs (view w) req \<noteq> None)"
proof -
  note kc = env_clients(7) [OF env]
  obtain g w1 where g: "kGet (jobClient env) req w = (g, w1)" by (cases "kGet (jobClient env) req w")
  from jobK.get_view [OF kc g] have v: "view w1 = view w" .
  from g run jobK.get_Inr [OF kc, of req w _ w1] jobK.get_NotFound [OF kc, of req w w1] v show ?thesis
    by (auto simp: fetchJob_def bindM_def callM_def ret_def storedJob_def IgnoreNotFound_def created_def isZero_def
        split: sum.splits option.splits if_splits)
qed

lemma statusUpdateDB_stays:
  "env_documented view env \<Longrightarrow> (KDb, objkey db) \<in> K \<Longrightarrow> pres (stays K view) (statusUpdateDB env db)"
  unfolding statusUpdateDB_def
  by (auto intro!: frame.pres_bindM frame.pres_ret dbK.statusUpdate_stays env_clients(9) split: sum.splits)

lemma statusUpdateDB_None:
  assumes "env_documented view env" and "statusUpdateDB env db w = (Ret (None, y), w')"
  shows "objkey y = objkey db \<and> dbAccS (directorybackups (view w) (objkey db)) db y \<and>
    directorybackups (view w') (objkey db) = Some y"
proof -
  from assms(2) have "kStatusUpdate (dbClient env) db w = (Inr y, w')"
    by (cases "kStatusUpdate (dbClient env) db w") (auto simp: statusUpdateDB_def bindM_def callM_def ret_def split: sum.splits)
  from dbK.statusUpdate_Inr [OF env_clients(9) [OF assms(1)] this] show ?thesis by simp
qed

lemma backupJobStage_stays:
  "env_documented view env \<Longrightarrow> pres (stays (backupMade db) view) (backupJobStage fl env db pvc dataPVC)"
  unfolding backupJobStage_def by (auto intro!: frame.pres_bindM frame.pres_ret createDSJob_stays backupMade_mem)

lemma backupDataStage_stays:
  assumes env: "env_documented view env" and "objkey snap = (dbNamespace db, tempName (dbName db))"
  shows "pres (stays (backupMade db) view) (backupDataStage fl env db pvc snap)"
  unfolding backupDataStage_def using assms(2)
  by (auto intro!: frame.pres_bindM frame.pres_ret pvcK.cou_stays [OF env_clients(1) [OF env] backup_quiet(3)]
      backupJobStage_stays [OF env] backupMade_mem simp: objkey_def split: option.splits)

lemma backupSnapStage_stays:
  assumes env: "env_documented view env"
  shows "pres (stays (backupMade db) view) (backupSnapStage fl env db pvc)"
  unfolding backupSnapStage_def
proof (rule frame.pres_bindM_reach, goal_cases)
  case 1
  show ?case by (rule snapK.cou_stays [OF env_clients(6) [OF env] backup_quiet(2)]) (simp add: backupMade_mem)
next
  case (2 x w w1)
  obtain err snap l where x: "x = (err, snap, l)" by (cases x)
  have "objkey snap = (dbNamespace db, tempName (dbName db))" if "err = None"
    using snapK.cou_key [OF env_clients(6) [OF env] backup_quiet(2) 2 [unfolded x that]] by simp
  with x show ?case by (auto intro!: frame.pres_ret backupDataStage_stays [OF env] split: option.splits)
qed

lemma backupObjects_stays:
  assumes env: "env_documented view env"
  shows "pres (stays (backupMade db) view) (backupObjects fl env db)"
  unfolding backupObjects_def
  by (auto intro!: frame.pres_bindM frame.pres_ret pvcK.cou_stays [OF env_clients(1) [OF env] backup_quiet(1)]
      backupSnapStage_stays [OF env] backupMade_mem split: option.splits)

definition backupBody :: "flags \<Rightarrow> 'w env \<Rightarrow> nsname \<Rightarrow> directoryBackup \<Rightarrow> ('w, ctrlResult \<times> goerr option) M" where
  "backupBody fl env req db =
     bindM (fetchJob env req) (\<lambda>rj.
       case rj of
         Inl err \<Rightarrow> ret (noResult, Some err)
       | Inr backupJob \<Rightarrow>
           bindM (statusUpdateDB env (db\<lparr>dbStatus := recordJob backupJob (dbStatus db)\<rparr>)) (\<lambda>(err, db).
             case err of Some e \<Rightarrow> ret (noResult, Some e) | None \<Rightarrow> backupObjects fl env db))"

lemma ReconcileBackup_body:
  "ReconcileBackup fl env req = bindM (callM (kGet (dbClient env) req))
     (\<lambda>r. case r of Inl err \<Rightarrow> ret (noResult, IgnoreNotFound err) | Inr db \<Rightarrow> backupBody fl env req db)"
  unfolding ReconcileBackup_def backupBody_def by (rule refl)

lemma ReconcileBackup_cases:
  assumes env: "env_documented view env" and run: "ReconcileBackup fl env req w = (r, w')"
  obtains (missing) err w1 where "kGet (dbClient env) req w = (Inl err, w1)" "r = Ret (noResult, IgnoreNotFound err)"
      "view w' = view w"
  | (found) db w1 where "directorybackups (view w) req = Some db" "objkey db = req" "view w1 = view w"
      "backupBody fl env req db w1 = (r, w')"
proof -
  obtain g w1 where g: "kGet (dbClient env) req w = (g, w1)" by (cases "kGet (dbClient env) req w")
  note kc = env_clients(9) [OF env]
  have v1: "view w1 = view w" by (rule dbK.get_view [OF kc g])
  show thesis
  proof (cases g)
    case (Inl err)
    with g run v1 show thesis by (intro missing) (auto simp: ReconcileBackup_body bindM_def callM_def ret_def)
  next
    case (Inr db)
    with g run v1 dbK.get_Inr [OF kc g [unfolded Inr]] show thesis
      by (intro found) (auto simp: ReconcileBackup_body bindM_def callM_def)
  qed
qed

lemma backupBody_stays:
  assumes env: "env_documented view env"
  shows "pres (stays (backupOwn db) view) (backupBody fl env req db)"
  unfolding backupBody_def
proof (rule frame.pres_bindM [OF fetchJob_quiet [OF env]])
  fix rj
  let ?db = "\<lambda>j. db\<lparr>dbStatus := recordJob j (dbStatus db)\<rparr>"
  have key: "objkey (?db j) = objkey db" for j by (simp add: objkey_def)
  have st: "pres (stays (backupOwn db) view) (statusUpdateDB env (?db j))" for j
    by (rule statusUpdateDB_stays [OF env]) (simp add: key backupOwn_def)
  have "pres (stays (backupOwn db) view) (backupObjects fl env db')"
    if "statusUpdateDB env (?db j) w = (Ret (None, db'), w1)" for j db' w w1
    using pres_stays_mono [OF backupObjects_stays [OF env, of db' fl]] statusUpdateDB_None [OF env that] key backupMade_key [of db' db]
      backupMade_mem(6) [of db] by simp
  then show "pres (stays (backupOwn db) view) (case rj of Inl err \<Rightarrow> ret (noResult, Some err)
      | Inr j \<Rightarrow> bindM (statusUpdateDB env (?db j)) (\<lambda>(err, db).
          case err of Some e \<Rightarrow> ret (noResult, Some e) | None \<Rightarrow> backupObjects fl env db))"
    by (auto intro!: frame.pres_ret frame.pres_bindM_reach [OF st] split: sum.splits option.splits)
qed

section \<open>What a backup leaves behind\<close>

lemma backupObjects_successE:
  assumes env: "env_documented view env" and run: "backupObjects fl env db w = (Ret (res, None), w')"
  obtains pvc snap dat j p w1 w2 w3 where
    "kCreateOrUpdate (pvcClient env) (newPVC (dbNamespace db) (dbName db)) () (backupPvcMutate db) w = (Ret (None, pvc, ()), w1)"
    "kCreateOrUpdate (snapClient env) (newSnapshot (dbNamespace db) (tempName (dbName db))) () (backupSnapMutate env db) w1 =
       (Ret (None, snap, ()), w2)"
    "kCreateOrUpdate (pvcClient env) (newPVC (dbNamespace db) (tempName (dbName db))) ()
       (backupDataMutate env db (tempName (dbName db))) w2 = (Ret (None, dat, ()), w3)"
    "createDSJob fl env dat (dbName db) (dbPodTemplate db) [''backup''] KDb (ObjectMeta db) (dbKind db) w3 = (Ret (None, j, p), w')"
    "Name (ObjectMeta dat) = tempName (dbName db)" "res = noResult"
proof -
  from run obtain pvc w1 where a: "kCreateOrUpdate (pvcClient env) (newPVC (dbNamespace db) (dbName db)) () (backupPvcMutate db) w =
      (Ret (None, pvc, ()), w1)" and sn: "backupSnapStage fl env db pvc w1 = (Ret (res, None), w')"
    by (auto simp: backupObjects_def bindM_eq_Ret ret_apply split: option.splits)
  from sn obtain snap w2 where b: "kCreateOrUpdate (snapClient env) (newSnapshot (dbNamespace db) (tempName (dbName db))) ()
      (backupSnapMutate env db) w1 = (Ret (None, snap, ()), w2)" and da: "backupDataStage fl env db pvc snap w2 = (Ret (res, None), w')"
    by (auto simp: backupSnapStage_def bindM_eq_Ret ret_apply split: option.splits)
  from snapK.cou_key [OF env_clients(6) [OF env] backup_quiet(2) b]
  have sk: "Namespace (ObjectMeta snap) = dbNamespace db" "Name (ObjectMeta snap) = tempName (dbName db)" by (simp_all add: objkey_def)
  with da obtain dat w3 where c: "kCreateOrUpdate (pvcClient env) (newPVC (dbNamespace db) (tempName (dbName db))) ()
      (backupDataMutate env db (tempName (dbName db))) w2 = (Ret (None, dat, ()), w3)"
    and jo: "backupJobStage fl env db pvc dat w3 = (Ret (res, None), w')"
    by (auto simp: backupDataStage_def bindM_eq_Ret ret_apply split: option.splits)
  from pvcK.cou_key [OF env_clients(1) [OF env] backup_quiet(1) a] pvcK.cou_key [OF env_clients(1) [OF env] backup_quiet(3) c]
  have "Name (ObjectMeta pvc) = dbName db" "Name (ObjectMeta dat) = tempName (dbName db)" by (simp_all add: objkey_def)
  with jo a b c that show thesis by (auto simp: backupJobStage_def bindM_eq_Ret ret_apply)
qed

lemma backup_snapshot_step:
  assumes env: "env_documented view env"
    and run: "kCreateOrUpdate (snapClient env) (newSnapshot ns n) () (backupSnapMutate env db) w = (Ret (None, snap, l), w')"
  shows "snapshots (view w') (ns, n) = Some snap \<and>
    vsSourcePVC snap = (case snapshots (view w) (ns, n) of None \<Rightarrow> Some (ClaimToBackup db) | Some old \<Rightarrow> vsSourcePVC old)"
  using env_clients(6) [OF env] backup_quiet(2) run
proof (cases rule: snapK.cou_success)
  case (existing cur w1 w2 y)
  from existing(2,5) have "vsSourcePVC y = vsSourcePVC cur" by (auto simp: backupSnapMutate_eq)
  with existing show ?thesis by (auto simp: snapAcc_def)
next
  case (fresh w1 w2 y)
  from fresh(3) have "vsSourcePVC y = Some (ClaimToBackup db)" by (auto simp: backupSnapMutate_eq Let_def created_def isZero_def)
  with fresh show ?thesis by (auto simp: snapAcc_def)
qed

lemma backup_data_step:
  assumes env: "env_documented view env"
    and run: "kCreateOrUpdate (pvcClient env) (newPVC ns n) () (backupDataMutate env db m) w = (Ret (None, dat, l), w')"
  shows "pvcs (view w') (ns, n) = Some dat \<and>
    DataSource (pvcSpec dat) = (case pvcs (view w) (ns, n) of
       None \<Rightarrow> Some \<lparr>refAPIGroup = Some ''snapshot.storage.k8s.io'', refKind = ''VolumeSnapshot'', refName = m\<rparr>
     | Some old \<Rightarrow> DataSource (pvcSpec old))"
  using env_clients(1) [OF env] backup_quiet(3) run
proof (cases rule: pvcK.cou_success)
  case (existing cur w1 w2 y)
  from existing(2,5) have "pvcSpec y = pvcSpec cur" by (auto simp: backupDataMutate_eq)
  with existing show ?thesis by (auto simp: pvcAcc_def)
next
  case (fresh w1 w2 y)
  from fresh(3) have "DataSource (pvcSpec y) =
      Some \<lparr>refAPIGroup = Some ''snapshot.storage.k8s.io'', refKind = ''VolumeSnapshot'', refName = m\<rparr>"
    by (auto simp: backupDataMutate_eq Let_def created_def isZero_def SnapshotApiGroupString_def)
  with fresh show ?thesis by (auto simp: pvcAcc_def)
qed

lemma cou_stays_pvc:
  "env_documented view env \<Longrightarrow> (\<And>y m. pres (stays {} view) (f y m)) \<Longrightarrow>
   kCreateOrUpdate (pvcClient env) x l f w = (r, w') \<Longrightarrow> stays {(KPvc, objkey x)} view w w'"
  by (erule presD [rotated], rule pvcK.cou_stays [OF env_clients(1)]) (auto intro: stays_of_quiet)

lemma cou_stays_snap:
  "env_documented view env \<Longrightarrow> (\<And>y m. pres (stays {} view) (f y m)) \<Longrightarrow>
   kCreateOrUpdate (snapClient env) x l f w = (r, w') \<Longrightarrow> stays {(KSnap, objkey x)} view w w'"
  by (erule presD [rotated], rule snapK.cou_stays [OF env_clients(6)]) (auto intro: stays_of_quiet)

text \<open>Written backup data and jobs that ran are kept.\<close>

definition backupKeeps :: "('w \<Rightarrow> store) \<Rightarrow> nsname \<Rightarrow> 'w \<Rightarrow> 'w \<Rightarrow> bool" where
  "backupKeeps view req w w' \<longleftrightarrow>
     (\<forall>p. pvcs (view w) req = Some p \<longrightarrow> pvcs (view w') req = Some p) \<and> jobs (view w) \<subseteq>\<^sub>m jobs (view w')"

interpretation backupOrder: world_order "backupKeeps view req" for view :: "'w \<Rightarrow> store" and req
  by unfold_locales (auto simp: backupKeeps_def intro: map_le_trans)

lemma stays_backupKeeps:
  "pres (stays K view) m \<Longrightarrow> (KPvc, req) \<notin> K \<Longrightarrow> KJob \<notin> fst ` K \<Longrightarrow> pres (backupKeeps view req) m"
  by (erule pres_mono) (simp add: backupKeeps_def pvcK.stays_at jobK.stays_kind)

lemma createDSJob_backupKeeps:
  assumes env: "env_documented view env"
  shows "pres (backupKeeps view req) (createDSJob fl env p b t a kd ow k)"
proof (rule presI)
  fix w r w'
  assume run: "createDSJob fl env p b t a kd ow k w = (r, w')"
  have "stays {(KJob, Namespace ow, Name ow)} view w w'" by (rule presD [OF createDSJob_stays [OF env] run]) simp
  with presD [OF createDSJob_grows [OF env] run] show "backupKeeps view req w w'" by (simp add: backupKeeps_def pvcK.stays_at)
qed

lemma backupPvc_backupKeeps:
  assumes env: "env_documented view env"
  shows "pres (backupKeeps view req) (kCreateOrUpdate (pvcClient env) x l (backupPvcMutate db))"
proof (rule presI)
  fix w r w'
  assume run: "kCreateOrUpdate (pvcClient env) x l (backupPvcMutate db) w = (r, w')"
  from cou_stays_pvc [OF env backup_quiet(1) run] have "jobs (view w') = jobs (view w)" by (rule jobK.stays_kind) simp
  with backupPvcCallback.cou_grows [OF env_clients(1) [OF env] backup_quiet(1) run]
  show "backupKeeps view req w w'" unfolding backupKeeps_def map_le_def by (metis domI)
qed

lemma backupObjects_keeps:
  assumes env: "env_documented view env" and req: "req = (dbNamespace db, dbName db)"
  shows "pres (backupKeeps view req) (backupObjects fl env db)"
proof -
  have snap: "pres (backupKeeps view req) (kCreateOrUpdate (snapClient env) x () (backupSnapMutate env db))" for x
    by (rule stays_backupKeeps [OF snapK.cou_stays [OF env_clients(6) [OF env] backup_quiet(2), where K = "{(KSnap, objkey x)}"]]) simp_all
  have data: "pres (backupKeeps view req) (kCreateOrUpdate (pvcClient env) x () (backupDataMutate env db n))" if "objkey x \<noteq> req" for x n
    by (rule stays_backupKeeps [OF pvcK.cou_stays [OF env_clients(1) [OF env] backup_quiet(3), where K = "{(KPvc, objkey x)}"]])
      (use that in auto)
  have dataStage: "pres (backupKeeps view req) (backupDataStage fl env db pvc sn)" if "Name (ObjectMeta sn) = tempName (dbName db)" for pvc sn
    unfolding backupDataStage_def backupJobStage_def
    by (rule backupOrder.pres_bindM [OF data])
      (auto intro!: backupOrder.pres_bindM backupOrder.pres_ret createDSJob_backupKeeps [OF env] simp: that req split: option.splits)
  have snapStage: "pres (backupKeeps view req) (backupSnapStage fl env db pvc)" for pvc
    unfolding backupSnapStage_def
  proof (rule backupOrder.pres_bindM_reach [OF snap])
    fix x w w1
    assume run: "kCreateOrUpdate (snapClient env) (newSnapshot (dbNamespace db) (tempName (dbName db))) () (backupSnapMutate env db) w = (Ret x, w1)"
    obtain err sn l where x: "x = (err, sn, l)" by (cases x)
    have "Name (ObjectMeta sn) = tempName (dbName db)" if "err = None"
      using snapK.cou_key [OF env_clients(6) [OF env] backup_quiet(2) run [unfolded x that]] by (simp add: objkey_def)
    with x show "pres (backupKeeps view req) (case x of (err, snap, l) \<Rightarrow>
        case err of None \<Rightarrow> backupDataStage fl env db pvc snap | Some e \<Rightarrow> ret (noResult, Some e))"
      by (auto intro!: backupOrder.pres_ret dataStage split: option.splits)
  qed
  show ?thesis
    unfolding backupObjects_def
    by (auto intro!: backupOrder.pres_bindM backupOrder.pres_ret backupPvc_backupKeeps [OF env] snapStage split: option.splits)
qed

lemma backupBody_keeps:
  assumes env: "env_documented view env" and req: "objkey db = req"
  shows "pres (backupKeeps view req) (backupBody fl env req db)"
proof -
  let ?db = "\<lambda>j. db\<lparr>dbStatus := recordJob j (dbStatus db)\<rparr>"
  have key: "objkey (?db j) = req" for j using req by (simp add: objkey_def)
  have st: "pres (backupKeeps view req) (statusUpdateDB env (?db j))" for j
    by (rule stays_backupKeeps [OF statusUpdateDB_stays [OF env, where K = "{(KDb, req)}"]]) (simp_all add: key)
  have ob: "pres (backupKeeps view req) (backupObjects fl env db')"
    if "statusUpdateDB env (?db j) w = (Ret (None, db'), w1)" for j db' w w1
    by (rule backupObjects_keeps [OF env]) (use statusUpdateDB_None [OF env that] key in \<open>simp add: objkey_def\<close>)
  have fe: "pres (backupKeeps view req) (fetchJob env req)"
    by (rule stays_backupKeeps [OF fetchJob_quiet [OF env, where K = "{}"]]) simp_all
  show ?thesis
    unfolding backupBody_def
    by (rule backupOrder.pres_bindM [OF fe])
      (auto intro!: backupOrder.pres_ret backupOrder.pres_bindM_reach [OF st] ob split: sum.splits option.splits)
qed

text \<open>
  Property C23. A backup stays within its own objects, and what was backed up is safe. However a
  reconciliation of a backup ends, it changes nothing but the backup's status, the claims
  \<open><name>\<close> and \<open>temp-<name>\<close>, the snapshot \<open>temp-<name>\<close> and the job \<open><name>\<close>. A claim \<open><name>\<close> that
  exists, which holds the data of an earlier run, is not written, and no job that exists is
  changed, so a backup is not run a second time.
\<close>

theorem backup_footprint:
  assumes env: "env_documented view env" and run: "ReconcileBackup fl env req w = (r, w')"
  shows "(case directorybackups (view w) req of
      None \<Rightarrow> view w' = view w
    | Some db \<Rightarrow> same_except (backupOwn db) (view w) (view w')) \<and>
    (\<forall>p. pvcs (view w) req = Some p \<longrightarrow> pvcs (view w') req = Some p) \<and> jobs (view w) \<subseteq>\<^sub>m jobs (view w')"
  using env run
proof (cases rule: ReconcileBackup_cases)
  case (missing err w1)
  then show ?thesis by (simp add: same_except_refl split: option.splits)
next
  case (found db w1)
  with presD [OF backupBody_stays [OF env] found(4)] presD [OF backupBody_keeps [OF env found(2)] found(4)]
  show ?thesis by (simp add: stays_def backupKeeps_def)
qed

lemma backupObjects_chain:
  assumes env: "env_documented view env" and run: "backupObjects fl env db w = (Ret (res, None), w')"
  shows "\<exists>p snap dat j. pvcs (view w') (dbNamespace db, dbName db) = Some p \<and>
    snapshots (view w') (dbNamespace db, tempName (dbName db)) = Some snap \<and>
    vsSourcePVC snap = (case snapshots (view w) (dbNamespace db, tempName (dbName db)) of
       None \<Rightarrow> Some (ClaimToBackup db) | Some old \<Rightarrow> vsSourcePVC old) \<and>
    pvcs (view w') (dbNamespace db, tempName (dbName db)) = Some dat \<and>
    DataSource (pvcSpec dat) = (case pvcs (view w) (dbNamespace db, tempName (dbName db)) of
       None \<Rightarrow> Some \<lparr>refAPIGroup = Some ''snapshot.storage.k8s.io'', refKind = ''VolumeSnapshot'', refName = tempName (dbName db)\<rparr>
     | Some old \<Rightarrow> DataSource (pvcSpec old)) \<and>
    jobs (view w') (dbNamespace db, dbName db) = Some j \<and>
    (case jobs (view w) (dbNamespace db, dbName db) of
       None \<Rightarrow> {\<lparr>volName = ''backup'', volSource = PvcVolume (dbName db)\<rparr>,
                 \<lparr>volName = ''data'', volSource = PvcVolume (tempName (dbName db))\<rparr>} \<subseteq> set (Volumes (ptSpec (jobTemplate j)))
     | Some old \<Rightarrow> j = old)"
  using env run
proof (rule backupObjects_successE, goal_cases)
  case (1 pvc snap dat j p w1 w2 w3)
  let ?ns = "dbNamespace db" and ?n = "dbName db" and ?t = "tempName (dbName db)"
  have s1: "stays {(KPvc, ?ns, ?n)} view w w1" using cou_stays_pvc [OF env backup_quiet(1) 1(1)] by simp
  have s2: "stays {(KSnap, ?ns, ?t)} view w1 w2" using cou_stays_snap [OF env backup_quiet(2) 1(2)] by simp
  have s3: "stays {(KPvc, ?ns, ?t)} view w2 w3" using cou_stays_pvc [OF env backup_quiet(3) 1(3)] by simp
  have s4: "stays {(KJob, ?ns, ?n)} view w3 w'" by (rule presD [OF createDSJob_stays [OF env] 1(4)]) simp
  have p: "pvcs (view w') (?ns, ?n) = Some pvc"
    using pvcK.cou_present [OF env_clients(1) [OF env] backup_quiet(1) 1(1)] pvcK.stays_at [OF s2] pvcK.stays_at [OF s3] pvcK.stays_at [OF s4]
    by simp
  have snap: "snapshots (view w') (?ns, ?t) = Some snap"
    "vsSourcePVC snap = (case snapshots (view w) (?ns, ?t) of None \<Rightarrow> Some (ClaimToBackup db) | Some old \<Rightarrow> vsSourcePVC old)"
    using backup_snapshot_step [OF env 1(2)] snapK.stays_at [OF s1] snapK.stays_at [OF s3] snapK.stays_at [OF s4] by auto
  have dat: "pvcs (view w') (?ns, ?t) = Some dat" "DataSource (pvcSpec dat) = (case pvcs (view w) (?ns, ?t) of
       None \<Rightarrow> Some \<lparr>refAPIGroup = Some ''snapshot.storage.k8s.io'', refKind = ''VolumeSnapshot'', refName = ?t\<rparr>
     | Some old \<Rightarrow> DataSource (pvcSpec old))"
    using backup_data_step [OF env 1(3)] pvcK.stays_at [OF s1] pvcK.stays_at [OF s2] pvcK.stays_at [OF s4] by auto
  have "jobs (view w3) = jobs (view w)"
    using jobK.stays_kind [OF s1] jobK.stays_kind [OF s2] jobK.stays_kind [OF s3] by simp
  with createDSJob_success [OF env 1(4)] 1(5)
  have "jobs (view w') (?ns, ?n) = Some j" "case jobs (view w) (?ns, ?n) of
      None \<Rightarrow> Volumes (ptSpec (jobTemplate j)) = jobVolumes dat ?n (dbPodTemplate db) | Some old \<Rightarrow> j = old"
    by (auto split: option.splits)
  with p snap dat 1(5) show ?case by (auto simp: jobVolumes_def split: option.splits)
qed

text \<open>What a reconciliation of a backup leaves behind when it succeeds.\<close>

lemma ReconcileBackup_success:
  assumes env: "env_documented view env" and stored: "directorybackups (view w) req = Some db"
    and run: "ReconcileBackup fl env req w = (Ret (res, None), w')"
  shows "\<exists>db' p snap dat j. (let tmp = (fst req, ''temp-'' @ snd req) in
    directorybackups (view w') req = Some db' \<and> dbStatus db' = recordJob (storedJob (view w) req) (dbStatus db) \<and>
    pvcs (view w') req = Some p \<and>
    snapshots (view w') tmp = Some snap \<and>
    vsSourcePVC snap = (case snapshots (view w) tmp of None \<Rightarrow> Some (ClaimToBackup db) | Some old \<Rightarrow> vsSourcePVC old) \<and>
    pvcs (view w') tmp = Some dat \<and>
    DataSource (pvcSpec dat) = (case pvcs (view w) tmp of
       None \<Rightarrow> Some \<lparr>refAPIGroup = Some ''snapshot.storage.k8s.io'', refKind = ''VolumeSnapshot'', refName = snd tmp\<rparr>
     | Some old \<Rightarrow> DataSource (pvcSpec old)) \<and>
    jobs (view w') req = Some j \<and>
    (case jobs (view w) req of
       None \<Rightarrow> {\<lparr>volName = ''backup'', volSource = PvcVolume (snd req)\<rparr>, \<lparr>volName = ''data'', volSource = PvcVolume (snd tmp)\<rparr>}
         \<subseteq> set (Volumes (ptSpec (jobTemplate j)))
     | Some old \<Rightarrow> j = old))"
  using env run
proof (cases rule: ReconcileBackup_cases)
  case (missing err w1)
  with stored dbK.get_NotFound [OF env_clients(9) [OF env]] show ?thesis by (auto simp: IgnoreNotFound_def split: if_splits)
next
  case (found d w1)
  with stored have d: "d = db" by simp
  from found(4) obtain x w2 where x: "fetchJob env req w1 = (Ret x, w2)"
    and rest: "(case x of Inl err \<Rightarrow> ret (noResult, Some err) | Inr j \<Rightarrow>
      bindM (statusUpdateDB env (db\<lparr>dbStatus := recordJob j (dbStatus db)\<rparr>)) (\<lambda>(err, db).
        case err of Some e \<Rightarrow> ret (noResult, Some e) | None \<Rightarrow> backupObjects fl env db)) w2 = (Ret (res, None), w')"
    by (auto simp: d backupBody_def bindM_eq_Ret)
  from rest obtain j0 where j: "x = Inr j0" by (cases x) (auto simp: ret_def)
  with rest obtain db' w3 where st: "statusUpdateDB env (db\<lparr>dbStatus := recordJob j0 (dbStatus db)\<rparr>) w2 = (Ret (None, db'), w3)"
    and ob: "backupObjects fl env db' w3 = (Ret (res, None), w')"
    by (auto simp: bindM_eq_Ret ret_apply split: option.splits)
  let ?db = "db\<lparr>dbStatus := recordJob j0 (dbStatus db)\<rparr>"
  have key: "objkey ?db = req" using found(2) d by (simp add: objkey_def)
  from fetchJob_Inr [OF env x [unfolded j]] found(3) have j0: "j0 = storedJob (view w) req" and v2: "view w2 = view w" by simp_all
  from statusUpdateDB_None [OF env st] v2 stored key
  have db': "objkey db' = req" "dbStatus db' = recordJob j0 (dbStatus db)" "ClaimToBackup db' = ClaimToBackup db"
    "directorybackups (view w3) req = Some db'" by (auto simp: dbAccS_def)
  have "stays {(KDb, req)} view w2 w3" by (rule presD [OF statusUpdateDB_stays [OF env] st]) (simp add: key)
  then have same: "pvcs (view w3) = pvcs (view w)" "snapshots (view w3) = snapshots (view w)" "jobs (view w3) = jobs (view w)"
    using v2 by (simp_all add: pvcK.stays_kind snapK.stays_kind jobK.stays_kind)
  have "directorybackups (view w') req = Some db'"
    using dbK.stays_at [OF presD [OF backupObjects_stays [OF env] ob] backupMade_mem(5)] db'(4) by simp
  moreover have "fst req = dbNamespace db'" "snd req = dbName db'" "req = (dbNamespace db', dbName db')"
    using db'(1) by (auto simp: objkey_def)
  ultimately show ?thesis
    using backupObjects_chain [OF env ob] db'(2,3) j0 same by (simp add: Let_def tempName_def cong: option.case_cong)
qed

text \<open>
  Property C9. The backup job sees a frozen copy of the data. When a reconciliation of a backup
  ends without an error, the whole chain is there: the snapshot \<open>temp-<name>\<close>, taken of the claim
  to back up, the claim \<open>temp-<name>\<close> made from that snapshot, the claim \<open><name>\<close> for the result and
  a job that mounts the copy as its data and the other as its backup volume. Each object that this
  run made is as described; a snapshot, copy or job that existed keeps its source, and the job is
  the same. The stored status of the backup is the start and completion time of the job as it was
  found.
\<close>

theorem backup_chain:
  assumes env: "env_documented view env" and stored: "directorybackups (view w) req = Some db"
    and run: "ReconcileBackup fl env req w = (Ret (res, None), w')"
  shows "\<exists>db' p snap dat j. (let tmp = (fst req, ''temp-'' @ snd req) in
    directorybackups (view w') req = Some db' \<and> dbStatus db' = recordJob (storedJob (view w) req) (dbStatus db) \<and>
    pvcs (view w') req = Some p \<and>
    snapshots (view w') tmp = Some snap \<and>
    vsSourcePVC snap = (case snapshots (view w) tmp of None \<Rightarrow> Some (ClaimToBackup db) | Some old \<Rightarrow> vsSourcePVC old) \<and>
    pvcs (view w') tmp = Some dat \<and>
    DataSource (pvcSpec dat) = (case pvcs (view w) tmp of
       None \<Rightarrow> Some \<lparr>refAPIGroup = Some ''snapshot.storage.k8s.io'', refKind = ''VolumeSnapshot'', refName = snd tmp\<rparr>
     | Some old \<Rightarrow> DataSource (pvcSpec old)) \<and>
    jobs (view w') req = Some j \<and>
    (case jobs (view w) req of
       None \<Rightarrow> {\<lparr>volName = ''backup'', volSource = PvcVolume (snd req)\<rparr>, \<lparr>volName = ''data'', volSource = PvcVolume (snd tmp)\<rparr>}
         \<subseteq> set (Volumes (ptSpec (jobTemplate j)))
     | Some old \<Rightarrow> j = old))"
  by (rule ReconcileBackup_success [OF assms])

section \<open>It always returns\<close>

lemma backup_noPanic:
  "noPanic (backupPvcMutate db y m)" "noPanic (backupSnapMutate env db y2 m)" "noPanic (backupDataMutate env db n y m)"
  by (auto simp: backupPvcMutate_def backupSnapMutate_def backupDataMutate_def Let_def intro: noPanic_ret split: prod.splits)

lemma fetchJob_noPanic: "noPanic (fetchJob env req)"
  unfolding fetchJob_def by (auto intro!: noPanic_intros split: sum.splits option.splits)

lemma ReconcileBackup_noPanic:
  assumes env: "env_documented view env"
  shows "noPanic (ReconcileBackup fl env req)"
  unfolding ReconcileBackup_def statusUpdateDB_def backupObjects_def backupSnapStage_def backupDataStage_def backupJobStage_def
  by (auto intro!: noPanic_intros fetchJob_noPanic createDSJob_noPanic [OF env] pvcK.cou_noPanic [OF env_clients(1) [OF env]]
      snapK.cou_noPanic [OF env_clients(6) [OF env]] backup_noPanic split: sum.splits option.splits)

section \<open>A sample backup\<close>

definition sampleDB :: directoryBackup where
  "sampleDB = \<lparr>ObjectMeta = (named ''prod'' ''nightly'')\<lparr>UID := ''u2'', CreationTimestamp := Some 50\<rparr>, dbKind = ''DirectoryBackup'',
     dbPodTemplate = sampleTemplate, ClaimToBackup = ''data-idrepo-0'',
     dbStatus = \<lparr>StartTimestamp = None, CompletionTimestamp = None\<rparr>\<rparr>"

definition backupWorld :: memw where
  "backupWorld = emptyMem\<lparr>mDbs := [sampleDB]\<rparr>"

lemma sampleDB_fields:
  "dbName sampleDB = ''nightly''" "dbNamespace sampleDB = ''prod''" "objkey sampleDB = (''prod'', ''nightly'')" "created sampleDB"
  by (simp_all add: sampleDB_def objkey_def created_def isZero_def)

lemma mem_ownedByBackup: "fst (ownedByBackup memEnv db x) = None"
  by (simp add: ownedByBackup_def memEnv_def memRef_def Let_def)

lemma mem_pvc_makes:
  assumes "lookupObj (mPvcs w) (objkey x) = None" "f x () w = (Ret (None, y, ()), w)" "objkey y = objkey x"
  obtains z where "kCreateOrUpdate (pvcClient memEnv) x () f w = (Ret (None, z, ()), w\<lparr>mPvcs := z # dropKey (objkey x) (mPvcs w)\<rparr>)"
    "objkey z = objkey x"
proof (rule mem_cou_makes [where get = mPvcs and f = f and put = "\<lambda>xs w. w\<lparr>mPvcs := xs\<rparr>" and mU = keepStamp and mS = keepStamp, OF assms])
qed (use that in \<open>simp add: memEnv_def\<close>)

lemma mem_snap_makes:
  assumes "lookupObj (mSnaps w) (objkey x) = None" "f x () w = (Ret (None, y, ()), w)" "objkey y = objkey x"
  obtains z where "kCreateOrUpdate (snapClient memEnv) x () f w = (Ret (None, z, ()), w\<lparr>mSnaps := z # dropKey (objkey x) (mSnaps w)\<rparr>)"
    "objkey z = objkey x"
proof (rule mem_cou_makes [where get = mSnaps and f = f and put = "\<lambda>xs w. w\<lparr>mSnaps := xs\<rparr>" and mU = keepStamp and mS = keepStamp, OF assms])
qed (use that in \<open>simp add: memEnv_def\<close>)

lemma mem_backup_callbacks:
  "\<exists>y. backupPvcMutate db (newPVC ns n) () w = (Ret (None, y, ()), w) \<and> objkey y = (ns, n)"
  "\<exists>y. backupSnapMutate memEnv db (newSnapshot ns n) () w = (Ret (None, y, ()), w) \<and> objkey y = (ns, n)"
  "\<exists>y. backupDataMutate memEnv db m (newPVC ns n) () w = (Ret (None, y, ()), w) \<and> objkey y = (ns, n)"
  by (simp_all add: backupPvcMutate_def ret_def isZero_def backupSnapMutate_eq backupDataMutate_eq Let_def mem_ownedByBackup
      backup_keys created_def) (simp_all add: objkey_def)

lemma mem_backup_claim:
  assumes "lookupObj (mPvcs w) (ns, n) = None"
  obtains z where "kCreateOrUpdate (pvcClient memEnv) (newPVC ns n) () (backupPvcMutate db) w =
    (Ret (None, z, ()), w\<lparr>mPvcs := z # dropKey (ns, n) (mPvcs w)\<rparr>)" "objkey z = (ns, n)"
proof -
  obtain y where f: "(backupPvcMutate db) (newPVC ns n) () w = (Ret (None, y, ()), w)" "objkey y = (ns, n)"
    using mem_backup_callbacks(1) [of db ns n w] by blast
  show thesis
    by (rule mem_pvc_makes [where x = "newPVC ns n" and f = "backupPvcMutate db" and y = y and w = w]) (simp_all add: assms f that)
qed

lemma mem_backup_snapshot:
  assumes "lookupObj (mSnaps w) (ns, n) = None"
  obtains z where "kCreateOrUpdate (snapClient memEnv) (newSnapshot ns n) () (backupSnapMutate memEnv db) w =
    (Ret (None, z, ()), w\<lparr>mSnaps := z # dropKey (ns, n) (mSnaps w)\<rparr>)" "objkey z = (ns, n)"
proof -
  obtain y where f: "(backupSnapMutate memEnv db) (newSnapshot ns n) () w = (Ret (None, y, ()), w)" "objkey y = (ns, n)"
    using mem_backup_callbacks(2) [of db ns n w] by blast
  show thesis
    by (rule mem_snap_makes [where x = "newSnapshot ns n" and f = "backupSnapMutate memEnv db" and y = y and w = w]) (simp_all add: assms f that)
qed

lemma mem_backup_data:
  assumes "lookupObj (mPvcs w) (ns, n) = None"
  obtains z where "kCreateOrUpdate (pvcClient memEnv) (newPVC ns n) () (backupDataMutate memEnv db m) w =
    (Ret (None, z, ()), w\<lparr>mPvcs := z # dropKey (ns, n) (mPvcs w)\<rparr>)" "objkey z = (ns, n)"
proof -
  obtain y where f: "(backupDataMutate memEnv db m) (newPVC ns n) () w = (Ret (None, y, ()), w)" "objkey y = (ns, n)"
    using mem_backup_callbacks(3) [of db m ns n w] by blast
  show thesis
    by (rule mem_pvc_makes [where x = "newPVC ns n" and f = "backupDataMutate memEnv db m" and y = y and w = w]) (simp_all add: assms f that)
qed

lemma mem_backupObjects:
  assumes "mPvcs w = []" "mSnaps w = []" "mJobs w = []"
  shows "\<exists>w'. backupObjects fl memEnv db w = (Ret (noResult, None), w')"
proof -
  have "lookupObj (mPvcs w) (dbNamespace db, dbName db) = None" using assms by simp
  then obtain p where p: "kCreateOrUpdate (pvcClient memEnv) (newPVC (dbNamespace db) (dbName db)) () (backupPvcMutate db) w =
      (Ret (None, p, ()), w\<lparr>mPvcs := p # dropKey (dbNamespace db, dbName db) (mPvcs w)\<rparr>)" "objkey p = (dbNamespace db, dbName db)"
    by (rule mem_backup_claim)
  let ?w1 = "w\<lparr>mPvcs := p # dropKey (dbNamespace db, dbName db) (mPvcs w)\<rparr>"
  have "lookupObj (mSnaps ?w1) (dbNamespace db, tempName (dbName db)) = None" using assms by simp
  then obtain s where s: "kCreateOrUpdate (snapClient memEnv) (newSnapshot (dbNamespace db) (tempName (dbName db))) () (backupSnapMutate memEnv db) ?w1 =
      (Ret (None, s, ()), ?w1\<lparr>mSnaps := s # dropKey (dbNamespace db, tempName (dbName db)) (mSnaps ?w1)\<rparr>)"
      "objkey s = (dbNamespace db, tempName (dbName db))"
    by (rule mem_backup_snapshot)
  let ?w2 = "?w1\<lparr>mSnaps := s # dropKey (dbNamespace db, tempName (dbName db)) (mSnaps ?w1)\<rparr>"
  have sk: "Namespace (ObjectMeta s) = dbNamespace db" "Name (ObjectMeta s) = tempName (dbName db)" using s(2) by (simp_all add: objkey_def)
  have "lookupObj (mPvcs ?w2) (dbNamespace db, tempName (dbName db)) = None" using p(2) assms by (simp add: lookupObj_Cons dropKey_def)
  then obtain d where d: "kCreateOrUpdate (pvcClient memEnv) (newPVC (dbNamespace db) (tempName (dbName db))) ()
      (backupDataMutate memEnv db (tempName (dbName db))) ?w2 =
      (Ret (None, d, ()), ?w2\<lparr>mPvcs := d # dropKey (dbNamespace db, tempName (dbName db)) (mPvcs ?w2)\<rparr>)"
    by (rule mem_backup_data)
  let ?w3 = "?w2\<lparr>mPvcs := d # dropKey (dbNamespace db, tempName (dbName db)) (mPvcs ?w2)\<rparr>"
  have "lookupObj (mJobs ?w3) (dbNamespace db, dbName db) = None" using assms by simp
  then obtain j q w4 where "createDSJob fl memEnv d (Name (ObjectMeta p)) (dbPodTemplate db) [''backup''] KDb (ObjectMeta db) (dbKind db) ?w3 =
      (Ret (None, j, q), w4)"
    by (rule mem_createDSJob)
  with p s sk d show ?thesis
    by (simp add: backupObjects_def backupSnapStage_def backupDataStage_def backupJobStage_def bindM_def ret_def)
qed

lemma sample_backup_run: "\<exists>w'. ReconcileBackup plainFlags memEnv (''prod'', ''nightly'') backupWorld = (Ret (noResult, None), w')"
proof -
  have get: "kGet (dbClient memEnv) (''prod'', ''nightly'') backupWorld = (Inr sampleDB, backupWorld)"
    by (simp add: mem_defs backupWorld_def lookupObj_Cons sampleDB_fields)
  have f: "fetchJob memEnv (''prod'', ''nightly'') backupWorld = (Ret (Inr (newJob '''' '''')), backupWorld)"
    by (simp add: fetchJob_def mem_defs backupWorld_def bindM_def callM_def ret_def IgnoreNotFound_def)
  have r: "sampleDB\<lparr>dbStatus := recordJob (newJob '''' '''') (dbStatus sampleDB)\<rparr> = sampleDB"
    by (simp add: recordJob_def isZero_def)
  have st: "statusUpdateDB memEnv sampleDB backupWorld = (Ret (None, sampleDB), backupWorld)"
    by (simp add: statusUpdateDB_def mem_defs backupWorld_def bindM_def callM_def ret_def lookupObj_Cons sampleDB_fields Let_def
        upsert_def dropKey_def)
  obtain w' where "backupObjects plainFlags memEnv sampleDB backupWorld = (Ret (noResult, None), w')"
    using mem_backupObjects [of backupWorld plainFlags sampleDB] by (auto simp: backupWorld_def emptyMem_def)
  with get f r st show ?thesis
    by (simp add: ReconcileBackup_body backupBody_def bindM_def callM_def)
qed

lemma sample_backup_stored: "directorybackups (memView backupWorld) (''prod'', ''nightly'') = Some sampleDB"
  by (simp add: memView_def backupWorld_def lookupObj_Cons sampleDB_fields)

theorem backup_footprint_witness:
  "same_except (backupOwn sampleDB) (memView backupWorld)
     (memView (snd (ReconcileBackup plainFlags memEnv (''prod'', ''nightly'') backupWorld)))"
  using backup_footprint [OF memEnv_documented surjective_pairing, of plainFlags "(''prod'', ''nightly'')" backupWorld] sample_backup_stored
  by simp

theorem backup_chain_witness:
  "\<exists>w' snap. ReconcileBackup plainFlags memEnv (''prod'', ''nightly'') backupWorld = (Ret (noResult, None), w') \<and>
     snapshots (memView w') (''prod'', ''temp-nightly'') = Some snap \<and> vsSourcePVC snap = Some ''data-idrepo-0''"
proof -
  obtain w' where run: "ReconcileBackup plainFlags memEnv (''prod'', ''nightly'') backupWorld = (Ret (noResult, None), w')"
    using sample_backup_run by blast
  have "snapshots (memView backupWorld) (''prod'', ''temp-nightly'') = None" by (simp add: memView_def backupWorld_def emptyMem_def)
  with backup_chain [OF memEnv_documented sample_backup_stored run] run show ?thesis by (auto simp: Let_def sampleDB_def)
qed

end
