(* ===== verification/Restores.thy ===== *)
theory Restores
  imports Backups
begin

text \<open>
  \<open>src/controllers/directoryrestore_controller.go\<close>: a restore makes a claim \<open>temp-<name>\<close>, runs a
  job that copies the backup into it, and once the job has succeeded takes a snapshot
  \<open>temp-<name>\<close> of the claim, from which new directories can be initialised. Where a restore
  stands is read off its job and snapshot: the phases and their transitions are an abstract
  state machine that the reconciler refines.
\<close>

section \<open>Model\<close>

abbreviation drName :: "directoryRestore \<Rightarrow> string" where
  "drName dr \<equiv> Name (ObjectMeta dr)"

abbreviation drNamespace :: "directoryRestore \<Rightarrow> string" where
  "drNamespace dr \<equiv> Namespace (ObjectMeta dr)"

definition restoreSnapMutate :: "'w env \<Rightarrow> directoryRestore \<Rightarrow> ('w, volumeSnapshot, unit) mutateFn" where
  "restoreSnapMutate env dr snap l =
     (if isZero (CreationTimestamp (ObjectMeta snap)) then
        (let snap = snap\<lparr>ObjectMeta := (ObjectMeta snap)\<lparr>Labels := Some (createLabels (drName dr) (drKind dr) None)\<rparr>,
               vsClassName := Some (VolumeSnapshotClassName (drPodTemplate dr)),
               vsSourcePVC := Some (Name (ObjectMeta snap))\<rparr> in
         case SetOwnerReference env KDr (ObjectMeta dr) (ObjectMeta snap) of (err, refs) \<Rightarrow>
           ret (err, snap\<lparr>ObjectMeta := (ObjectMeta snap)\<lparr>OwnerReferences := refs\<rparr>\<rparr>, l))
      else ret (None, snap, l))"

text \<open>The outcome of \<open>CreateOrUpdate\<close> is not looked at.\<close>

definition takeRestoreSnapshot :: "'w env \<Rightarrow> directoryRestore \<Rightarrow> ('w, unit) M" where
  "takeRestoreSnapshot env dr =
     bindM (kCreateOrUpdate (snapClient env) (newSnapshot (drNamespace dr) (tempName (drName dr))) () (restoreSnapMutate env dr))
       (\<lambda>_. ret ())"

text \<open>The status as the job reports it, and \<open>requeueWhileJobRunning\<close>.\<close>

definition restoreProgress ::
  "'w env \<Rightarrow> job \<Rightarrow> directoryRestore \<Rightarrow> ('w, goerr + directoryRestore \<times> bool) M" where
  "restoreProgress env restoreJob dr =
     (if \<not> isZero (CreationTimestamp (ObjectMeta restoreJob)) then
        (let dr = dr\<lparr>drStatus := (drStatus dr)\<lparr>StartTimestamp := Some (CreationTimestamp (ObjectMeta restoreJob))\<rparr>\<rparr> in
         if jobCompletionTime restoreJob \<noteq> None then
           (let dr = dr\<lparr>drStatus := (drStatus dr)\<lparr>CompletionTimestamp := jobCompletionTime restoreJob\<rparr>\<rparr> in
            if 0 < sint (jobFailed restoreJob) then
              ret (Inl (Errorf ''Restore Job had failures. Cant take snapshot''))
            else if 0 < sint (jobSucceeded restoreJob) then
              bindM (takeRestoreSnapshot env dr) (\<lambda>_. ret (Inr (dr, False)))
            else ret (Inr (dr, False)))
         else ret (Inr (dr, True)))
      else ret (Inr (dr, True)))"

definition statusUpdateDR :: "'w env \<Rightarrow> directoryRestore \<Rightarrow> ('w, goerr option \<times> directoryRestore) M" where
  "statusUpdateDR env dr =
     bindM (callM (kStatusUpdate (drClient env) dr)) (\<lambda>r.
       case r of Inl err \<Rightarrow> ret (Some err, dr) | Inr dr' \<Rightarrow> ret (None, dr'))"

definition restorePvcMutate :: "'w env \<Rightarrow> directoryRestore \<Rightarrow> ('w, persistentVolumeClaim, unit) mutateFn" where
  "restorePvcMutate env dr pvc l =
     (if isZero (CreationTimestamp (ObjectMeta pvc)) then
        (let pvc = pvc\<lparr>ObjectMeta := (ObjectMeta pvc)\<lparr>Labels := Some (createLabels (Name (ObjectMeta pvc)) (drKind dr) None),
                Annotations := Some pvcAnnotations\<rparr>,
              pvcSpec := VolumeClaimSpec (drPodTemplate dr)\<rparr> in
         case SetControllerReference env KDr (ObjectMeta dr) (ObjectMeta pvc) of (err, refs) \<Rightarrow>
           ret (err, pvc\<lparr>ObjectMeta := (ObjectMeta pvc)\<lparr>OwnerReferences := refs\<rparr>\<rparr>, l))
      else ret (None, pvc, l))"

definition restoreJobStage ::
  "flags \<Rightarrow> 'w env \<Rightarrow> directoryRestore \<Rightarrow> persistentVolumeClaim \<Rightarrow> bool \<Rightarrow> ('w, ctrlResult \<times> goerr option) M" where
  "restoreJobStage fl env dr pvc requeueWhileJobRunning =
     bindM (createDSJob fl env pvc (SourcePVCName dr) (drPodTemplate dr) [''restore''] KDr (ObjectMeta dr) (drKind dr))
       (\<lambda>(err, j, p). case err of
          Some e \<Rightarrow> ret (noResult, Some e)
        | None \<Rightarrow> if requeueWhileJobRunning then ret (\<lparr>RequeueAfter = 60\<rparr>, None) else ret (noResult, None))"

definition restoreObjects :: "flags \<Rightarrow> 'w env \<Rightarrow> directoryRestore \<Rightarrow> bool \<Rightarrow> ('w, ctrlResult \<times> goerr option) M" where
  "restoreObjects fl env dr requeueWhileJobRunning =
     bindM (kCreateOrUpdate (pvcClient env) (newPVC (drNamespace dr) (tempName (drName dr))) () (restorePvcMutate env dr))
       (\<lambda>(err, pvc, l).
       case err of Some e \<Rightarrow> ret (noResult, Some e) | None \<Rightarrow> restoreJobStage fl env dr pvc requeueWhileJobRunning)"

definition restoreStatusStage :: "flags \<Rightarrow> 'w env \<Rightarrow> directoryRestore \<Rightarrow> bool \<Rightarrow> ('w, ctrlResult \<times> goerr option) M" where
  "restoreStatusStage fl env dr requeueWhileJobRunning =
     bindM (statusUpdateDR env dr) (\<lambda>(err, dr).
       case err of Some e \<Rightarrow> ret (noResult, Some e) | None \<Rightarrow> restoreObjects fl env dr requeueWhileJobRunning)"

definition restoreJobSeen :: "flags \<Rightarrow> 'w env \<Rightarrow> directoryRestore \<Rightarrow> job \<Rightarrow> ('w, ctrlResult \<times> goerr option) M" where
  "restoreJobSeen fl env dr restoreJob =
     bindM (restoreProgress env restoreJob dr) (\<lambda>r.
       case r of Inl e \<Rightarrow> ret (noResult, Some e) | Inr (dr, requeueWhileJobRunning) \<Rightarrow> restoreStatusStage fl env dr requeueWhileJobRunning)"

definition ReconcileRestore :: "flags \<Rightarrow> 'w env \<Rightarrow> nsname \<Rightarrow> ('w, ctrlResult \<times> goerr option) M" where
  "ReconcileRestore fl env req =
     bindM (callM (kGet (drClient env) req)) (\<lambda>r.
       case r of
         Inl err \<Rightarrow> ret (noResult, IgnoreNotFound err)
       | Inr dr \<Rightarrow>
           bindM (fetchJob env req) (\<lambda>rj.
             case rj of Inl err \<Rightarrow> ret (noResult, Some err) | Inr restoreJob \<Rightarrow> restoreJobSeen fl env dr restoreJob))"

section \<open>Callbacks and single steps\<close>

lemma restoreSnapMutate_key: "restoreSnapMutate env dr y l w = (Ret (e, y', l'), w') \<Longrightarrow> objkey y' = objkey y"
  by (auto simp: restoreSnapMutate_def ret_apply Let_def objkey_def split: if_splits prod.splits)

lemma restorePvcMutate_key: "restorePvcMutate env dr p l w = (Ret (e, p', l'), w') \<Longrightarrow> objkey p' = objkey p"
  by (auto simp: restorePvcMutate_def ret_apply Let_def objkey_def split: if_splits prod.splits)

lemma restore_existing:
  "created y \<Longrightarrow> restoreSnapMutate env dr y l w = (Ret (None, y, l), w)"
  "created p \<Longrightarrow> restorePvcMutate env dr p l w = (Ret (None, p, l), w)"
  by (simp_all add: restoreSnapMutate_def restorePvcMutate_def created_def ret_def)

interpretation restoreSnapCallback: create_only KSnap snapshots "\<lambda>m s. s\<lparr>snapshots := m\<rparr>" "restoreSnapMutate env dr" k for env dr k
  by unfold_locales (auto simp: restore_existing dest: restoreSnapMutate_key)

interpretation restorePvcCallback: create_only KPvc pvcs "\<lambda>m s. s\<lparr>pvcs := m\<rparr>" "restorePvcMutate env dr" k for env dr k
  by unfold_locales (auto simp: restore_existing dest: restorePvcMutate_key)

lemma restore_quiet:
  "pres (stays K view) (restoreSnapMutate env dr y m)"
  "pres (stays K view) (restorePvcMutate env dr p m)"
  by (auto simp: restoreSnapMutate_def restorePvcMutate_def Let_def intro: frame.pres_ret split: prod.splits)

lemma restore_noPanic:
  "noPanic (restoreSnapMutate env dr y m)" "noPanic (restorePvcMutate env dr p m)"
  by (auto simp: restoreSnapMutate_def restorePvcMutate_def Let_def intro: noPanic_ret split: prod.splits)

lemma statusUpdateDR_stays:
  "env_documented view env \<Longrightarrow> (KDr, objkey dr) \<in> K \<Longrightarrow> pres (stays K view) (statusUpdateDR env dr)"
  unfolding statusUpdateDR_def
  by (auto intro!: frame.pres_bindM frame.pres_ret drK.statusUpdate_stays env_clients(10) split: sum.splits)

lemma statusUpdateDR_None:
  assumes "env_documented view env" and "statusUpdateDR env dr w = (Ret (None, y), w')"
  shows "objkey y = objkey dr \<and> drAccS (directoryrestores (view w) (objkey dr)) dr y \<and>
    directoryrestores (view w') (objkey dr) = Some y"
proof -
  from assms(2) have "kStatusUpdate (drClient env) dr w = (Inr y, w')"
    by (cases "kStatusUpdate (drClient env) dr w") (auto simp: statusUpdateDR_def bindM_def callM_def ret_def split: sum.splits)
  from drK.statusUpdate_Inr [OF env_clients(10) [OF assms(1)] this] show ?thesis by simp
qed

section \<open>Phases\<close>

text \<open>\<open>Failed\<close> also stands for a job that reports its completion but no success.\<close>

datatype restorePhase = NotStarted | Running | Failed | Succeeded | Snapshotted

definition jobSuccess :: "job \<Rightarrow> bool" where
  "jobSuccess j \<longleftrightarrow> jobCompletionTime j \<noteq> None \<and> \<not> 0 < sint (jobFailed j) \<and> 0 < sint (jobSucceeded j)"

definition restorePhaseOf :: "nsname \<Rightarrow> store \<Rightarrow> restorePhase" where
  "restorePhaseOf req s =
     (if snapshots s (fst req, tempName (snd req)) \<noteq> None then Snapshotted
      else
        (case jobs s req of
           None \<Rightarrow> NotStarted
         | Some j \<Rightarrow> if jobCompletionTime j = None then Running else if jobSuccess j then Succeeded else Failed))"

text \<open>What the operator does to a restore: start it, and take the snapshot when it has succeeded.\<close>

inductive operatorStep :: "restorePhase \<Rightarrow> restorePhase \<Rightarrow> bool" where
  idle: "operatorStep p p"
| start: "operatorStep NotStarted Running"
| take_snapshot: "operatorStep Succeeded Snapshotted"

section \<open>Effect on snapshots and jobs\<close>

text \<open>The snapshot step adds at most one snapshot, of the claim of the same name.\<close>

lemma takeRestoreSnapshot_effect:
  assumes env: "env_documented view env" and run: "takeRestoreSnapshot env dr w = (r, w')"
  shows "view w' = view w \<or> snapshots (view w) (drNamespace dr, tempName (drName dr)) = None \<and>
    (\<exists>z. view w' = (view w)\<lparr>snapshots := (snapshots (view w))((drNamespace dr, tempName (drName dr)) \<mapsto> z)\<rparr> \<and>
       vsSourcePVC z = Some (tempName (drName dr)))"
proof -
  let ?x = "newSnapshot (drNamespace dr) (tempName (drName dr))"
  let ?f = "restoreSnapMutate env dr"
  note kc = env_clients(6) [OF env]
  obtain q where cou: "kCreateOrUpdate (snapClient env) ?x () ?f w = (q, w')"
    using run by (cases "kCreateOrUpdate (snapClient env) ?x () ?f w")
      (auto simp: takeRestoreSnapshot_def bindM_def ret_def split: result.splits)
  show ?thesis
  proof (cases "snapshots (view w) (objkey ?x)")
    case (Some old)
    with restoreSnapCallback.existing_untouched [OF kc Some cou] show ?thesis by blast
  next
    case None
    have "vsSourcePVC y = Some (tempName (drName dr))" if "?f ?x () w1 = (Ret (None, y, l1), w2)" for w1 y l1 w2
      using that by (auto simp: restoreSnapMutate_def isZero_def ret_apply Let_def split: prod.splits)
    with snapK.cou_effect [OF kc restore_quiet(1) cou] None show ?thesis by (auto simp: snapAcc_def)
  qed
qed

lemma restoreProgress_effect:
  assumes env: "env_documented view env" and run: "restoreProgress env j dr w = (r, w')"
  shows "view w' = view w \<or> jobSuccess j \<and> created j \<and> snapshots (view w) (drNamespace dr, tempName (drName dr)) = None \<and>
    (\<exists>z. view w' = (view w)\<lparr>snapshots := (snapshots (view w))((drNamespace dr, tempName (drName dr)) \<mapsto> z)\<rparr> \<and>
       vsSourcePVC z = Some (tempName (drName dr)))"
proof (cases "created j \<and> jobSuccess j")
  case True
  let ?dr = "dr\<lparr>drStatus := (drStatus dr)\<lparr>StartTimestamp := Some (CreationTimestamp (ObjectMeta j)), CompletionTimestamp := jobCompletionTime j\<rparr>\<rparr>"
  from True run have "\<exists>q. takeRestoreSnapshot env ?dr w = (q, w')"
    by (cases "takeRestoreSnapshot env ?dr w")
      (auto simp: restoreProgress_def created_def jobSuccess_def Let_def bindM_def ret_def split: result.splits)
  then obtain q where "takeRestoreSnapshot env ?dr w = (q, w')" ..
  from takeRestoreSnapshot_effect [OF env this] True show ?thesis by simp
next
  case False
  with run show ?thesis
    by (auto simp: restoreProgress_def created_def jobSuccess_def Let_def bindM_def ret_def split: if_splits)
qed

lemma restoreProgress_Inr:
  "restoreProgress env j dr w = (Ret (Inr (dr', b)), w') \<Longrightarrow>
   objkey dr' = objkey dr \<and> SourcePVCName dr' = SourcePVCName dr \<and> drStatus dr' = recordJob j (drStatus dr) \<and>
   (b \<longleftrightarrow> \<not> (created j \<and> jobCompletionTime j \<noteq> None)) \<and> \<not> (created j \<and> jobCompletionTime j \<noteq> None \<and> 0 < sint (jobFailed j))"
  by (auto simp: restoreProgress_def recordJob_def created_def Let_def bindM_eq_Ret ret_apply objkey_def split: if_splits)

lemma restoreProgress_noPanic: "env_documented view env \<Longrightarrow> noPanic (restoreProgress env j dr)"
  unfolding restoreProgress_def takeRestoreSnapshot_def Let_def
  by (auto intro!: noPanic_intros snapK.cou_noPanic [OF env_clients(6)] restore_noPanic)

text \<open>Nothing happens to the jobs but that the one of the restore is started.\<close>

definition jobStarts :: "('w \<Rightarrow> store) \<Rightarrow> nsname \<Rightarrow> 'w \<Rightarrow> 'w \<Rightarrow> bool" where
  "jobStarts view k w w' \<longleftrightarrow> jobs (view w') = jobs (view w) \<or>
     jobs (view w) k = None \<and> (\<exists>z. jobs (view w') = (jobs (view w))(k \<mapsto> z) \<and> jobCompletionTime z = None)"

interpretation starting: world_order "jobStarts view k" for view :: "'w \<Rightarrow> store" and k
  by unfold_locales (auto simp: jobStarts_def)

lemma stays_jobStarts: "stays K view w w' \<Longrightarrow> KJob \<notin> fst ` K \<Longrightarrow> jobStarts view k w w'"
  by (simp add: jobStarts_def jobK.stays_kind)

definition restoreMade :: "nsname \<Rightarrow> (kind \<times> nsname) set" where
  "restoreMade req = {(KPvc, fst req, tempName (snd req)), (KJob, req)}"

definition restoreOwn :: "nsname \<Rightarrow> (kind \<times> nsname) set" where
  "restoreOwn req = {(KDr, req), (KSnap, fst req, tempName (snd req))} \<union> restoreMade req"

lemma restoreObjects_stays:
  assumes env: "env_documented view env" and req: "objkey dr = req"
  shows "pres (stays (restoreMade req) view) (restoreObjects fl env dr b)"
proof -
  have "(KPvc, drNamespace dr, tempName (drName dr)) \<in> restoreMade req" "(KJob, drNamespace dr, drName dr) \<in> restoreMade req"
    using req by (auto simp: restoreMade_def objkey_def)
  then show ?thesis
    unfolding restoreObjects_def restoreJobStage_def
    by (auto intro!: frame.pres_bindM frame.pres_ret pvcK.cou_stays [OF env_clients(1) [OF env] restore_quiet(2)]
        createDSJob_stays [OF env] split: option.splits)
qed

lemma restoreObjects_jobs:
  assumes env: "env_documented view env" and req: "objkey dr = req"
  shows "pres (jobStarts view req) (restoreObjects fl env dr b)"
proof -
  have k: "(drNamespace dr, drName dr) = req" using req by (simp add: objkey_def)
  have job: "pres (jobStarts view req) (createDSJob fl env p s t a KDr (ObjectMeta dr) n)" for p s t a n
  proof (rule presI)
    fix w r w'
    assume "createDSJob fl env p s t a KDr (ObjectMeta dr) n w = (r, w')"
    from createDSJob_effect [OF env this] k show "jobStarts view req w w'" by (auto simp: jobStarts_def)
  qed
  have pvc: "pres (jobStarts view req) (kCreateOrUpdate (pvcClient env) x () (restorePvcMutate env dr))" for x
    by (rule presI) (rule stays_jobStarts [OF cou_stays_pvc [OF env restore_quiet(2)]], auto)
  show ?thesis
    unfolding restoreObjects_def restoreJobStage_def
    by (auto intro!: starting.pres_bindM starting.pres_ret job pvc split: option.splits)
qed

lemma restoreStatusStage_effect:
  assumes env: "env_documented view env" and req: "objkey dr = req"
    and run: "restoreStatusStage fl env dr b w = (r, w')"
  shows "stays (insert (KDr, req) (restoreMade req)) view w w' \<and> jobStarts view req w w'"
proof
  have key: "objkey dr' = req" if "statusUpdateDR env dr u = (Ret (None, dr'), v)" for u v dr'
    using statusUpdateDR_None [OF env that] req by simp
  have st: "pres (stays {(KDr, req)} view) (statusUpdateDR env dr)" by (rule statusUpdateDR_stays [OF env]) (simp add: req)
  have "pres (stays (insert (KDr, req) (restoreMade req)) view) (restoreStatusStage fl env dr b)"
    unfolding restoreStatusStage_def
    by (rule frame.pres_bindM_reach [OF pres_stays_mono [OF st]])
      (auto dest: key intro!: frame.pres_ret pres_stays_mono [OF restoreObjects_stays [OF env]] split: option.splits)
  then show "stays (insert (KDr, req) (restoreMade req)) view w w'" using run by (rule presD)
  have "pres (jobStarts view req) (statusUpdateDR env dr)"
    by (rule pres_mono [OF st]) (erule stays_jobStarts, simp)
  then have "pres (jobStarts view req) (restoreStatusStage fl env dr b)"
    unfolding restoreStatusStage_def
    by (rule starting.pres_bindM_reach)
      (auto dest: key intro!: starting.pres_ret restoreObjects_jobs [OF env] split: option.splits)
  then show "jobStarts view req w w'" using run by (rule presD)
qed

text \<open>A run found no restore, could not read the job, or went on with the stored restore and its job.\<close>

lemma ReconcileRestore_cases:
  assumes env: "env_documented view env" and run: "ReconcileRestore fl env req w = (r, w')"
  obtains (stopped) err where "r = Ret (noResult, err)" "view w' = view w"
      "err = None \<longrightarrow> directoryrestores (view w) req = None"
  | (found) dr w1 where "directoryrestores (view w) req = Some dr" "objkey dr = req" "view w1 = view w"
      "created (storedJob (view w) req) \<longleftrightarrow> jobs (view w) req \<noteq> None"
      "restoreJobSeen fl env dr (storedJob (view w) req) w1 = (r, w')"
proof -
  obtain g w1 where g: "kGet (drClient env) req w = (g, w1)" by (cases "kGet (drClient env) req w")
  note kc = env_clients(10) [OF env]
  have v1: "view w1 = view w" by (rule drK.get_view [OF kc g])
  show thesis
  proof (cases g)
    case (Inl err)
    with g run v1 drK.get_NotFound [OF kc, of req w w1] show thesis
      by (intro stopped [of "IgnoreNotFound err"]) (auto simp: ReconcileRestore_def bindM_def callM_def ret_def IgnoreNotFound_def)
  next
    case (Inr dr)
    obtain x w2 where f: "fetchJob env req w1 = (x, w2)" by (cases "fetchJob env req w1")
    have "\<exists>rj. x = Ret rj"
      using f by (cases "kGet (jobClient env) req w1")
        (auto simp: fetchJob_def bindM_def callM_def ret_def split: sum.splits option.splits)
    then obtain rj where rj: "x = Ret rj" ..
    have v2: "view w2 = view w" using presD [OF fetchJob_quiet [OF env, of "{}"] f] v1 by (simp add: stays_empty)
    show thesis
    proof (cases rj)
      case (Inl e)
      with Inr g run f rj v2 show thesis
        by (intro stopped [of "Some e"]) (auto simp: ReconcileRestore_def bindM_def callM_def ret_def)
    next
      case (Inr j)
      from fetchJob_Inr [OF env, of req w1 j w2] f rj Inr v1
      have "j = storedJob (view w) req" "created j \<longleftrightarrow> jobs (view w) req \<noteq> None" by auto
      with Inr \<open>g = Inr dr\<close> g run f rj v2 drK.get_Inr [OF kc, of req w dr w1] show thesis
        by (intro found [of dr w2]) (auto simp: ReconcileRestore_def bindM_def callM_def)
    qed
  qed
qed

text \<open>What a run, however it ends, does to the cluster.\<close>

definition snapshotTaken :: "nsname \<Rightarrow> store \<Rightarrow> store \<Rightarrow> bool" where
  "snapshotTaken req s s' \<longleftrightarrow> (let tmp = (fst req, tempName (snd req)) in
     (\<exists>j. jobs s req = Some j \<and> jobSuccess j) \<and> snapshots s tmp = None \<and>
     (\<exists>z. snapshots s' = (snapshots s)(tmp \<mapsto> z) \<and> vsSourcePVC z = Some (snd tmp)))"

lemma ReconcileRestore_effect:
  assumes env: "env_documented view env" and run: "ReconcileRestore fl env req w = (r, w')"
  shows "(snapshots (view w') = snapshots (view w) \<or> snapshotTaken req (view w) (view w')) \<and> jobStarts view req w w' \<and>
    stays (restoreOwn req) view w w'"
  using env run
proof (cases rule: ReconcileRestore_cases)
  case (stopped err)
  then show ?thesis by (simp add: jobStarts_def stays_def same_except_refl)
next
  case (found dr w1)
  let ?j = "storedJob (view w) req" and ?tmp = "(fst req, tempName (snd req))"
  obtain x w2 where p: "restoreProgress env ?j dr w1 = (x, w2)" by (cases "restoreProgress env ?j dr w1")
  have k: "drNamespace dr = fst req" "drName dr = snd req" using found(2) by (auto simp: objkey_def)
  have eff: "view w2 = view w \<or> (\<exists>z. jobSuccess ?j \<and> jobs (view w) req = Some ?j \<and> snapshots (view w) ?tmp = None \<and>
      view w2 = (view w)\<lparr>snapshots := (snapshots (view w))(?tmp \<mapsto> z)\<rparr> \<and> vsSourcePVC z = Some (tempName (snd req)))"
    using restoreProgress_effect [OF env p] found(3,4) k by (auto simp: storedJob_def split: option.splits)
  have st2: "stays (restoreOwn req) view w w2"
    using eff snapK.upd_frame [of ?tmp "restoreOwn req" "view w"] by (auto simp: stays_def same_except_refl restoreOwn_def)
  have rest: "stays (insert (KDr, req) (restoreMade req)) view w2 w' \<and> jobStarts view req w2 w'"
  proof (cases "\<exists>dr' b. x = Ret (Inr (dr', b))")
    case True
    then obtain dr' b where x: "x = Ret (Inr (dr', b))" by blast
    from restoreProgress_Inr [OF p [unfolded x]] found(2) have "objkey dr' = req" by simp
    moreover from found(5) p x have "restoreStatusStage fl env dr' b w2 = (r, w')" by (simp add: restoreJobSeen_def bindM_def)
    ultimately show ?thesis by (rule restoreStatusStage_effect [OF env])
  next
    case False
    with found(5) p have "w' = w2" by (auto simp: restoreJobSeen_def bindM_def ret_def split: result.splits sum.splits prod.splits)
    then show ?thesis by (simp add: stays_def same_except_refl jobStarts_def)
  qed
  have "snapshots (view w') = snapshots (view w2)" by (rule snapK.stays_kind [OF conjunct1 [OF rest]]) (auto simp: restoreMade_def)
  moreover have "jobs (view w2) = jobs (view w)" using eff by auto
  moreover have "stays (restoreOwn req) view w2 w'" by (rule stays_mono [OF conjunct1 [OF rest]]) (auto simp: restoreOwn_def)
  ultimately show ?thesis
    using eff rest st2 frame.R_trans [of "restoreOwn req" view w w2 w'] by (auto simp: snapshotTaken_def Let_def jobStarts_def)
qed

text \<open>
  Property C24. A restore is snapshotted only when it succeeded. However a reconciliation of a
  restore ends, it changes nothing but the restore's status, the claim and the snapshot
  \<open>temp-<name>\<close> and the job \<open><name>\<close>; and if any snapshot is different afterwards, then the restore's
  job had completed with at least one success and no failure, there was no such snapshot before,
  and the only change is the new snapshot, whose source is the claim the job wrote.
\<close>

theorem restore_snapshot_guarded:
  assumes env: "env_documented view env" and run: "ReconcileRestore fl env req w = (r, w')"
  shows "same_except (restoreOwn req) (view w) (view w') \<and>
    (snapshots (view w') \<noteq> snapshots (view w) \<longrightarrow>
      (let tmp = (fst req, ''temp-'' @ snd req) in
       (\<exists>j. jobs (view w) req = Some j \<and> jobCompletionTime j \<noteq> None \<and> sint (jobFailed j) \<le> 0 \<and> 0 < sint (jobSucceeded j)) \<and>
       snapshots (view w) tmp = None \<and>
       (\<exists>z. snapshots (view w') = (snapshots (view w))(tmp \<mapsto> z) \<and> vsSourcePVC z = Some (snd tmp))))"
  using ReconcileRestore_effect [OF env run]
  by (auto simp: stays_def snapshotTaken_def jobSuccess_def tempName_def Let_def not_less)

text \<open>
  Property C10. The restore controller refines its state machine: whatever the outcome of a
  reconciliation, the phase of the restore, read off its job and snapshot, is the same or went
  from not started to running or from succeeded to snapshotted. A failed restore stays failed.
\<close>

theorem restore_refines:
  assumes env: "env_documented view env" and run: "ReconcileRestore fl env req w = (r, w')"
  shows "operatorStep (restorePhaseOf req (view w)) (restorePhaseOf req (view w'))"
proof -
  note e = ReconcileRestore_effect [OF env run]
  show ?thesis
  proof (cases "jobs (view w') = jobs (view w)")
    case True
    with e show ?thesis
      by (auto simp: restorePhaseOf_def snapshotTaken_def Let_def jobSuccess_def split: option.splits intro: operatorStep.intros)
  next
    case False
    with e obtain z where z: "jobs (view w) req = None" "jobs (view w') req = Some z" "jobCompletionTime z = None"
      by (auto simp: jobStarts_def)
    with e have "snapshots (view w') = snapshots (view w)" by (auto simp: snapshotTaken_def Let_def)
    with z show ?thesis by (auto simp: restorePhaseOf_def intro: operatorStep.intros)
  qed
qed

lemma ReconcileRestore_noPanic:
  assumes env: "env_documented view env"
  shows "noPanic (ReconcileRestore fl env req)"
  unfolding ReconcileRestore_def restoreJobSeen_def restoreStatusStage_def statusUpdateDR_def restoreObjects_def restoreJobStage_def
  by (auto intro!: noPanic_intros fetchJob_noPanic restoreProgress_noPanic [OF env] createDSJob_noPanic [OF env]
      pvcK.cou_noPanic [OF env_clients(1) [OF env]] restore_noPanic split: sum.splits option.splits)

section \<open>Results\<close>

text \<open>
  Property C39. A failed restore is reported for ever and never recorded. If the restore's job has
  completed and reports a failed pod, every reconciliation ends with an error and changes
  nothing at all: neither start nor completion time reaches the status of the restore.
\<close>

theorem failed_restore_not_recorded:
  assumes env: "env_documented view env" and stored: "directoryrestores (view w) req = Some dr"
    and job: "jobs (view w) req = Some j" "jobCompletionTime j \<noteq> None" "0 < sint (jobFailed j)"
    and run: "ReconcileRestore fl env req w = (r, w')"
  shows "(\<exists>res e. r = Ret (res, Some e)) \<and> view w' = view w"
  using env run
proof (cases rule: ReconcileRestore_cases)
  case (stopped err)
  with stored show ?thesis by (cases err) auto
next
  case (found dr' w1)
  have "storedJob (view w) req = j" using job(1) by (simp add: storedJob_def)
  with found job show ?thesis
    by (auto simp: restoreJobSeen_def restoreProgress_def created_def Let_def bindM_def ret_def)
qed

lemma restoreObjects_success:
  assumes env: "env_documented view env" and run: "restoreObjects fl env dr b w = (Ret (res, None), w')"
  shows "\<exists>p j. pvcs (view w') (drNamespace dr, tempName (drName dr)) = Some p \<and> jobs (view w') (drNamespace dr, drName dr) = Some j \<and>
    (jobs (view w) (drNamespace dr, drName dr) = None \<longrightarrow>
      {\<lparr>volName = ''backup'', volSource = PvcVolume (SourcePVCName dr)\<rparr>,
       \<lparr>volName = ''data'', volSource = PvcVolume (tempName (drName dr))\<rparr>} \<subseteq> set (Volumes (ptSpec (jobTemplate j)))) \<and>
    RequeueAfter res = (if b then 60 else 0)"
proof -
  let ?k = "(drNamespace dr, tempName (drName dr))"
  from run obtain p w1 where a: "kCreateOrUpdate (pvcClient env) (newPVC (drNamespace dr) (tempName (drName dr))) ()
      (restorePvcMutate env dr) w = (Ret (None, p, ()), w1)" and jo: "restoreJobStage fl env dr p b w1 = (Ret (res, None), w')"
    by (auto simp: restoreObjects_def bindM_eq_Ret ret_apply split: option.splits)
  from jo obtain j q where j: "createDSJob fl env p (SourcePVCName dr) (drPodTemplate dr) [''restore''] KDr (ObjectMeta dr) (drKind dr) w1 =
      (Ret (None, j, q), w')" and res: "RequeueAfter res = (if b then 60 else 0)"
    by (auto simp: restoreJobStage_def bindM_eq_Ret ret_apply noResult_def split: option.splits if_splits)
  have "Name (ObjectMeta p) = tempName (drName dr)"
    using pvcK.cou_key [OF env_clients(1) [OF env] restore_quiet(2) a] by (simp add: objkey_def)
  moreover have "pvcs (view w1) ?k = Some p" using pvcK.cou_present [OF env_clients(1) [OF env] restore_quiet(2) a] by simp
  moreover have "stays {(KJob, drNamespace dr, drName dr)} view w1 w'" by (rule presD [OF createDSJob_stays [OF env] j]) simp
  then have "pvcs (view w') ?k = pvcs (view w1) ?k" by (rule pvcK.stays_at) simp
  moreover have "jobs (view w1) = jobs (view w)" by (rule jobK.stays_kind [OF cou_stays_pvc [OF env restore_quiet(2) a]]) simp
  ultimately show ?thesis using createDSJob_success [OF env j] res by (auto simp: jobVolumes_def)
qed

text \<open>What a reconciliation of a restore leaves behind when it succeeds.\<close>

lemma ReconcileRestore_success:
  assumes env: "env_documented view env" and stored: "directoryrestores (view w) req = Some dr"
    and run: "ReconcileRestore fl env req w = (Ret (res, None), w')"
  shows "\<exists>dr' p j. directoryrestores (view w') req = Some dr' \<and> drStatus dr' = recordJob (storedJob (view w) req) (drStatus dr) \<and>
    pvcs (view w') (fst req, ''temp-'' @ snd req) = Some p \<and> jobs (view w') req = Some j \<and>
    (jobs (view w) req = None \<longrightarrow>
      {\<lparr>volName = ''backup'', volSource = PvcVolume (SourcePVCName dr)\<rparr>,
       \<lparr>volName = ''data'', volSource = PvcVolume (''temp-'' @ snd req)\<rparr>} \<subseteq> set (Volumes (ptSpec (jobTemplate j)))) \<and>
    RequeueAfter res = (case jobs (view w) req of Some j0 \<Rightarrow> if jobCompletionTime j0 \<noteq> None then 0 else 60 | None \<Rightarrow> 60)"
  using env run
proof (cases rule: ReconcileRestore_cases)
  case (stopped err)
  with stored show ?thesis by simp
next
  case (found d w1)
  with stored have d: "d = dr" by simp
  let ?j0 = "storedJob (view w) req"
  from found(5) obtain x w2 where p: "restoreProgress env ?j0 dr w1 = (Ret x, w2)"
    and rest: "(case x of Inl e \<Rightarrow> ret (noResult, Some e) | Inr (dr, b) \<Rightarrow> restoreStatusStage fl env dr b) w2 = (Ret (res, None), w')"
    by (auto simp: d restoreJobSeen_def bindM_eq_Ret)
  from rest obtain dr1 b where x: "x = Inr (dr1, b)" by (cases x) (auto simp: ret_def)
  with rest obtain dr' w3 where st: "statusUpdateDR env dr1 w2 = (Ret (None, dr'), w3)"
    and ob: "restoreObjects fl env dr' b w3 = (Ret (res, None), w')"
    by (auto simp: restoreStatusStage_def bindM_eq_Ret ret_apply split: option.splits)
  note pr = restoreProgress_Inr [OF p [unfolded x]]
  have k1: "objkey dr1 = req" using pr found(2) d by simp
  have j2: "jobs (view w2) = jobs (view w)" "directoryrestores (view w2) req = Some dr"
    using restoreProgress_effect [OF env p] found(3) stored by auto
  from statusUpdateDR_None [OF env st] k1 j2(2) pr
  have dr': "objkey dr' = req" "drStatus dr' = recordJob ?j0 (drStatus dr)" "SourcePVCName dr' = SourcePVCName dr"
    "directoryrestores (view w3) req = Some dr'" by (auto simp: drAccS_def)
  have s3: "stays {(KDr, req)} view w2 w3" by (rule presD [OF statusUpdateDR_stays [OF env] st]) (simp add: k1)
  have "(KDr, req) \<notin> restoreMade req" by (simp add: restoreMade_def)
  from drK.stays_at [OF presD [OF restoreObjects_stays [OF env dr'(1)] ob] this] dr'(4)
  have "directoryrestores (view w') req = Some dr'" by simp
  moreover have "jobs (view w3) = jobs (view w)" using jobK.stays_kind [OF s3] j2 by simp
  moreover have "drNamespace dr' = fst req" "drName dr' = snd req" using dr'(1) by (auto simp: objkey_def)
  ultimately show ?thesis
    using restoreObjects_success [OF env ob] dr'(2,3) pr found(4) by (auto simp: tempName_def storedJob_def split: option.splits)
qed

text \<open>
  What a successful reconciliation of a restore leaves behind: the claim
  \<open>temp-<name>\<close> to restore into, the job, which if this run made it mounts the named backup claim and
  the new one, and the start and completion time of the job as it was found in the stored status.
  The operator asks to come back in 60 seconds exactly as long as the job has not completed.
\<close>

theorem restore_progresses:
  assumes env: "env_documented view env" and stored: "directoryrestores (view w) req = Some dr"
    and run: "ReconcileRestore fl env req w = (Ret (res, None), w')"
  shows "\<exists>dr' p j. directoryrestores (view w') req = Some dr' \<and> drStatus dr' = recordJob (storedJob (view w) req) (drStatus dr) \<and>
    pvcs (view w') (fst req, ''temp-'' @ snd req) = Some p \<and> jobs (view w') req = Some j \<and>
    (jobs (view w) req = None \<longrightarrow>
      {\<lparr>volName = ''backup'', volSource = PvcVolume (SourcePVCName dr)\<rparr>,
       \<lparr>volName = ''data'', volSource = PvcVolume (''temp-'' @ snd req)\<rparr>} \<subseteq> set (Volumes (ptSpec (jobTemplate j)))) \<and>
    RequeueAfter res = (case jobs (view w) req of Some j0 \<Rightarrow> if jobCompletionTime j0 \<noteq> None then 0 else 60 | None \<Rightarrow> 60)"
  by (rule ReconcileRestore_success [OF assms])

section \<open>The life of a restore\<close>

text \<open>
  What the other actors may do between reconciliations: anything, except that nobody else takes
  the restore's snapshot and that the outcome of a completed job is final.
\<close>

definition othersAct :: "nsname \<Rightarrow> store \<Rightarrow> store \<Rightarrow> bool" where
  "othersAct req s s' \<longleftrightarrow>
     (let tmp = (fst req, tempName (snd req)) in snapshots s' tmp = None \<or> snapshots s' tmp = snapshots s tmp) \<and>
     (\<forall>j. jobs s req = Some j \<longrightarrow> jobCompletionTime j \<noteq> None \<longrightarrow>
        (\<exists>j'. jobs s' req = Some j' \<and> jobCompletionTime j' = jobCompletionTime j \<and>
              jobFailed j' = jobFailed j \<and> jobSucceeded j' = jobSucceeded j))"

inductive restoreReach :: "flags \<Rightarrow> 'w env \<Rightarrow> ('w \<Rightarrow> store) \<Rightarrow> nsname \<Rightarrow> 'w \<Rightarrow> 'w \<Rightarrow> bool"
  for fl :: flags and env :: "'w env" and view :: "'w \<Rightarrow> store" and req :: nsname and w0 :: 'w where
  init: "restoreReach fl env view req w0 w0"
| reconcile: "restoreReach fl env view req w0 w \<Longrightarrow> ReconcileRestore fl env req w = (r, w') \<Longrightarrow> restoreReach fl env view req w0 w'"
| others: "restoreReach fl env view req w0 w \<Longrightarrow> othersAct req (view w) (view w') \<Longrightarrow> restoreReach fl env view req w0 w'"

definition snapshotSound :: "nsname \<Rightarrow> store \<Rightarrow> bool" where
  "snapshotSound req s \<longleftrightarrow> (\<forall>z. snapshots s (fst req, tempName (snd req)) = Some z \<longrightarrow>
     vsSourcePVC z = Some (tempName (snd req)) \<and> (\<exists>j. jobs s req = Some j \<and> jobSuccess j))"

lemma snapshotSound_others: "snapshotSound req s \<Longrightarrow> othersAct req s s' \<Longrightarrow> snapshotSound req s'"
  unfolding snapshotSound_def othersAct_def Let_def jobSuccess_def by (metis option.distinct(1))

lemma snapshotSound_reconcile:
  assumes env: "env_documented view env" and run: "ReconcileRestore fl env req w = (r, w')" and inv: "snapshotSound req (view w)"
  shows "snapshotSound req (view w')"
proof -
  note e = ReconcileRestore_effect [OF env run]
  have "\<exists>j. jobs (view w') req = Some j \<and> jobSuccess j" if "jobs (view w) req = Some j" "jobSuccess j" for j
    using e that by (auto simp: jobStarts_def)
  with e inv show ?thesis by (auto simp: snapshotSound_def snapshotTaken_def Let_def)
qed

text \<open>
  Property C6. Over the whole life of a restore, in every interleaving of reconciliations, which may
  fail half-way, with steps of other actors, who may do anything but take this snapshot themselves
  or alter the outcome of a completed job: if at the start there is no snapshot \<open>temp-<name>\<close>, then
  whenever there is one, the restore's job has completed successfully and the snapshot is of the
  claim that job restored into.
\<close>

theorem restore_snapshot_sound:
  assumes env: "env_documented view env" and start: "snapshots (view w0) (fst req, ''temp-'' @ snd req) = None"
    and reach: "restoreReach fl env view req w0 w"
    and snap: "snapshots (view w) (fst req, ''temp-'' @ snd req) = Some z"
  shows "vsSourcePVC z = Some (''temp-'' @ snd req) \<and> (\<exists>j. jobs (view w) req = Some j \<and> jobSuccess j)"
proof -
  from reach have "snapshotSound req (view w)"
  proof (induction rule: restoreReach.induct)
    case init
    show ?case using start by (simp add: snapshotSound_def tempName_def)
  next
    case (reconcile w r w')
    then show ?case using snapshotSound_reconcile [OF env] by blast
  next
    case (others w w')
    then show ?case using snapshotSound_others by blast
  qed
  with snap show ?thesis by (simp add: snapshotSound_def tempName_def)
qed

section \<open>A sample restore\<close>

definition sampleDR :: directoryRestore where
  "sampleDR = \<lparr>ObjectMeta = (named ''prod'' ''r1'')\<lparr>UID := ''u3'', CreationTimestamp := Some 50\<rparr>, drKind = ''DirectoryRestore'',
     drPodTemplate = sampleTemplate, SourcePVCName = ''nightly'',
     drStatus = \<lparr>StartTimestamp = None, CompletionTimestamp = None\<rparr>\<rparr>"

definition finishedJob :: "int32 \<Rightarrow> int32 \<Rightarrow> job" where
  "finishedJob f s = stamp 60 ((newJob ''prod'' ''r1'')\<lparr>jobCompletionTime := Some (Some 90), jobFailed := f, jobSucceeded := s\<rparr>)"

definition restoreWorld :: "job list \<Rightarrow> memw" where
  "restoreWorld js = emptyMem\<lparr>mDrs := [sampleDR], mJobs := js\<rparr>"

lemma sampleDR_fields:
  "drName sampleDR = ''r1''" "drNamespace sampleDR = ''prod''" "objkey sampleDR = (''prod'', ''r1'')" "created sampleDR"
  by (simp_all add: sampleDR_def objkey_def created_def isZero_def)

lemma mem_createDSJob_any: "\<exists>j p' w'. createDSJob fl memEnv p b t args kd ow knd w = (Ret (None, j, p'), w')"
proof (cases "lookupObj (mJobs w) (Namespace ow, Name ow)")
  case None
  then show ?thesis by (rule mem_createDSJob) blast
next
  case (Some cur)
  let ?x = "newJob (Namespace ow) (Name ow)"
  let ?f = "jobMutate memEnv (jobPodSpec fl (Namespace ow) p b t args) kd ow knd"
  have f: "?f cur p w = (Ret (None, cur, p), w)"
    by (rule jobCallback.f_created) (use lookupObj_Some [OF Some] in simp)
  have "lookupObj (mJobs w) (objkey ?x) = Some cur" using Some by simp
  from mem_cou_same [where get = mJobs and f = ?f and put = "\<lambda>xs w. w\<lparr>mJobs := xs\<rparr>" and mU = keepStamp and mS = keepStamp, OF this f]
  show ?thesis by (simp add: createDSJob_def memEnv_def)
qed

lemma mem_restore_claim:
  assumes "lookupObj (mPvcs w) (ns, n) = None"
  obtains z w' where "kCreateOrUpdate (pvcClient memEnv) (newPVC ns n) () (restorePvcMutate memEnv dr) w = (Ret (None, z, ()), w')"
proof -
  obtain y where f: "restorePvcMutate memEnv dr (newPVC ns n) () w = (Ret (None, y, ()), w)"
    by (auto simp: restorePvcMutate_def isZero_def Let_def ret_def memEnv_def memRef_def)
  show thesis
    by (rule mem_pvc_makes [where x = "newPVC ns n" and f = "restorePvcMutate memEnv dr" and y = y and w = w])
      (use assms f restorePvcMutate_key [OF f] that in auto)
qed

lemma mem_restore_snapshot:
  assumes "lookupObj (mSnaps w) (ns, n) = None"
  obtains z where "kCreateOrUpdate (snapClient memEnv) (newSnapshot ns n) () (restoreSnapMutate memEnv dr) w =
    (Ret (None, z, ()), w\<lparr>mSnaps := z # dropKey (ns, n) (mSnaps w)\<rparr>)"
proof -
  obtain y where f: "restoreSnapMutate memEnv dr (newSnapshot ns n) () w = (Ret (None, y, ()), w)"
    by (auto simp: restoreSnapMutate_def isZero_def Let_def ret_def memEnv_def memRef_def)
  show thesis
    by (rule mem_snap_makes [where x = "newSnapshot ns n" and f = "restoreSnapMutate memEnv dr" and y = y and w = w])
      (use assms f restoreSnapMutate_key [OF f] that in auto)
qed

lemma mem_restoreStatusStage:
  assumes dr: "lookupObj (mDrs w) (objkey dr) = Some d0"
    and none: "lookupObj (mPvcs w) (drNamespace dr, tempName (drName dr)) = None"
  shows "\<exists>res w'. restoreStatusStage fl memEnv dr b w = (Ret (res, None), w')"
proof -
  define y where "y = d0\<lparr>drStatus := drStatus dr\<rparr>"
  define w1 where "w1 = w\<lparr>mDrs := upsert y (mDrs w)\<rparr>"
  have st: "statusUpdateDR memEnv dr w = (Ret (None, y), w1)"
    using dr by (simp add: statusUpdateDR_def mem_defs bindM_def callM_def ret_def Let_def w1_def y_def)
  have "objkey d0 = objkey dr" using lookupObj_Some [OF dr] by simp
  then have "lookupObj (mPvcs w1) (drNamespace y, tempName (drName y)) = None" using none by (simp add: w1_def y_def objkey_def)
  then obtain z w2 where z: "kCreateOrUpdate (pvcClient memEnv) (newPVC (drNamespace y) (tempName (drName y))) () (restorePvcMutate memEnv y) w1 =
      (Ret (None, z, ()), w2)"
    by (rule mem_restore_claim)
  obtain j p' w' where "createDSJob fl memEnv z (SourcePVCName y) (drPodTemplate y) [''restore''] KDr (ObjectMeta y) (drKind y) w2 =
      (Ret (None, j, p'), w')"
    using mem_createDSJob_any by blast
  with st z show ?thesis
    by (simp add: restoreStatusStage_def restoreObjects_def restoreJobStage_def bindM_def ret_def)
qed

text \<open>Reconciling the sample restore without a job, and with one that has finished.\<close>

lemma finishedJob_fields:
  "objkey (finishedJob f n) = (''prod'', ''r1'')" "created (finishedJob f n)" "jobCompletionTime (finishedJob f n) = Some (Some 90)"
  "jobFailed (finishedJob f n) = f" "jobSucceeded (finishedJob f n) = n"
  by (simp_all add: finishedJob_def objkey_def stamp_def created_def isZero_def)

lemma restoreWorld_reads:
  "kGet (drClient memEnv) (''prod'', ''r1'') (restoreWorld js) = (Inr sampleDR, restoreWorld js)"
  "directoryrestores (memView (restoreWorld js)) (''prod'', ''r1'') = Some sampleDR"
  "fetchJob memEnv (''prod'', ''r1'') (restoreWorld []) = (Ret (Inr (newJob '''' '''')), restoreWorld [])"
  "fetchJob memEnv (''prod'', ''r1'') (restoreWorld [finishedJob f n]) = (Ret (Inr (finishedJob f n)), restoreWorld [finishedJob f n])"
  "jobs (memView (restoreWorld [])) = Map.empty" "jobs (memView (restoreWorld [finishedJob f n])) (''prod'', ''r1'') = Some (finishedJob f n)"
  "snapshots (memView (restoreWorld js)) = Map.empty"
  by (simp_all add: mem_defs restoreWorld_def lookupObj_Cons sampleDR_fields memView_def fetchJob_def bindM_def callM_def ret_def
      IgnoreNotFound_def finishedJob_fields)

lemma sample_restore_fresh: "\<exists>res w'. ReconcileRestore plainFlags memEnv (''prod'', ''r1'') (restoreWorld []) = (Ret (res, None), w')"
proof -
  have "restoreProgress memEnv (newJob '''' '''') sampleDR w = (Ret (Inr (sampleDR, True)), w)" for w
    by (simp add: restoreProgress_def isZero_def ret_def)
  moreover have "\<exists>res w'. restoreStatusStage plainFlags memEnv sampleDR True (restoreWorld []) = (Ret (res, None), w')"
    by (rule mem_restoreStatusStage) (simp_all add: restoreWorld_def emptyMem_def lookupObj_Cons sampleDR_fields)
  ultimately show ?thesis
    by (simp add: ReconcileRestore_def restoreJobSeen_def bindM_def callM_def restoreWorld_reads)
qed

lemma sample_restore_done:
  "\<exists>res w' z. ReconcileRestore plainFlags memEnv (''prod'', ''r1'') (restoreWorld [finishedJob 0 1]) = (Ret (res, None), w') \<and>
     snapshots (memView w') (''prod'', ''temp-r1'') = Some z"
proof -
  let ?w = "restoreWorld [finishedJob 0 1]" and ?j = "finishedJob 0 1"
  define dr where "dr = sampleDR\<lparr>drStatus := \<lparr>StartTimestamp = Some (Some 60), CompletionTimestamp = Some (Some 90)\<rparr>\<rparr>"
  have drk: "drNamespace dr = ''prod''" "drName dr = ''r1''" "objkey dr = (''prod'', ''r1'')"
    by (simp_all add: dr_def sampleDR_fields) (simp add: sampleDR_fields objkey_def)
  have "lookupObj (mSnaps ?w) (''prod'', tempName ''r1'') = None" by (simp add: restoreWorld_def emptyMem_def)
  then obtain z where z: "kCreateOrUpdate (snapClient memEnv) (newSnapshot ''prod'' (tempName ''r1'')) () (restoreSnapMutate memEnv dr) ?w =
      (Ret (None, z, ()), ?w\<lparr>mSnaps := z # dropKey (''prod'', tempName ''r1'') (mSnaps ?w)\<rparr>)"
    by (rule mem_restore_snapshot)
  define w2 where "w2 = ?w\<lparr>mSnaps := z # dropKey (''prod'', tempName ''r1'') (mSnaps ?w)\<rparr>"
  have sz: "snapshots (memView w2) (''prod'', tempName ''r1'') = Some z"
    using snapK.cou_present [OF env_clients(6) [OF memEnv_documented] restore_quiet(1) z] by (simp add: w2_def)
  have pr: "restoreProgress memEnv ?j sampleDR ?w = (Ret (Inr (dr, False)), w2)"
    using z by (simp add: restoreProgress_def takeRestoreSnapshot_def finishedJob_def stamp_def isZero_def Let_def bindM_def ret_def
        dr_def sampleDR_def w2_def)
  have "\<exists>res w'. restoreStatusStage plainFlags memEnv dr False w2 = (Ret (res, None), w')"
    by (rule mem_restoreStatusStage) (simp_all add: w2_def drk restoreWorld_def emptyMem_def lookupObj_Cons sampleDR_fields)
  then obtain res w' where st: "restoreStatusStage plainFlags memEnv dr False w2 = (Ret (res, None), w')" by blast
  then have run: "ReconcileRestore plainFlags memEnv (''prod'', ''r1'') ?w = (Ret (res, None), w')"
    using pr by (simp add: ReconcileRestore_def restoreJobSeen_def bindM_def callM_def restoreWorld_reads)
  have "snapshots (memView w') = snapshots (memView w2)"
    by (rule snapK.stays_kind [OF conjunct1 [OF restoreStatusStage_effect [OF memEnv_documented drk(3) st]]]) (auto simp: restoreMade_def)
  with run sz show ?thesis by (auto simp: tempName_def)
qed

theorem restore_snapshot_guarded_witness:
  "\<exists>w' z. snd (ReconcileRestore plainFlags memEnv (''prod'', ''r1'') (restoreWorld [finishedJob 0 1])) = w' \<and>
     snapshots (memView w') = [(''prod'', ''temp-r1'') \<mapsto> z] \<and> vsSourcePVC z = Some ''temp-r1''"
proof -
  obtain res w' z where run: "ReconcileRestore plainFlags memEnv (''prod'', ''r1'') (restoreWorld [finishedJob 0 1]) = (Ret (res, None), w')"
    and z: "snapshots (memView w') (''prod'', ''temp-r1'') = Some z"
    using sample_restore_done by blast
  from z have "snapshots (memView w') \<noteq> snapshots (memView (restoreWorld [finishedJob 0 1]))" by (auto simp: restoreWorld_reads)
  with restore_snapshot_guarded [OF memEnv_documented run] run show ?thesis by (auto simp: Let_def restoreWorld_reads)
qed

theorem restore_refines_witness:
  "operatorStep (restorePhaseOf (''prod'', ''r1'') (memView (restoreWorld [finishedJob 0 1])))
     (restorePhaseOf (''prod'', ''r1'') (memView (snd (ReconcileRestore plainFlags memEnv (''prod'', ''r1'') (restoreWorld [finishedJob 0 1]))))) \<and>
   restorePhaseOf (''prod'', ''r1'') (memView (restoreWorld [finishedJob 0 1])) = Succeeded"
proof
  show "operatorStep (restorePhaseOf (''prod'', ''r1'') (memView (restoreWorld [finishedJob 0 1])))
     (restorePhaseOf (''prod'', ''r1'') (memView (snd (ReconcileRestore plainFlags memEnv (''prod'', ''r1'') (restoreWorld [finishedJob 0 1])))))"
    by (rule restore_refines [OF memEnv_documented surjective_pairing])
  show "restorePhaseOf (''prod'', ''r1'') (memView (restoreWorld [finishedJob 0 1])) = Succeeded"
    by (simp add: restorePhaseOf_def restoreWorld_reads finishedJob_fields jobSuccess_def)
qed

theorem failed_restore_not_recorded_witness:
  "\<exists>res e w'. ReconcileRestore plainFlags memEnv (''prod'', ''r1'') (restoreWorld [finishedJob 1 0]) = (Ret (res, Some e), w') \<and>
     memView w' = memView (restoreWorld [finishedJob 1 0])"
proof -
  let ?w = "restoreWorld [finishedJob 1 0]"
  obtain r w' where run: "ReconcileRestore plainFlags memEnv (''prod'', ''r1'') ?w = (r, w')"
    by (cases "ReconcileRestore plainFlags memEnv (''prod'', ''r1'') ?w")
  have "jobCompletionTime (finishedJob 1 0) \<noteq> None" "0 < sint (jobFailed (finishedJob 1 0))" by (simp_all add: finishedJob_fields)
  from failed_restore_not_recorded [OF memEnv_documented restoreWorld_reads(2) restoreWorld_reads(6) this run] run
  show ?thesis by blast
qed

theorem restore_progresses_witness:
  "\<exists>res w' j. ReconcileRestore plainFlags memEnv (''prod'', ''r1'') (restoreWorld []) = (Ret (res, None), w') \<and> RequeueAfter res = 60 \<and>
     jobs (memView w') (''prod'', ''r1'') = Some j \<and> \<lparr>volName = ''backup'', volSource = PvcVolume ''nightly''\<rparr> \<in> set (Volumes (ptSpec (jobTemplate j)))"
proof -
  obtain res w' where run: "ReconcileRestore plainFlags memEnv (''prod'', ''r1'') (restoreWorld []) = (Ret (res, None), w')"
    using sample_restore_fresh by blast
  from restore_progresses [OF memEnv_documented restoreWorld_reads(2) run] run show ?thesis
    by (auto simp: restoreWorld_reads sampleDR_def)
qed

theorem restore_snapshot_sound_witness:
  "\<exists>w z. restoreReach plainFlags memEnv memView (''prod'', ''r1'') (restoreWorld []) w \<and>
     snapshots (memView w) (''prod'', ''temp-r1'') = Some z \<and> vsSourcePVC z = Some ''temp-r1''"
proof -
  let ?reach = "restoreReach plainFlags memEnv memView (''prod'', ''r1'') (restoreWorld [])"
  obtain res w' z where run: "ReconcileRestore plainFlags memEnv (''prod'', ''r1'') (restoreWorld [finishedJob 0 1]) = (Ret (res, None), w')"
    and z: "snapshots (memView w') (''prod'', ''temp-r1'') = Some z"
    using sample_restore_done by blast
  have "othersAct (''prod'', ''r1'') (memView (restoreWorld [])) (memView (restoreWorld [finishedJob 0 1]))"
    by (simp add: othersAct_def restoreWorld_reads)
  then have "?reach (restoreWorld [finishedJob 0 1])" by (rule restoreReach.others [OF restoreReach.init])
  then have reach: "?reach w'" using run by (rule restoreReach.reconcile)
  have "snapshots (memView (restoreWorld [])) (fst (''prod'', ''r1''), ''temp-'' @ snd (''prod'', ''r1'')) = None"
    by (simp add: restoreWorld_reads)
  from restore_snapshot_sound [OF memEnv_documented this reach] z reach show ?thesis by auto
qed

end
