(* ===== verification/Coexistence.thy ===== *)
theory Coexistence
  imports Restores
begin

text \<open>
  How the three controllers share a cluster. Reconciling a directory prunes snapshots; the
  snapshots of backups, restores and other directories are told apart by their labels and are
  never touched. The properties that rest on these lemmas are in the root theory.
\<close>

section \<open>Foreign snapshots\<close>

text \<open>A snapshot is foreign if it is in another namespace or does not have the labels.\<close>

definition foreignKept :: "('w \<Rightarrow> store) \<Rightarrow> string \<Rightarrow> (string \<rightharpoonup> string) \<Rightarrow> 'w \<Rightarrow> 'w \<Rightarrow> bool" where
  "foreignKept view ns L w w' \<longleftrightarrow>
     (\<forall>k x. snapshots (view w) k = Some x \<longrightarrow> \<not> (fst k = ns \<and> labelsMatch L x) \<longrightarrow> snapshots (view w') k = Some x)"

interpretation foreign: world_order "foreignKept view ns L" for view :: "'w \<Rightarrow> store" and ns L
  by unfold_locales (auto simp: foreignKept_def)

lemma stays_foreign: "pres (stays K view) m \<Longrightarrow> KSnap \<notin> fst ` K \<Longrightarrow> pres (foreignKept view ns L) m"
  by (erule pres_mono) (simp add: foreignKept_def snapK.stays_kind)

abbreviation keepsForeign :: "('w \<Rightarrow> store) \<Rightarrow> directoryService \<Rightarrow> ('w, 'a) M \<Rightarrow> bool" where
  "keepsForeign view ds \<equiv> pres (foreignKept view (dsNamespace ds) (createLabels (dsName ds) (dsKind ds) None))"

text \<open>Pruning deletes what was listed, and what is listed has the labels.\<close>

lemma prune_foreign:
  assumes env: "env_documented view env"
  shows "keepsForeign view ds (bindM (getSnapshotList env ds) (\<lambda>r.
    case r of Inl e \<Rightarrow> ret (Some e, ds)
    | Inr items \<Rightarrow> bindM (pruneSnapshots env n items) (\<lambda>_. ret (None, ds))))" (is "pres _ (bindM _ ?f)")
proof (rule presI)
  fix w r w'
  assume run: "bindM (getSnapshotList env ds) ?f w = (r, w')"
  obtain q w1 where l: "getSnapshotList env ds w = (q, w1)" by (cases "getSnapshotList env ds w")
  from getSnapshotList_view [OF env l] obtain x where x: "q = Ret x" and v: "view w1 = view w" by blast
  show "foreignKept view (dsNamespace ds) (createLabels (dsName ds) (dsKind ds) None) w w'"
  proof (cases x)
    case (Inl e)
    with run l x v show ?thesis by (simp add: bindM_def ret_def foreignKept_def)
  next
    case (Inr items)
    note items = snapshot_list_facts(1) [OF env l [unfolded x Inr]]
    have "pres (stays ((\<lambda>s. (KSnap, objkey s)) ` set items) view) (bindM (pruneSnapshots env n items) (\<lambda>_. ret (None, ds)))"
      by (intro frame.pres_bindM frame.pres_ret pruneSnapshots_stays [OF env]) simp
    moreover from run l x Inr have "bindM (pruneSnapshots env n items) (\<lambda>_. ret (None, ds)) w1 = (r, w')"
      by (simp add: bindM_def)
    ultimately have st: "stays ((\<lambda>s. (KSnap, objkey s)) ` set items) view w1 w'" by (rule presD)
    show ?thesis
      unfolding foreignKept_def
    proof (intro allI impI)
      fix k s
      assume s: "snapshots (view w) k = Some s" and f: "\<not> (fst k = dsNamespace ds \<and> labelsMatch (createLabels (dsName ds) (dsKind ds) None) s)"
      have "k \<noteq> objkey y" if "y \<in> set items" for y
      proof
        assume "k = objkey y"
        moreover from that items have "snapshots (view w) (objkey y) = Some y" "fst (objkey y) = dsNamespace ds"
          "labelsMatch (createLabels (dsName ds) (dsKind ds) None) y" unfolding ownSnapshots_def by blast+
        ultimately show False using s f by simp
      qed
      then have "snapshots (view w') k = snapshots (view w1) k" by (intro snapK.stays_at [OF st]) auto
      with s v show "snapshots (view w') k = Some s" by simp
    qed
  qed
qed

lemma statusUpdateDS_foreign: "env_documented view env \<Longrightarrow> pres (foreignKept view ns L) (statusUpdateDS env ds)"
  by (rule stays_foreign [OF statusUpdateDS_stays, where K = "{(KDs, objkey ds)}"]) simp_all

lemma snapshotCreate_foreign:
  assumes env: "env_documented view env"
  shows "pres (foreignKept view ns L) (kCreateOrUpdate (snapClient env) x l (snapshotMutate s))"
proof (rule presI)
  fix w r w'
  assume "kCreateOrUpdate (snapClient env) x l (snapshotMutate s) w = (r, w')"
  from snapCallback.cou_grows [OF env_clients(6) [OF env] snapshotMutate_quiet this]
  show "foreignKept view ns L w w'" unfolding foreignKept_def map_le_def by (metis domI)
qed

lemma reconcileSnapshots_foreign:
  assumes env: "env_documented view env"
  shows "keepsForeign view ds (reconcileSnapshots env ds)"
proof -
  have tail: "keepsForeign view ds (bindM (statusUpdateDS env (setLastSnapshot ds now)) (\<lambda>(err, ds).
      case err of Some e \<Rightarrow> ret (Some e, ds)
      | None \<Rightarrow> bindM (getSnapshotList env ds) (\<lambda>r. case r of Inl e \<Rightarrow> ret (Some e, ds)
          | Inr items \<Rightarrow> bindM (pruneSnapshots env (SnapshotsRetained (Snapshots (Spec ds))) items) (\<lambda>_. ret (None, ds)))))" for now
  proof (rule foreign.pres_bindM_reach [OF statusUpdateDS_foreign [OF env]])
    fix x w w1
    assume st: "statusUpdateDS env (setLastSnapshot ds now) w = (Ret x, w1)"
    obtain err ds1 where x: "x = (err, ds1)" by (cases x)
    from statusUpdateDS_Ret [OF env st [unfolded x]]
    have "dsName ds1 = dsName ds" "dsNamespace ds1 = dsNamespace ds" "dsKind ds1 = dsKind ds"
      by (simp_all add: setLastSnapshot_def objkey_def)
    with x prune_foreign [OF env, of ds1] show "keepsForeign view ds (case x of (err, ds) \<Rightarrow>
        case err of None \<Rightarrow> bindM (getSnapshotList env ds) (\<lambda>r. case r of Inl e \<Rightarrow> ret (Some e, ds)
          | Inr items \<Rightarrow> bindM (pruneSnapshots env (SnapshotsRetained (Snapshots (Spec ds))) items) (\<lambda>_. ret (None, ds)))
        | Some e \<Rightarrow> ret (Some e, ds))"
      by (auto intro: foreign.pres_ret split: option.splits)
  qed
  have now: "pres (foreignKept view ns L) (callM (Now env))" "pres (foreignKept view ns L) (callM (Event env a b))" for ns L a b
    by (rule stays_foreign [where K = "{}"]; simp add: env_runtime_stays [OF env])+
  show ?thesis
    unfolding reconcileSnapshots_def Let_def
    by (auto intro!: foreign.pres_ret foreign.pres_bindM now statusUpdateDS_foreign [OF env] snapshotCreate_foreign [OF env] tail)
qed

section \<open>The whole reconciliation\<close>

lemma snapshotStage_foreign:
  assumes env: "env_documented view env"
  shows "keepsForeign view ds (snapshotStage fl env ds svc)"
proof -
  have "pres (foreignKept view ns L) (ldapStage fl env d svc)" for ns L d
    by (rule stays_foreign [OF ldapStage_stays [OF env], where K = "{(KDs, objkey d)}"]) simp_all
  then show ?thesis
    unfolding snapshotStage_def
    by (auto intro!: foreign.pres_bindM foreign.pres_ret reconcileSnapshots_foreign [OF env] split: option.splits)
qed

lemma serviceStage_foreign:
  assumes env: "env_documented view env"
  shows "keepsForeign view ds (serviceStage fl env ds svcName)"
proof -
  have "pres (foreignKept view ns L) (reconcileService env ds svcName)" for ns L
    by (rule stays_foreign [OF reconcileService_stays [OF env], where K = "{(KSvc, dsNamespace ds, svcName)}"]) simp_all
  then show ?thesis
    unfolding serviceStage_def
    by (auto intro!: foreign.pres_bindM foreign.pres_ret snapshotStage_foreign [OF env] split: option.splits)
qed

lemma keepsForeign_cong: "sameResource ds ds1 \<Longrightarrow> keepsForeign view ds1 m \<Longrightarrow> keepsForeign view ds m"
  by (simp add: sameResource_def)

lemma proxyStage_foreign:
  assumes env: "env_documented view env"
  shows "keepsForeign view ds (proxyStage fl env ds svcName)"
  unfolding proxyStage_def
proof (rule foreign.pres_bindM_reach, goal_cases)
  case 1
  show ?case
    by (rule stays_foreign [OF reconcileProxy_stays [OF env], where K = "{(KDep, dsNamespace ds, proxyNameOf ds)}"]) simp_all
next
  case (2 x w w1)
  obtain err ds1 where x: "x = (err, ds1)" by (cases x)
  have "keepsForeign view ds (serviceStage fl env ds1 svcName)" if "err = None"
    by (rule keepsForeign_cong [OF reconcileProxy_same [OF env 2 [unfolded x that]] serviceStage_foreign [OF env]])
  with x show ?case by (auto intro: foreign.pres_ret split: option.splits)
qed

lemma stsStage_foreign:
  assumes env: "env_documented view env"
  shows "keepsForeign view ds (stsStage fl env ds svcName)"
  unfolding stsStage_def
proof (rule foreign.pres_bindM_reach, goal_cases)
  case 1
  show ?case by (rule stays_foreign [OF reconcileSTS_stays [OF env], where K = "{(KSts, objkey ds)}"]) simp_all
next
  case (2 x w w1)
  obtain err ds1 where x: "x = (err, ds1)" by (cases x)
  have "keepsForeign view ds (proxyStage fl env ds1 svcName)" if "err = None"
    by (rule keepsForeign_cong [OF _ proxyStage_foreign [OF env]])
      (use reconcileSTS_success [OF env 2 [unfolded x that]] in \<open>auto simp: sameResource_def\<close>)
  with x show ?case by (auto intro: foreign.pres_ret split: option.splits)
qed

lemma reconcileBody_foreign:
  assumes env: "env_documented view env"
  shows "keepsForeign view ds (reconcileBody fl env ds)"
  unfolding reconcileBody_def
proof (intro foreign.pres_checkM foreign.pres_ret stsStage_foreign [OF env])
  show "keepsForeign view ds (reconcilePVC env ds)"
    by (rule stays_foreign [OF reconcilePVC_stays [OF env], where K = "range (Pair KPvc)"]) auto
  show "keepsForeign view ds (reconcileSecrets env ds)"
    by (rule stays_foreign [OF reconcileSecrets_stays [OF env], where K = "range (Pair KSecret)"]) auto
qed

lemma labelsMatch_createLabels:
  assumes "Labels (ObjectMeta x) = Some (createLabels n knd None)"
  shows "labelsMatch (createLabels i c None) x \<longleftrightarrow> n = i \<and> knd = c"
proof
  assume le: "labelsMatch (createLabels i c None) x"
  have at: "createLabels a b None labelInstance = Some a" "createLabels a b None labelController = Some b" for a b
    by (simp_all add: createLabels_def)
  from le assms have "createLabels i c None \<subseteq>\<^sub>m createLabels n knd None" by (simp add: labelsMatch_def mapGet_def)
  then have "createLabels n knd None labelInstance = Some i" "createLabels n knd None labelController = Some c"
    using at [of i c] unfolding map_le_def by (metis domI)+
  then show "n = i \<and> knd = c" by (simp only: at option.inject)
next
  assume "n = i \<and> knd = c"
  with assms show "labelsMatch (createLabels i c None) x" by (simp add: labelsMatch_def mapGet_def)
qed

end
