(* ===== verification/Convergence.thy ===== *)
theory Convergence
  imports Ds_Controller
begin

text \<open>
  The reconciler is level triggered: the framework may run it again at any time, so a run that
  finds the cluster as the resource describes it must leave it alone. \<open>settled\<close> says what the
  resource describes, a successful reconciliation brings it about, and once it holds no
  reconciliation, however it ends, writes anything but the resource's own status and annotations,
  the periodic snapshots, and the removal of a proxy that is switched off.
\<close>

section \<open>What a resource describes\<close>

definition volumesReady :: "directoryService \<Rightarrow> store \<Rightarrow> bool" where
  "volumesReady ds s \<longleftrightarrow>
     (case Replicas (Spec ds) of None \<Rightarrow> False | Some n \<Rightarrow> claimKeys ds (nat (sint n)) \<subseteq> dom (pvcs s))"

definition passwordsReady :: "directoryService \<Rightarrow> store \<Rightarrow> bool" where
  "passwordsReady ds s \<longleftrightarrow>
     (\<forall>dn a. mapGet (Passwords (Spec ds)) dn = Some a \<longrightarrow> Create a \<longrightarrow>
        (\<exists>x. secrets s (dsNamespace ds, SecretName a) = Some x \<and> mapGet (Data x) (Key a) \<noteq> None))"

definition setReady :: "directoryService \<Rightarrow> store \<Rightarrow> bool" where
  "setReady ds s \<longleftrightarrow> (\<exists>x. statefulsets s (dsNamespace ds, dsName ds) = Some x \<and> stsFollows ds x)"

definition proxyReady :: "directoryService \<Rightarrow> store \<Rightarrow> bool" where
  "proxyReady ds s \<longleftrightarrow> (proxyEnabled (Proxy (Spec ds)) \<longrightarrow>
     (\<exists>d. deployments s (dsNamespace ds, proxyNameOf ds) = Some d \<and> proxyFollows ds d))"

definition serviceReady :: "directoryService \<Rightarrow> store \<Rightarrow> bool" where
  "serviceReady ds s \<longleftrightarrow> services s (dsNamespace ds, dsName ds) \<noteq> None"

definition settled :: "directoryService \<Rightarrow> store \<Rightarrow> bool" where
  "settled ds s \<longleftrightarrow>
     volumesReady ds s \<and> passwordsReady ds s \<and> setReady ds s \<and> proxyReady ds s \<and> serviceReady ds s"

lemmas ready_defs = volumesReady_def passwordsReady_def setReady_def proxyReady_def serviceReady_def

text \<open>It depends on the name, the namespace and the specification of the resource only.\<close>

lemma ready_cong:
  assumes "objkey ds' = objkey ds" and "Spec ds' = Spec ds"
  shows "volumesReady ds' = volumesReady ds" "passwordsReady ds' = passwordsReady ds" "setReady ds' = setReady ds"
    "proxyReady ds' = proxyReady ds" "serviceReady ds' = serviceReady ds" "settled ds' = settled ds"
proof -
  from assms(1) have k: "dsNamespace ds' = dsNamespace ds" "dsName ds' = dsName ds" by (simp_all add: objkey_def)
  show v: "volumesReady ds' = volumesReady ds" and p: "passwordsReady ds' = passwordsReady ds" and s: "setReady ds' = setReady ds"
    and d: "proxyReady ds' = proxyReady ds" and svc: "serviceReady ds' = serviceReady ds"
    by (simp_all add: ready_defs fun_eq_iff k assms(2) claimKeys_def stsFollows_def proxyFollows_def proxyNameOf_def
        cong: option.case_cong)
  show "settled ds' = settled ds" by (simp add: settled_def fun_eq_iff v p s d svc)
qed

text \<open>What a reconciliation may still write then.\<close>

definition leftToDo :: "directoryService \<Rightarrow> (kind \<times> nsname) set" where
  "leftToDo ds = {(KDs, objkey ds)} \<union> range (\<lambda>n. (KSnap, dsNamespace ds, n)) \<union>
     (if proxyEnabled (Proxy (Spec ds)) then {} else {(KDep, dsNamespace ds, proxyNameOf ds)})"

lemma settled_stays:
  assumes "settled ds (view w)" and "stays (leftToDo ds) view w w'"
  shows "settled ds (view w')"
proof -
  note st = assms(2)
  have "pvcs (view w') = pvcs (view w)" by (rule pvcK.stays_kind [OF st]) (auto simp: leftToDo_def)
  moreover have "secrets (view w') = secrets (view w)" by (rule secretK.stays_kind [OF st]) (auto simp: leftToDo_def)
  moreover have "statefulsets (view w') = statefulsets (view w)" by (rule stsK.stays_kind [OF st]) (auto simp: leftToDo_def)
  moreover have "services (view w') = services (view w)" by (rule svcK.stays_kind [OF st]) (auto simp: leftToDo_def)
  moreover have "deployments (view w') = deployments (view w)" if "proxyEnabled (Proxy (Spec ds))"
    by (rule depK.stays_kind [OF st]) (use that in \<open>auto simp: leftToDo_def\<close>)
  ultimately show ?thesis using assms(1) by (simp add: settled_def ready_defs cong: option.case_cong)
qed

section \<open>A settled cluster is left alone\<close>

text \<open>An object the callback would not change is not written, whatever happens.\<close>

context kind_store
begin

lemma cou_fixed:
  assumes kc: "client_documented acc accS sel upd view kc"
    and cur: "sel (view w) (objkey x) = Some cur"
    and fixed: "\<And>w1. created cur \<Longrightarrow> \<exists>l'. f cur l w1 = (Ret (None, cur, l'), w1)"
    and run: "kCreateOrUpdate kc x l f w = (r, w')"
  shows "view w' = view w"
proof -
  from kc have cou: "kCreateOrUpdate kc x l f = couSpec kc x l f" unfolding client_documented_def by blast
  obtain g w1 where get: "kGet kc (objkey x) w = (g, w1)" by (cases "kGet kc (objkey x) w")
  have v1: "view w1 = view w" by (rule get_view [OF kc get])
  show ?thesis
  proof (cases g)
    case (Inl e)
    with get_NotFound [OF kc] get cur have "e \<noteq> NotFound" by fastforce
    with Inl get run v1 show ?thesis by (auto simp: cou couSpec_def bindM_def callM_def ret_apply)
  next
    case (Inr y)
    with get_Inr [OF kc] get cur have "y = cur" "created cur" by fastforce+
    with Inr get run v1 fixed [of w1] show ?thesis by (auto simp: cou couSpec_def bindM_def callM_def ret_apply)
  qed
qed

end

definition heldStill :: "directoryService \<Rightarrow> ('w \<Rightarrow> store) \<Rightarrow> 'w \<Rightarrow> 'w \<Rightarrow> bool" where
  "heldStill ds view w w' \<longleftrightarrow> (settled ds (view w) \<longrightarrow> stays (leftToDo ds) view w w')"

interpretation still: world_order "heldStill ds view" for ds and view :: "'w \<Rightarrow> store"
proof (unfold_locales, goal_cases)
  case (1 w)
  show ?case by (simp add: heldStill_def frame.R_refl)
next
  case (2 u v w)
  then show ?case unfolding heldStill_def by (metis settled_stays frame.R_trans)
qed

lemma heldStill_cong: "objkey ds' = objkey ds \<Longrightarrow> Spec ds' = Spec ds \<Longrightarrow> heldStill ds' = heldStill ds"
proof -
  assume a: "objkey ds' = objkey ds" "Spec ds' = Spec ds"
  then have "leftToDo ds' = leftToDo ds" by (simp add: leftToDo_def proxyNameOf_def) (simp add: objkey_def)
  with ready_cong(6) [OF a] show ?thesis by (simp add: heldStill_def fun_eq_iff)
qed

lemma heldStill_quiet: "(\<And>w r w'. settled ds (view w) \<Longrightarrow> m w = (r, w') \<Longrightarrow> view w' = view w) \<Longrightarrow> pres (heldStill ds view) m"
  by (rule presI) (simp add: heldStill_def stays_def same_except_refl)

lemma heldStill_frame: "pres (stays (leftToDo ds) view) m \<Longrightarrow> pres (heldStill ds view) m"
  by (erule pres_mono) (simp add: heldStill_def)

lemma reconcilePVC_still:
  assumes env: "env_documented view env"
  shows "pres (heldStill ds view) (reconcilePVC env ds)"
proof (cases "Replicas (Spec ds)")
  case None
  then show ?thesis by (simp add: reconcilePVC_def still.pres_panic)
next
  case (Some n)
  have "pres (heldStill ds view) (kCreateOrUpdate (pvcClient env) (newPVC (dsNamespace ds) (dataClaimName (dsName ds) (int i))) ()
      (pvcMutate env ds))" if "i < nat (sint n)" for i
  proof (rule heldStill_quiet)
    fix w r w'
    let ?x = "newPVC (dsNamespace ds) (dataClaimName (dsName ds) (int i))"
    assume "settled ds (view w)" and run: "kCreateOrUpdate (pvcClient env) ?x () (pvcMutate env ds) w = (r, w')"
    with that Some obtain cur where "pvcs (view w) (objkey ?x) = Some cur"
      by (auto simp: settled_def volumesReady_def claimKeys_def)
    from pvcCallback.existing_untouched [OF env_clients(1) [OF env] this run] show "view w' = view w" by blast
  qed
  with Some show ?thesis
    by (auto simp: reconcilePVC_def reconcileOnePVC_def intro!: still.pres_forErr still.pres_bindM still.pres_ret split: option.splits)
qed

lemma secretMutate_fixed:
  "created x \<Longrightarrow> mapGet (Data x) (Key a) \<noteq> None \<Longrightarrow> \<exists>l'. secretMutate env ds a x l w = (Ret (None, x, l'), w)"
  by (auto simp: secretMutate_def created_def Let_def ret_def)

lemma reconcileSecrets_still:
  assumes env: "env_documented view env"
  shows "pres (heldStill ds view) (reconcileSecrets env ds)"
proof -
  have "pres (heldStill ds view) (kCreateOrUpdate (secretClient env) (newSecret (dsNamespace ds) (SecretName a)) () (secretMutate env ds a))"
    if a: "a = mapIndex zeroPasswords (Passwords (Spec ds)) dn" "Create a" for a dn
  proof (rule heldStill_quiet)
    fix w r w'
    let ?x = "newSecret (dsNamespace ds) (SecretName a)"
    assume s: "settled ds (view w)" and run: "kCreateOrUpdate (secretClient env) ?x () (secretMutate env ds a) w = (r, w')"
    from a have "mapGet (Passwords (Spec ds)) dn = Some a"
      by (auto simp: mapIndex_def zeroPasswords_def split: option.splits)
    with s a(2) obtain cur where cur: "secrets (view w) (objkey ?x) = Some cur" "mapGet (Data cur) (Key a) \<noteq> None"
      unfolding settled_def passwordsReady_def objkey_new by blast
    show "view w' = view w"
      by (rule secretK.cou_fixed [OF env_clients(2) [OF env] cur(1) _ run]) (rule secretMutate_fixed [OF _ cur(2)])
  qed
  then have "pres (heldStill ds view) (reconcileOneSecret env ds dn)" for dn
    by (auto simp: reconcileOneSecret_def SecretNameForDN_def Let_def intro!: still.pres_bindM still.pres_ret split: option.splits)
  then show ?thesis
    unfolding reconcileSecrets_def
    by (intro still.pres_bindM still.pres_forErr heldStill_frame [OF env_runtime_stays(3) [OF env]])
qed

lemma stsMutate_fixed:
  assumes "created s" and "stsFollows ds s"
  shows "\<exists>l'. stsMutate fl env svcName s (ds, b) w = (Ret (None, s, l'), w)"
proof -
  from assms(2) obtain c cs i ics where s: "Containers (stsPod s) = c # cs" "InitContainers (stsPod s) = i # ics"
    and im: "Image c = tImage (PodTemplate (Spec ds))" "Image i = tImage (PodTemplate (Spec ds))" "stsReplicas s = Replicas (Spec ds)"
    by (auto simp: stsFollows_def neq_Nil_conv)
  have "s = s\<lparr>stsReplicas := Replicas (Spec ds), stsTemplate := (stsTemplate s)\<lparr>ptSpec := (stsPod s)\<lparr>
         Containers := c\<lparr>Image := tImage (PodTemplate (Spec ds))\<rparr> # cs,
         InitContainers := i\<lparr>Image := tImage (PodTemplate (Spec ds))\<rparr> # ics\<rparr>\<rparr>\<rparr>"
    using s im by (simp add: stsPod_def flip: im)
  with assms(1) updateDSStatefulSet_eq [OF s, of ds w] show ?thesis by (auto simp: stsMutate_def created_def)
qed

lemma reconcileSTS_still:
  assumes env: "env_documented view env"
  shows "pres (heldStill ds view) (reconcileSTS fl env ds svcName)"
proof -
  have "pres (heldStill ds view) (kCreateOrUpdate (stsClient env) (newSTS (dsNamespace ds) (dsName ds)) (ds, False) (stsMutate fl env svcName))"
  proof (rule heldStill_quiet)
    fix w r w'
    let ?x = "newSTS (dsNamespace ds) (dsName ds)"
    assume "settled ds (view w)"
      and run: "kCreateOrUpdate (stsClient env) ?x (ds, False) (stsMutate fl env svcName) w = (r, w')"
    then obtain cur where cur: "statefulsets (view w) (objkey ?x) = Some cur" "stsFollows ds cur"
      by (auto simp: settled_def setReady_def)
    show "view w' = view w"
      by (rule stsK.cou_fixed [OF env_clients(3) [OF env] cur(1) _ run]) (rule stsMutate_fixed [OF _ cur(2)])
  qed
  then show ?thesis
    unfolding reconcileSTS_def Let_def by (auto intro!: still.pres_bindM still.pres_ret split: option.splits)
qed

lemma proxyMutate_fixed:
  assumes "created d" and "proxyFollows ds d"
  shows "\<exists>l'. proxyMutate env d ds w = (Ret (None, d, l'), w)"
proof -
  let ?im = "proxyImage (Proxy (Spec ds))" and ?p = "ptSpec (depTemplate d)"
  from assms(2) obtain c cs i ics where d: "Containers ?p = c # cs" "InitContainers ?p = i # ics"
    and im: "Image c = ?im" "Image i = ?im" "depReplicas d = Some (proxyReplicas (Proxy (Spec ds)))"
    by (auto simp: proxyFollows_def neq_Nil_conv)
  have "d = d\<lparr>depReplicas := Some (proxyReplicas (Proxy (Spec ds))), depTemplate := (depTemplate d)\<lparr>ptSpec := ?p\<lparr>
      Containers := c\<lparr>Image := ?im\<rparr> # cs, InitContainers := i\<lparr>Image := ?im\<rparr> # ics\<rparr>\<rparr>\<rparr>"
    using d im by (simp flip: im)
  with assms(1) d show ?thesis
    by (simp add: proxyMutate_def created_def updateDSProxyDeployment_def Let_def setFirstImage_def bindM_def ret_def)
qed

lemma reconcileProxy_still:
  assumes env: "env_documented view env"
  shows "pres (heldStill ds view) (reconcileProxy env ds)"
proof (cases "proxyEnabled (Proxy (Spec ds))")
  case False
  then show ?thesis by (intro heldStill_frame reconcileProxy_stays [OF env]) (simp add: leftToDo_def)
next
  case True
  have "pres (heldStill ds view) (kCreateOrUpdate (depClient env) (newDeployment (dsNamespace ds) (proxyNameOf ds)) ds (proxyMutate env))"
  proof (rule heldStill_quiet)
    fix w r w'
    let ?x = "newDeployment (dsNamespace ds) (proxyNameOf ds)"
    assume "settled ds (view w)" and run: "kCreateOrUpdate (depClient env) ?x ds (proxyMutate env) w = (r, w')"
    with True obtain cur where cur: "deployments (view w) (objkey ?x) = Some cur" "proxyFollows ds cur"
      by (auto simp: settled_def proxyReady_def)
    show "view w' = view w"
      by (rule depK.cou_fixed [OF env_clients(4) [OF env] cur(1) _ run]) (rule proxyMutate_fixed [OF _ cur(2)])
  qed
  with True show ?thesis
    unfolding reconcileProxy_def by (auto intro!: still.pres_bindM still.pres_ret split: option.splits)
qed

lemma reconcileService_still:
  assumes env: "env_documented view env"
  shows "pres (heldStill ds view) (reconcileService env ds (dsName ds))"
proof -
  have "pres (heldStill ds view) (kCreateOrUpdate (svcClient env) (newService (dsNamespace ds) (dsName ds)) () (serviceMutate env ds))"
  proof (rule heldStill_quiet)
    fix w r w'
    let ?x = "newService (dsNamespace ds) (dsName ds)"
    assume "settled ds (view w)" and run: "kCreateOrUpdate (svcClient env) ?x () (serviceMutate env ds) w = (r, w')"
    then obtain cur where "services (view w) (objkey ?x) = Some cur" by (auto simp: settled_def serviceReady_def)
    from serviceCallback.existing_untouched [OF env_clients(5) [OF env] this run] show "view w' = view w" by blast
  qed
  then show ?thesis unfolding reconcileService_def by (auto intro!: still.pres_bindM still.pres_ret)
qed

text \<open>The stages only change the status of the resource in hand on the way.\<close>

lemma serviceStage_still:
  assumes env: "env_documented view env"
  shows "pres (heldStill ds view) (serviceStage fl env ds (dsName ds))"
proof -
  have "pres (heldStill ds view) (snapshotStage fl env ds svc)" for svc
    by (intro heldStill_frame snapshotStage_stays [OF env]) (simp_all add: leftToDo_def)
  then show ?thesis
    unfolding serviceStage_def
    by (auto intro!: still.pres_bindM still.pres_ret reconcileService_still [OF env] split: option.splits)
qed

lemma proxyStage_still:
  assumes env: "env_documented view env"
  shows "pres (heldStill ds view) (proxyStage fl env ds (dsName ds))"
  unfolding proxyStage_def
proof (rule still.pres_bindM_reach [OF reconcileProxy_still [OF env]], goal_cases)
  case (1 x w w1)
  obtain err ds1 where x: "x = (err, ds1)" by (cases x)
  have "heldStill ds1 = (heldStill ds :: ('a \<Rightarrow> store) \<Rightarrow> _) \<and> dsName ds1 = dsName ds" if "err = None"
    using reconcileProxy_same [OF env 1 [unfolded x that]]
    by (auto intro!: heldStill_cong simp: sameResource_def objkey_def)
  with x serviceStage_still [OF env, of ds1] show ?case
    by (auto intro!: still.pres_ret split: option.splits)
qed

lemma stsStage_still:
  assumes env: "env_documented view env"
  shows "pres (heldStill ds view) (stsStage fl env ds (dsName ds))"
  unfolding stsStage_def
proof (rule still.pres_bindM_reach [OF reconcileSTS_still [OF env]], goal_cases)
  case (1 x w w1)
  obtain err ds1 where x: "x = (err, ds1)" by (cases x)
  have "heldStill ds1 = (heldStill ds :: ('a \<Rightarrow> store) \<Rightarrow> _) \<and> dsName ds1 = dsName ds" if "err = None"
    using reconcileSTS_success [OF env 1 [unfolded x that]]
    by (auto intro!: heldStill_cong simp: objkey_def)
  with x proxyStage_still [OF env, of ds1] show ?case
    by (auto intro!: still.pres_ret split: option.splits)
qed

lemma reconcileBody_still:
  assumes env: "env_documented view env"
  shows "pres (heldStill ds view) (reconcileBody fl env ds)"
  unfolding reconcileBody_def
  by (intro still.pres_checkM still.pres_ret reconcilePVC_still [OF env] reconcileSecrets_still [OF env] stsStage_still [OF env])

section \<open>A successful reconciliation settles the cluster\<close>

lemma reconcilePVC_ready:
  assumes env: "env_documented view env" and run: "reconcilePVC env ds w = (Ret None, w')"
  shows "volumesReady ds (view w')"
proof -
  from run obtain n where n: "Replicas (Spec ds) = Some n" by (auto simp: reconcilePVC_def run_simps)
  from reconcilePVC_present [OF env n run] n show ?thesis by (simp add: volumesReady_def)
qed

lemma reconcileProxy_ready:
  assumes env: "env_documented view env" and run: "reconcileProxy env ds w = (Ret (None, ds'), w')"
  shows "proxyReady ds (view w')"
  unfolding proxyReady_def
proof
  assume on: "proxyEnabled (Proxy (Spec ds))"
  let ?x = "newDeployment (dsNamespace ds) (proxyNameOf ds)"
  from run on obtain d where cou: "kCreateOrUpdate (depClient env) ?x ds (proxyMutate env) w = (Ret (None, d, ds'), w')"
    by (auto simp: reconcileProxy_def bindM_eq_Ret ret_apply split: option.splits)
  from env_clients(4) [OF env] proxyMutate_quiet cou have "deployments (view w') (objkey ?x) = Some d \<and> proxyFollows ds d"
    by (cases rule: depK.cou_success) (auto dest!: proxyMutate_follows dest: proxyFollows_acc)
  then show "\<exists>d. deployments (view w') (dsNamespace ds, proxyNameOf ds) = Some d \<and> proxyFollows ds d" by auto
qed

text \<open>What the steps have brought about survives the steps after them.\<close>

lemma ready_stays:
  assumes st: "stays K view w w'"
  shows "KPvc \<notin> fst ` K \<Longrightarrow> volumesReady ds (view w) \<Longrightarrow> volumesReady ds (view w')"
    and "KSecret \<notin> fst ` K \<Longrightarrow> passwordsReady ds (view w) \<Longrightarrow> passwordsReady ds (view w')"
    and "KSts \<notin> fst ` K \<Longrightarrow> setReady ds (view w) \<Longrightarrow> setReady ds (view w')"
    and "KDep \<notin> fst ` K \<Longrightarrow> proxyReady ds (view w) \<Longrightarrow> proxyReady ds (view w')"
    and "KSvc \<notin> fst ` K \<Longrightarrow> serviceReady ds (view w) \<Longrightarrow> serviceReady ds (view w')"
  using pvcK.stays_kind [OF st] secretK.stays_kind [OF st] stsK.stays_kind [OF st] depK.stays_kind [OF st] svcK.stays_kind [OF st]
  by (simp_all add: ready_defs cong: option.case_cong)

lemma reconcileSecrets_ready:
  assumes "env_documented view env" and "finite (dom (mapGet (Passwords (Spec ds))))" and "reconcileSecrets env ds w = (Ret None, w')"
  shows "passwordsReady ds (view w')"
  unfolding passwordsReady_def using reconcileSecrets_fills [OF assms] by fastforce

lemma stays_then: "stays K view u v \<Longrightarrow> stays L view v w \<Longrightarrow> stays (K \<union> L) view u w"
  by (rule frame.R_trans) (auto elim: stays_mono)

lemma sameResource_key: "sameResource ds ds' \<Longrightarrow> objkey ds' = objkey ds \<and> Spec ds' = Spec ds"
  by (simp add: sameResource_def objkey_def)

text \<open>The five steps up to the service, in order, and the rest of the run, however it ends.\<close>

lemma steps_settle:
  assumes env: "env_documented view env" and fin: "finite (dom (mapGet (Passwords (Spec ds))))"
    and p: "reconcilePVC env ds w = (Ret None, w2)" and s: "reconcileSecrets env ds w2 = (Ret None, w3)"
    and sts: "reconcileSTS fl env ds (dsName ds) w3 = (Ret (None, ds1), w4)" and pr: "reconcileProxy env ds1 w4 = (Ret (None, ds2), w5)"
    and sv: "reconcileService env ds2 (dsName ds) w5 = (Ret (svc, None), w6)"
    and same: "sameResource ds ds1" "sameResource ds ds2"
  shows "settled ds (view w6)"
proof -
  have cong: "proxyReady ds1 = proxyReady ds" "serviceReady ds2 = serviceReady ds"
    using ready_cong sameResource_key [OF same(1)] sameResource_key [OF same(2)] by blast+
  have k: "dsNamespace ds2 = dsNamespace ds" using same by (simp add: sameResource_def)
  have a3: "stays (range (Pair KSecret)) view w2 w3" by (rule presD [OF reconcileSecrets_stays [OF env] s]) auto
  have a4: "stays (range (Pair KSts)) view w3 w4" by (rule presD [OF reconcileSTS_stays [OF env] sts]) auto
  have a5: "stays (range (Pair KDep)) view w4 w5" by (rule presD [OF reconcileProxy_stays [OF env] pr]) auto
  have a6: "stays (range (Pair KSvc)) view w5 w6" by (rule presD [OF reconcileService_stays [OF env] sv]) auto
  note b4 = stays_then [OF a5 a6]
  note b3 = stays_then [OF a4 b4]
  note b2 = stays_then [OF a3 b3]
  have "volumesReady ds (view w6)" by (rule ready_stays(1) [OF b2 _ reconcilePVC_ready [OF env p]]) auto
  moreover have "passwordsReady ds (view w6)" by (rule ready_stays(2) [OF b3 _ reconcileSecrets_ready [OF env fin s]]) auto
  moreover have "setReady ds (view w4)" using reconcileSTS_success [OF env sts] by (auto simp: setReady_def objkey_def)
  then have "setReady ds (view w6)" by (rule ready_stays(3) [OF b4, rotated]) auto
  moreover have "proxyReady ds (view w5)" using reconcileProxy_ready [OF env pr] cong(1) by simp
  then have "proxyReady ds (view w6)" by (rule ready_stays(4) [OF a6, rotated]) auto
  moreover have "serviceReady ds (view w6)" using reconcileService_success [OF env sv] k by (simp add: serviceReady_def)
  ultimately show ?thesis by (simp add: settled_def)
qed

lemma snapshotStage_settled:
  assumes env: "env_documented view env" and "sameResource ds ds2" and "settled ds (view w)"
    and run: "snapshotStage fl env ds2 svc w = (r, w')"
  shows "settled ds (view w')"
proof -
  have "stays (leftToDo ds) view w w'"
    by (rule presD [OF snapshotStage_stays [OF env] run])
      (use assms(2) in \<open>auto simp: leftToDo_def sameResource_def objkey_def\<close>)
  with assms(3) show ?thesis by (rule settled_stays)
qed

lemma reconcileBody_settles:
  assumes env: "env_documented view env" and fin: "finite (dom (mapGet (Passwords (Spec ds))))"
    and run: "reconcileBody fl env ds w = (Ret (res, None), w')"
  shows "settled ds (view w')"
proof -
  obtain ds1 ds2 svc w2 w3 w4 w5 w6 where steps: "reconcilePVC env ds w = (Ret None, w2)" "reconcileSecrets env ds w2 = (Ret None, w3)"
    "reconcileSTS fl env ds (dsName ds) w3 = (Ret (None, ds1), w4)" "reconcileProxy env ds1 w4 = (Ret (None, ds2), w5)"
    "reconcileService env ds2 (dsName ds) w5 = (Ret (svc, None), w6)" and sn: "snapshotStage fl env ds2 svc w6 = (Ret (res, None), w')"
    and same: "sameResource ds ds1" "sameResource ds ds2"
    using env run by (rule reconcileBody_stepsE)
  from snapshotStage_settled [OF env same(2) steps_settle [OF env fin steps same] sn] show ?thesis .
qed

section \<open>The stored specification\<close>

text \<open>The operator writes the resource back, but never changes what the user asked for.\<close>

definition specHeld :: "('w \<Rightarrow> store) \<Rightarrow> directoryService \<Rightarrow> 'w \<Rightarrow> bool" where
  "specHeld view ds w \<longleftrightarrow> (\<exists>d. directoryservices (view w) (objkey ds) = Some d \<and> Spec d = Spec ds)"

abbreviation keepsSpec :: "('w \<Rightarrow> store) \<Rightarrow> directoryService \<Rightarrow> ('w, 'a) M \<Rightarrow> bool" where
  "keepsSpec view ds \<equiv> pres (\<lambda>w w'. specHeld view ds w \<longrightarrow> specHeld view ds w')"

lemma keepsSpec_stays:
  assumes "pres (stays K view) m" and "(KDs, objkey ds) \<notin> K"
  shows "keepsSpec view ds m"
  by (rule pres_mono [OF assms(1)]) (simp add: specHeld_def dsK.stays_at [OF _ assms(2)])

lemma keepsSpec_bindM:
  assumes "keepsSpec view ds m" and "\<And>x w w1. specHeld view ds w \<Longrightarrow> m w = (Ret x, w1) \<Longrightarrow> keepsSpec view ds (f x)"
  shows "keepsSpec view ds (bindM m f)"
proof (rule presI, rule impI)
  fix w r w'
  assume run: "bindM m f w = (r, w')" and h: "specHeld view ds w"
  obtain r1 w1 where m: "m w = (r1, w1)" by (cases "m w")
  have h1: "specHeld view ds w1" using presD [OF assms(1) m] h by blast
  show "specHeld view ds w'"
  proof (cases r1)
    case (Ret x)
    with run m have "f x w1 = (r, w')" by (simp add: bindM_def)
    with presD [OF assms(2) [OF h m [unfolded Ret]]] h1 show ?thesis by blast
  next
    case (Panic p)
    with run m h1 show ?thesis by (simp add: bindM_def)
  qed
qed

lemma kUpdate_spec:
  assumes env: "env_documented view env" and run: "kUpdate (dsClient env) ds1 w = (r, w')" and k: "objkey ds1 = objkey ds" "Spec ds1 = Spec ds"
  shows "specHeld view ds w \<Longrightarrow> specHeld view ds w'" and "r = Inr y \<Longrightarrow> objkey y = objkey ds \<and> Spec y = Spec ds"
proof -
  from env_clients(8) [OF env]
  have "write_documented dsAcc directoryservices (\<lambda>m s. s\<lparr>directoryservices := m\<rparr>) view (kUpdate (dsClient env))"
    unfolding client_documented_def by blast
  with run k show "specHeld view ds w \<Longrightarrow> specHeld view ds w'" and "r = Inr y \<Longrightarrow> objkey y = objkey ds \<and> Spec y = Spec ds"
    unfolding write_documented_def specHeld_def by (fastforce simp: dsAcc_def)+
qed

lemma statusUpdateDS_spec:
  assumes env: "env_documented view env" and run: "statusUpdateDS env ds1 w = (r, w')" and k: "objkey ds1 = objkey ds"
    and h: "specHeld view ds w"
  shows "specHeld view ds w'" and "r = Ret (None, ds2) \<Longrightarrow> objkey ds2 = objkey ds \<and> Spec ds2 = Spec ds"
proof -
  obtain q w1 where q: "kStatusUpdate (dsClient env) ds1 w = (q, w1)" by (cases "kStatusUpdate (dsClient env) ds1 w")
  with run have r: "w1 = w'" "r = Ret (case q of Inl e \<Rightarrow> (Some e, ds1) | Inr y \<Rightarrow> (None, y))"
    by (auto simp: statusUpdateDS_def bindM_def callM_def ret_def split: sum.splits)
  from env_clients(8) [OF env]
  have "write_documented dsAccS directoryservices (\<lambda>m s. s\<lparr>directoryservices := m\<rparr>) view (kStatusUpdate (dsClient env))"
    unfolding client_documented_def by blast
  with q r k h show "specHeld view ds w'" and "r = Ret (None, ds2) \<Longrightarrow> objkey ds2 = objkey ds \<and> Spec ds2 = Spec ds"
    unfolding write_documented_def specHeld_def by (fastforce simp: dsAccS_def split: sum.splits)+
qed

lemma statusUpdateDS_keepsSpec:
  "env_documented view env \<Longrightarrow> objkey ds1 = objkey ds \<Longrightarrow> keepsSpec view ds (statusUpdateDS env ds1)"
  by (rule presI) (blast intro: statusUpdateDS_spec(1))

lemma env_runtime_keepsSpec:
  assumes "env_documented view env"
  shows "keepsSpec view ds (callM (Now env))" "keepsSpec view ds (callM (Event env a b))"
  by (rule keepsSpec_stays [where K = "{}"], rule env_runtime_stays [OF assms], simp)+

text \<open>The resource that the snapshot step hands on still has the specification.\<close>

lemma reconcileSnapshots_spec:
  assumes env: "env_documented view env" and run: "reconcileSnapshots env ds w = (Ret (None, ds'), w')" and h: "specHeld view ds w"
  shows "objkey ds' = objkey ds \<and> Spec ds' = Spec ds"
proof -
  obtain now w0 where now: "Now env w = (now, w0)" by (cases "Now env w")
  then have now': "callM (Now env) w = (Ret now, w0)" by (simp add: callM_def)
  have h0: "specHeld view ds w0" using presD [OF env_runtime_keepsSpec(1) [OF env] now'] h by blast
  show ?thesis
  proof (cases "snapshotDue env ds w")
    case False
    with run now statusUpdateDS_spec(2) [OF env _ _ h0, of "setLastSnapshot ds now"] show ?thesis
      by (auto simp: reconcileSnapshots_def snapshotDue_def bindM_def callM_def ret_def split: if_splits)
  next
    case True
    then show ?thesis
    proof (rule reconcileSnapshots_dueE [OF _ run])
      fix now1 u0 err snap x w1 w2 w3 items w4
      assume steps: "Now env w = (now1, u0)"
        "kCreateOrUpdate (snapClient env) (newSnapshot (dsNamespace ds) (dsName ds @ ''-'' @ formatInt (sint now1))) ()
           (snapshotMutate (newVolumeSnapshot ds now1)) u0 = (Ret (err, snap, x), w1)"
        "callM (Event env ''Created Snapshot'' (Name (ObjectMeta snap))) w1 = (Ret (), w2)"
        "statusUpdateDS env (setLastSnapshot ds now1) w2 = (Ret (None, ds'), w3)"
      have "keepsSpec view ds (kCreateOrUpdate (snapClient env) (newSnapshot (dsNamespace ds) (dsName ds @ ''-'' @ formatInt (sint now1))) ()
           (snapshotMutate (newVolumeSnapshot ds now1)))"
        by (rule keepsSpec_stays [where K = "range (Pair KSnap)"])
          (auto intro!: snapK.cou_stays [OF env_clients(6) [OF env]] snapshotMutate_quiet)
      from presD [OF this steps(2)] h0 now steps(1) have "specHeld view ds w1" by simp
      with presD [OF env_runtime_keepsSpec(2) [OF env] steps(3)] have "specHeld view ds w2" by blast
      from statusUpdateDS_spec(2) [OF env steps(4) _ this] show ?thesis by simp
    qed
  qed
qed

lemma reconcileSnapshots_keepsSpec:
  assumes env: "env_documented view env"
  shows "keepsSpec view ds (reconcileSnapshots env ds)"
proof -
  have prune: "keepsSpec view ds (bindM (getSnapshotList env ds1) (\<lambda>r. case r of Inl e \<Rightarrow> ret (Some e, ds1)
      | Inr items \<Rightarrow> bindM (pruneSnapshots env n items) (\<lambda>_. ret (None, ds1))))" for ds1 n
    by (rule keepsSpec_stays [where K = "range (Pair KSnap)"])
      (auto intro!: frame.pres_bindM frame.pres_ret getSnapshotList_quiet [OF env] pruneSnapshots_stays [OF env] split: sum.splits)
  have snap: "keepsSpec view ds (kCreateOrUpdate (snapClient env) x () (snapshotMutate s))" for x s
    by (rule keepsSpec_stays [where K = "range (Pair KSnap)"])
      (auto intro!: snapK.cou_stays [OF env_clients(6) [OF env]] snapshotMutate_quiet)
  show ?thesis
    unfolding reconcileSnapshots_def Let_def
    by (auto intro!: keeps.pres_bindM keeps.pres_ret env_runtime_keepsSpec [OF env] statusUpdateDS_keepsSpec [OF env] snap prune
        split: option.splits)
qed

lemma updateResource_keepsSpec:
  assumes env: "env_documented view env" and k: "objkey ds1 = objkey ds" "Spec ds1 = Spec ds"
  shows "keepsSpec view ds (updateResource env ds1 c)"
proof -
  have upd: "keepsSpec view ds (bindM (callM (kUpdate (dsClient env) ds2)) (\<lambda>r.
      case r of Inl e \<Rightarrow> ret (noResult, Some e)
      | Inr ds \<Rightarrow> bindM (statusUpdateDS env ds) (\<lambda>(err, ds).
          case err of Some e \<Rightarrow> ret (noResult, Some e) | None \<Rightarrow> ret (requeue, None))))" if "objkey ds2 = objkey ds" "Spec ds2 = Spec ds" for ds2
  proof (rule keepsSpec_bindM)
    show "keepsSpec view ds (callM (kUpdate (dsClient env) ds2))"
      by (rule presI) (auto simp: callM_def intro: kUpdate_spec(1) [OF env _ that] split: prod.splits)
    fix r w w1
    assume "callM (kUpdate (dsClient env) ds2) w = (Ret r, w1)"
    then have "objkey y = objkey ds" if "r = Inr y" for y
      using that kUpdate_spec(2) [OF env _ \<open>objkey ds2 = objkey ds\<close> \<open>Spec ds2 = Spec ds\<close>, of w r w1] by (simp add: callM_eq_Ret)
    then show "keepsSpec view ds (case r of Inl e \<Rightarrow> ret (noResult, Some e)
      | Inr ds \<Rightarrow> bindM (statusUpdateDS env ds) (\<lambda>(err, ds).
          case err of Some e \<Rightarrow> ret (noResult, Some e) | None \<Rightarrow> ret (requeue, None)))"
      by (auto intro!: keeps.pres_bindM keeps.pres_ret statusUpdateDS_keepsSpec [OF env] split: sum.splits option.splits)
  qed
  show ?thesis
    unfolding updateResource_def
    by (rule keepsSpec_bindM [OF keepsSpec_stays [OF updatePasswords_quiet [OF env, of "{}"]]])
      (auto dest!: updatePasswords_Ret simp: k intro!: keeps.pres_ret upd split: option.splits)
qed

lemma snapshotStage_keepsSpec:
  assumes env: "env_documented view env"
  shows "keepsSpec view ds (snapshotStage fl env ds svc)"
proof -
  have ldap: "keepsSpec view ds (ldapStage fl env ds1 svc)" if "objkey ds1 = objkey ds" "Spec ds1 = Spec ds" for ds1
    unfolding ldapStage_def
    by (auto intro!: keeps.pres_bindM keeps.pres_ret keeps.pres_deferM keepsSpec_stays [OF getAdminLDAPConnection_quiet [OF env, of "{}"]]
        keepsSpec_stays [OF Close_stays [OF env, of "{}"]] updateResource_keepsSpec [OF env that] split: sum.splits)
  show ?thesis
    unfolding snapshotStage_def
    by (rule keepsSpec_bindM [OF reconcileSnapshots_keepsSpec [OF env]])
      (auto dest: reconcileSnapshots_spec [OF env] intro!: keeps.pres_ret ldap split: option.splits)
qed

lemma specHeld_cong: "objkey ds' = objkey ds \<Longrightarrow> Spec ds' = Spec ds \<Longrightarrow> specHeld view ds' = specHeld view ds"
  by (simp add: specHeld_def fun_eq_iff)

lemma serviceStage_keepsSpec:
  assumes env: "env_documented view env"
  shows "keepsSpec view ds (serviceStage fl env ds n)"
proof -
  have "keepsSpec view ds (reconcileService env ds n)"
    by (rule keepsSpec_stays [OF reconcileService_stays [OF env, where K = "range (Pair KSvc)"]]) auto
  then show ?thesis
    unfolding serviceStage_def
    by (auto intro!: keeps.pres_bindM keeps.pres_ret snapshotStage_keepsSpec [OF env] split: option.splits)
qed

lemma proxyStage_keepsSpec:
  assumes env: "env_documented view env"
  shows "keepsSpec view ds (proxyStage fl env ds n)"
  unfolding proxyStage_def
proof (rule keepsSpec_bindM, goal_cases)
  case 1
  show ?case by (rule keepsSpec_stays [OF reconcileProxy_stays [OF env, where K = "range (Pair KDep)"]]) auto
next
  case (2 x w w1)
  obtain err ds1 where x: "x = (err, ds1)" by (cases x)
  have "specHeld view ds1 = specHeld view ds" if "err = None"
    using sameResource_key [OF reconcileProxy_same [OF env 2(2) [unfolded x that]]] by (intro specHeld_cong) simp_all
  with x serviceStage_keepsSpec [OF env, of ds1] show ?case by (auto intro!: keeps.pres_ret split: option.splits)
qed

lemma stsStage_keepsSpec:
  assumes env: "env_documented view env"
  shows "keepsSpec view ds (stsStage fl env ds n)"
  unfolding stsStage_def
proof (rule keepsSpec_bindM, goal_cases)
  case 1
  show ?case by (rule keepsSpec_stays [OF reconcileSTS_stays [OF env, where K = "range (Pair KSts)"]]) auto
next
  case (2 x w w1)
  obtain err ds1 where x: "x = (err, ds1)" by (cases x)
  have "specHeld view ds1 = specHeld view ds" if "err = None"
    using reconcileSTS_success [OF env 2(2) [unfolded x that]] by (intro specHeld_cong) (auto simp: objkey_def)
  with x proxyStage_keepsSpec [OF env, of ds1] show ?case by (auto intro!: keeps.pres_ret split: option.splits)
qed

lemma reconcileBody_keepsSpec:
  assumes env: "env_documented view env"
  shows "keepsSpec view ds (reconcileBody fl env ds)"
proof -
  have "keepsSpec view ds (reconcilePVC env ds)"
    by (rule keepsSpec_stays [OF reconcilePVC_stays [OF env, where K = "range (Pair KPvc)"]]) auto
  moreover have "keepsSpec view ds (reconcileSecrets env ds)"
    by (rule keepsSpec_stays [OF reconcileSecrets_stays [OF env, where K = "range (Pair KSecret)"]]) auto
  ultimately show ?thesis
    unfolding reconcileBody_def by (intro keeps.pres_checkM keeps.pres_ret stsStage_keepsSpec [OF env])
qed

lemma Reconcile_keepsSpec:
  assumes env: "env_documented view env" and run: "Reconcile fl env req w = (r, w')" and stored: "directoryservices (view w) req = Some ds"
  shows "\<exists>d. directoryservices (view w') req = Some d \<and> Spec d = Spec ds"
  using env run
proof (cases rule: Reconcile_cases)
  case (missing err w1)
  with stored show ?thesis by simp
next
  case (found ds1 w1)
  with stored have "ds1 = ds" "specHeld view ds w1" by (auto simp: specHeld_def)
  with presD [OF reconcileBody_keepsSpec [OF env] found(5)] found(3) show ?thesis by (simp add: specHeld_def)
qed

section \<open>Convergence\<close>

text \<open>
  Property C16. The operator never changes what the user asked for. Although every complete
  reconciliation writes the resource back, the stored resource keeps its specification and stays
  in the cluster, however the reconciliation ends and whatever the server does to a write that
  fails.
\<close>

theorem specification_kept:
  assumes "env_documented view env" and "Reconcile fl env req w = (r, w')" and "directoryservices (view w) req = Some ds"
  shows "\<exists>d. directoryservices (view w') req = Some d \<and> Spec d = Spec ds"
  by (rule Reconcile_keepsSpec [OF assms])

lemma Reconcile_success_settled:
  assumes env: "env_documented view env" and stored: "directoryservices (view w) req = Some ds"
    and fin: "finite (dom (mapGet (Passwords (Spec ds))))" and run: "Reconcile fl env req w = (Ret (res, None), w')"
  shows "settled ds (view w') \<and> objkey ds = req"
  using env run
proof (cases rule: Reconcile_cases)
  case (missing err w1)
  then show ?thesis using stored dsK.get_NotFound [OF env_clients(8) [OF env], of req w w1]
    by (auto simp: IgnoreNotFound_def split: if_splits)
next
  case (found ds1 w1)
  with stored have "ds1 = ds" "objkey ds = req" by simp_all
  with reconcileBody_settles [OF env fin] found(5) show ?thesis by simp
qed

text \<open>
  Property C3. A reconciliation that ends without an error has brought about what the resource
  describes: every replica has its volume claim, every account that asks for a generated password
  has one, the stateful set has the requested replicas and image, the headless service is there,
  and, when the proxy is enabled, so is its deployment with the requested replicas and image. The
  image is that of the first container and the first init container.
\<close>

theorem reconcile_settles:
  assumes env: "env_documented view env" and stored: "directoryservices (view w) req = Some ds"
    and fin: "finite (dom (mapGet (Passwords (Spec ds))))" and run: "Reconcile fl env req w = (Ret (res, None), w')"
  shows "settled ds (view w')"
  using Reconcile_success_settled [OF assms] ..

text \<open>One more reconciliation of a settled cluster.\<close>

lemma Reconcile_settled:
  assumes env: "env_documented view env" and req: "objkey ds = req" and h: "specHeld view ds w" and s: "settled ds (view w)"
    and run: "Reconcile fl env req w = (r, w')"
  shows "stays (leftToDo ds) view w w' \<and> specHeld view ds w' \<and> settled ds (view w')"
proof -
  from h req obtain d where d: "directoryservices (view w) req = Some d" "Spec d = Spec ds" by (auto simp: specHeld_def)
  have st: "stays (leftToDo ds) view w w'"
    using env run
  proof (cases rule: Reconcile_cases)
    case (missing err w1)
    then show ?thesis by (simp add: stays_def same_except_refl)
  next
    case (found ds1 w1)
    with d have ds1: "objkey ds1 = objkey ds" "Spec ds1 = Spec ds" by (simp_all add: req)
    from presD [OF reconcileBody_still [OF env] found(5)] have "heldStill ds view w1 w'" by (simp add: heldStill_cong [OF ds1])
    with s found(4) show ?thesis by (simp add: heldStill_def stays_def)
  qed
  with settled_stays [OF s st] Reconcile_keepsSpec [OF env run d(1)] d(2) req show ?thesis by (auto simp: specHeld_def)
qed

text \<open>
  Property C4. Reconciling is idempotent. Once a reconciliation has ended without an error, however
  often the framework repeats it, and however the repetitions end, nothing more changes than the
  resource itself, which keeps its specification, snapshots in its namespace, and, when the proxy is
  switched off, its deployment; the cluster stays as the resource describes it.
\<close>

theorem reconcile_idempotent:
  assumes env: "env_documented view env" and stored: "directoryservices (view w) req = Some ds"
    and fin: "finite (dom (mapGet (Passwords (Spec ds))))" and run: "Reconcile fl env req w = (Ret (res, None), w1)"
    and again: "(\<lambda>u v. \<exists>r. Reconcile fl env req u = (r, v))\<^sup>*\<^sup>* w1 w2"
  shows "same_except (leftToDo ds) (view w1) (view w2) \<and> settled ds (view w2) \<and>
    (\<exists>d. directoryservices (view w2) req = Some d \<and> Spec d = Spec ds)"
proof -
  have s: "settled ds (view w1)" and req: "objkey ds = req" using Reconcile_success_settled [OF env stored fin run] by simp_all
  have h: "specHeld view ds w1" using Reconcile_keepsSpec [OF env run stored] req by (simp add: specHeld_def)
  from again have "stays (leftToDo ds) view w1 w2 \<and> specHeld view ds w2 \<and> settled ds (view w2)"
  proof (induction rule: rtranclp_induct)
    case base
    show ?case using s h by (simp add: frame.R_refl)
  next
    case (step u v)
    then show ?case using Reconcile_settled [OF env req, of u] frame.R_trans [of "leftToDo ds" view w1 u v] by blast
  qed
  then show ?thesis using req by (simp add: stays_def specHeld_def)
qed

section \<open>Sample runs\<close>

lemma quiet_finite: "finite (dom (mapGet (Passwords (Spec quietDS))))"
  by (simp add: quiet_fields)

theorem specification_kept_witness:
  "\<exists>d. directoryservices (memView (snd (Reconcile plainFlags memEnv (''prod'', ''idrepo'') quietWorld))) (''prod'', ''idrepo'') = Some d \<and>
     Spec d = Spec quietDS"
  using specification_kept [OF memEnv_documented surjective_pairing quiet_stored] .

theorem reconcile_settles_witness:
  "\<exists>w'. Reconcile plainFlags memEnv (''prod'', ''idrepo'') quietWorld = (Ret (requeue, None), w') \<and> settled quietDS (memView w')"
proof -
  obtain w' where run: "Reconcile plainFlags memEnv (''prod'', ''idrepo'') quietWorld = (Ret (requeue, None), w')"
    using quiet_run by blast
  from reconcile_settles [OF memEnv_documented quiet_stored quiet_finite run] run show ?thesis by blast
qed

theorem reconcile_idempotent_witness:
  "\<exists>w1. Reconcile plainFlags memEnv (''prod'', ''idrepo'') quietWorld = (Ret (requeue, None), w1) \<and>
     same_except (leftToDo quietDS) (memView w1) (memView (snd (Reconcile plainFlags memEnv (''prod'', ''idrepo'') w1)))"
proof -
  obtain w1 where run: "Reconcile plainFlags memEnv (''prod'', ''idrepo'') quietWorld = (Ret (requeue, None), w1)"
    using quiet_run by blast
  let ?R = "\<lambda>u v. \<exists>r. Reconcile plainFlags memEnv (''prod'', ''idrepo'') u = (r, v)"
  have "?R w1 (snd (Reconcile plainFlags memEnv (''prod'', ''idrepo'') w1))"
    by (rule exI [of _ "fst (Reconcile plainFlags memEnv (''prod'', ''idrepo'') w1)"]) simp
  then have "?R\<^sup>*\<^sup>* w1 (snd (Reconcile plainFlags memEnv (''prod'', ''idrepo'') w1))" by (rule r_into_rtranclp)
  from reconcile_idempotent [OF memEnv_documented quiet_stored quiet_finite run this] run show ?thesis by blast
qed

end
