(* ===== verification/Liveness.thy ===== *)
theory Liveness
  imports Restores
begin

text \<open>
  What the backup and restore controllers achieve while the API server answers: a backup is set up
  by one reconciliation, and every reconciliation of a restore takes it to its next phase. When the
  server refuses only the snapshot at the end of a restore, the controller does not notice.
\<close>

section \<open>A server that answers\<close>

text \<open>
  No request fails: an object that is there can be read and written, one that is not is reported as
  not found and can be created.
\<close>

definition answers ::
  "('w \<Rightarrow> store) \<Rightarrow> (store \<Rightarrow> nsname \<rightharpoonup> 'x k8sobj_scheme) \<Rightarrow> ('w, 'x k8sobj_scheme, 'l) kclient \<Rightarrow> bool" where
  "answers view sel kc \<longleftrightarrow>
     (\<forall>k w. fst (kGet kc k w) = (case sel (view w) k of None \<Rightarrow> Inl NotFound | Some x \<Rightarrow> Inr x)) \<and>
     (\<forall>x w. sel (view w) (objkey x) = None \<longrightarrow> (\<exists>y. fst (kCreate kc x w) = Inr y)) \<and>
     (\<forall>x w. sel (view w) (objkey x) \<noteq> None \<longrightarrow>
        (\<exists>y. fst (kUpdate kc x w) = Inr y) \<and> (\<exists>y. fst (kStatusUpdate kc x w) = Inr y))"

text \<open>An owner reference can always be added, a controller to an object that has no owner.\<close>

definition refs_answer :: "'w env \<Rightarrow> bool" where
  "refs_answer env \<longleftrightarrow>
     (\<forall>kd owner m. fst (SetOwnerReference env kd owner m) = None) \<and>
     (\<forall>kd owner m. OwnerReferences m = [] \<longrightarrow> fst (SetControllerReference env kd owner m) = None)"

definition job_api_answers :: "('w \<Rightarrow> store) \<Rightarrow> 'w env \<Rightarrow> bool" where
  "job_api_answers view env \<longleftrightarrow>
     answers view pvcs (pvcClient env) \<and> answers view jobs (jobClient env) \<and>
     answers view directorybackups (dbClient env) \<and> answers view directoryrestores (drClient env) \<and> refs_answer env"

context kind_store
begin

lemma get_answers:
  "answers view sel kc \<Longrightarrow> kGet kc k w = (r, w') \<Longrightarrow> r = (case sel (view w) k of None \<Rightarrow> Inl NotFound | Some x \<Rightarrow> Inr x)"
  unfolding answers_def by (metis fst_conv)

text \<open>\<open>CreateOrUpdate\<close> succeeds if the callback does, on the new and on the stored object.\<close>

lemma cou_answers:
  assumes kc: "client_documented acc accS sel upd view kc" and an: "answers view sel kc"
    and quiet: "\<And>y m. pres (stays {} view) (f y m)"
    and ok: "\<And>y w1. y = x \<and> sel (view w) (objkey x) = None \<or> sel (view w) (objkey x) = Some y \<and> created y \<and> objkey y = objkey x \<Longrightarrow>
      \<exists>z l' w2. f y l w1 = (Ret (None, z, l'), w2) \<and> objkey z = objkey x"
  shows "\<exists>z l' w'. kCreateOrUpdate kc x l f w = (Ret (None, z, l'), w')"
proof -
  from kc have cou: "kCreateOrUpdate kc x l f = couSpec kc x l f" unfolding client_documented_def by blast
  obtain g w1 where get: "kGet kc (objkey x) w = (g, w1)" by (cases "kGet kc (objkey x) w")
  note g = get_answers [OF an get] and v1 = get_view [OF kc get]
  show ?thesis
  proof (cases "sel (view w) (objkey x)")
    case None
    with ok [of x w1] obtain z l' w2 where f: "f x l w1 = (Ret (None, z, l'), w2)" "objkey z = objkey x" by blast
    from presD [OF quiet f(1)] v1 None f(2) have "sel (view w2) (objkey z) = None" by (simp add: stays_empty)
    with an obtain y where "fst (kCreate kc z w2) = Inr y" unfolding answers_def by blast
    with None g get f show ?thesis
      by (cases "kCreate kc z w2") (simp add: cou couSpec_def couFinish_def bindM_def callM_def ret_def)
  next
    case (Some cur)
    with g have g': "g = Inr cur" by simp
    from get_Inr [OF kc get [unfolded g']] have "sel (view w) (objkey x) = Some cur \<and> created cur \<and> objkey cur = objkey x" by blast
    with ok [of cur w1] obtain z l' w2 where f: "f cur l w1 = (Ret (None, z, l'), w2)" "objkey z = objkey x" by blast
    from presD [OF quiet f(1)] v1 Some f(2) have "sel (view w2) (objkey z) \<noteq> None" by (simp add: stays_empty)
    with an obtain y where "fst (kUpdate kc z w2) = Inr y" unfolding answers_def by blast
    with g' get f show ?thesis
      by (cases "kUpdate kc z w2") (simp add: cou couSpec_def couFinish_def bindM_def callM_def ret_def)
  qed
qed

lemma cou_answers_any:
  assumes kc: "client_documented acc accS sel upd view kc" and an: "answers view sel kc"
    and quiet: "\<And>y m. pres (stays {} view) (f y m)"
    and ok: "\<And>y w1. \<exists>z l' w2. f y l w1 = (Ret (None, z, l'), w2) \<and> objkey z = objkey y"
  shows "\<exists>z l' w'. kCreateOrUpdate kc x l f w = (Ret (None, z, l'), w')"
proof (rule cou_answers [OF kc an quiet])
  fix y w1
  assume "y = x \<and> sel (view w) (objkey x) = None \<or> sel (view w) (objkey x) = Some y \<and> created y \<and> objkey y = objkey x"
  then have "objkey y = objkey x" by blast
  with ok [of y w1] show "\<exists>z l' w2. f y l w1 = (Ret (None, z, l'), w2) \<and> objkey z = objkey x" by simp
qed

lemma statusUpdate_answers:
  "answers view sel kc \<Longrightarrow> sel (view w) (objkey x) \<noteq> None \<Longrightarrow> \<exists>y w'. kStatusUpdate kc x w = (Inr y, w')"
  unfolding answers_def by (metis prod.collapse)

end

context create_only
begin

lemma create_answers:
  assumes kc: "client_documented acc accS sel upd view kc" and an: "answers view sel kc"
    and quiet: "\<And>y m. pres (stays {} view) (f y m)"
    and fresh: "\<And>w1. \<exists>z l' w2. f x l w1 = (Ret (None, z, l'), w2)" and k: "objkey x = k0"
  shows "\<exists>z l' w'. kCreateOrUpdate kc x l f w = (Ret (None, z, l'), w')"
proof (rule cou_answers [OF kc an quiet])
  fix y w1
  assume "y = x \<and> sel (view w) (objkey x) = None \<or> sel (view w) (objkey x) = Some y \<and> created y \<and> objkey y = objkey x"
  moreover obtain z l' w2 where z: "f x l w1 = (Ret (None, z, l'), w2)" using fresh [of w1] by blast
  moreover have "objkey z = objkey x" using f_key [OF _ k z] k by simp
  ultimately show "\<exists>z l' w2. f y l w1 = (Ret (None, z, l'), w2) \<and> objkey z = objkey x"
    using f_created [of y l w1] by auto
qed

end

section \<open>Jobs and status\<close>

lemma job_answers:
  assumes "job_api_answers view env"
  shows "answers view pvcs (pvcClient env)" "answers view jobs (jobClient env)" "answers view directorybackups (dbClient env)"
    "answers view directoryrestores (drClient env)" "\<exists>refs. SetOwnerReference env kd owner m = (None, refs)"
    "OwnerReferences m = [] \<Longrightarrow> \<exists>refs. SetControllerReference env kd owner m = (None, refs)"
  using assms unfolding job_api_answers_def refs_answer_def by (auto simp: prod_eq_iff)

lemma createDSJob_answers:
  assumes env: "env_documented view env" and api: "job_api_answers view env"
  shows "\<exists>j p' w'. createDSJob fl env p b t args kd owner knd w = (Ret (None, j, p'), w')"
proof -
  let ?x = "newJob (Namespace owner) (Name owner)" and ?pod = "jobPodSpec fl (Namespace owner) p b t args"
  have "\<exists>z l' w2. jobMutate env ?pod kd owner knd ?x p w1 = (Ret (None, z, l'), w2)" for w1
    using job_answers(5) [OF api, of kd owner "(ObjectMeta ?x)\<lparr>Labels := Some (createLabels (Name (ObjectMeta ?x)) knd None)\<rparr>"]
    by (auto simp: jobMutate_def isZero_def Let_def ret_def)
  from jobCallback.create_answers [OF env_clients(7) [OF env] job_answers(2) [OF api] jobMutate_quiet this refl, of w]
  show ?thesis by (simp add: createDSJob_def)
qed

lemma fetchJob_answers:
  assumes env: "env_documented view env" and api: "job_api_answers view env"
  shows "\<exists>w'. fetchJob env req w = (Ret (Inr (storedJob (view w) req)), w') \<and> view w' = view w"
proof -
  obtain g w1 where g: "kGet (jobClient env) req w = (g, w1)" by (cases "kGet (jobClient env) req w")
  from jobK.get_answers [OF job_answers(2) [OF api] g] jobK.get_view [OF env_clients(7) [OF env] g] g show ?thesis
    by (auto simp: fetchJob_def bindM_def callM_def ret_def storedJob_def IgnoreNotFound_def split: option.splits)
qed

section \<open>Backups\<close>

lemma ownedByBackup_answers:
  assumes "job_api_answers view env"
  shows "fst (ownedByBackup env db x) = None"
  using job_answers(5) [OF assms, of KDb "ObjectMeta db" "ObjectMeta x"] by (auto simp: ownedByBackup_def)

lemma backup_callbacks_answer:
  assumes api: "job_api_answers view env"
  shows "\<exists>z l' w2. backupPvcMutate db p l w1 = (Ret (None, z, l'), w2)"
    and "\<exists>z l' w2. backupSnapMutate env db y l w1 = (Ret (None, z, l'), w2) \<and> objkey z = objkey y"
    and "\<exists>z l' w2. backupDataMutate env db n p l w1 = (Ret (None, z, l'), w2) \<and> objkey z = objkey p"
proof -
  show "\<exists>z l' w2. backupPvcMutate db p l w1 = (Ret (None, z, l'), w2)"
    by (simp add: backupPvcMutate_def ret_def)
  show "\<exists>z l' w2. backupSnapMutate env db y l w1 = (Ret (None, z, l'), w2) \<and> objkey z = objkey y"
    unfolding backupSnapMutate_def Let_def
    by (simp add: case_prod_unfold ret_def ownedByBackup_answers [OF api]) (simp add: objkey_def)
  show "\<exists>z l' w2. backupDataMutate env db n p l w1 = (Ret (None, z, l'), w2) \<and> objkey z = objkey p"
    unfolding backupDataMutate_def Let_def
    by (simp add: case_prod_unfold ret_def ownedByBackup_answers [OF api]) (simp add: objkey_def)
qed

lemma backupObjects_answers:
  assumes env: "env_documented view env" and api: "job_api_answers view env" and snap: "answers view snapshots (snapClient env)"
  shows "\<exists>w'. backupObjects fl env db w = (Ret (noResult, None), w')"
proof -
  note cb = backup_callbacks_answer [OF api]
  let ?k = "tempName (dbName db)"
  obtain p l w1 where p: "kCreateOrUpdate (pvcClient env) (newPVC (dbNamespace db) (dbName db)) () (backupPvcMutate db) w = (Ret (None, p, l), w1)"
    using backupPvcCallback.create_answers [OF env_clients(1) [OF env] job_answers(1) [OF api] backup_quiet(1) cb(1) refl] by blast
  have "\<exists>z l' w2. kCreateOrUpdate (snapClient env) (newSnapshot (dbNamespace db) ?k) () (backupSnapMutate env db) w1 = (Ret (None, z, l'), w2)"
    by (rule snapK.cou_answers_any [OF env_clients(6) [OF env] snap backup_quiet(2) cb(2)])
  then obtain s m w2 where s: "kCreateOrUpdate (snapClient env) (newSnapshot (dbNamespace db) ?k) () (backupSnapMutate env db) w1 =
      (Ret (None, s, m), w2)" by blast
  let ?n = "Name (ObjectMeta s)"
  have "\<exists>z l' w'. kCreateOrUpdate (pvcClient env) (newPVC (Namespace (ObjectMeta s)) ?n) () (backupDataMutate env db ?n) w2 =
      (Ret (None, z, l'), w')"
    by (rule pvcK.cou_answers_any [OF env_clients(1) [OF env] job_answers(1) [OF api] backup_quiet(3) cb(3)])
  then obtain q n w3 where q: "kCreateOrUpdate (pvcClient env) (newPVC (Namespace (ObjectMeta s)) ?n) () (backupDataMutate env db ?n) w2 =
      (Ret (None, q, n), w3)" by blast
  obtain j r w' where "createDSJob fl env q (Name (ObjectMeta p)) (dbPodTemplate db) [''backup''] KDb (ObjectMeta db) (dbKind db) w3 = (Ret (None, j, r), w')"
    using createDSJob_answers [OF env api] by blast
  with p s q show ?thesis
    by (simp add: backupObjects_def backupSnapStage_def backupDataStage_def backupJobStage_def bindM_def ret_def)
qed

lemma ReconcileBackup_answers:
  assumes env: "env_documented view env" and api: "job_api_answers view env" and snap: "answers view snapshots (snapClient env)"
    and stored: "directorybackups (view w) req = Some db"
  shows "\<exists>w'. ReconcileBackup fl env req w = (Ret (noResult, None), w')"
proof -
  obtain g w1 where g: "kGet (dbClient env) req w = (g, w1)" by (cases "kGet (dbClient env) req w")
  from dbK.get_answers [OF job_answers(3) [OF api] g] stored have g': "g = Inr db" by simp
  note k = dbK.get_Inr [OF env_clients(9) [OF env] g [unfolded g']]
  have v1: "view w1 = view w" by (rule dbK.get_view [OF env_clients(9) [OF env] g])
  obtain w2 where f: "fetchJob env req w1 = (Ret (Inr (storedJob (view w1) req)), w2)" "view w2 = view w1"
    using fetchJob_answers [OF env api] by blast
  let ?db = "db\<lparr>dbStatus := recordJob (storedJob (view w1) req) (dbStatus db)\<rparr>"
  have "objkey ?db = req" using k by (simp add: objkey_def)
  then obtain db' w3 where "kStatusUpdate (dbClient env) ?db w2 = (Inr db', w3)"
    using dbK.statusUpdate_answers [OF job_answers(3) [OF api], of w2 ?db] stored v1 f(2) by auto
  then have "statusUpdateDB env ?db w2 = (Ret (None, db'), w3)" by (simp add: statusUpdateDB_def bindM_def callM_def ret_def)
  with g g' f backupObjects_answers [OF env api snap, of fl db' w3] show ?thesis
    by (auto simp: ReconcileBackup_def bindM_def callM_def)
qed

section \<open>Restores\<close>

lemma statusUpdateDR_answers:
  assumes "job_api_answers view env" and "directoryrestores (view w) (objkey dr) \<noteq> None"
  shows "\<exists>y w'. statusUpdateDR env dr w = (Ret (None, y), w')"
proof -
  obtain y w' where "kStatusUpdate (drClient env) dr w = (Inr y, w')"
    using drK.statusUpdate_answers [OF job_answers(4) [OF assms(1)] assms(2)] by blast
  then show ?thesis by (simp add: statusUpdateDR_def bindM_def callM_def ret_def)
qed

lemma restore_callbacks_answer:
  assumes api: "job_api_answers view env"
  shows "\<exists>z l' w2. restorePvcMutate env dr (newPVC ns n) l w1 = (Ret (None, z, l'), w2)"
    and "\<exists>z l' w2. restoreSnapMutate env dr y m w1 = (Ret (None, z, l'), w2)"
proof -
  let ?x = "newPVC ns n"
  let ?m = "(ObjectMeta ?x)\<lparr>Labels := Some (createLabels (Name (ObjectMeta ?x)) (drKind dr) None), Annotations := Some pvcAnnotations\<rparr>"
  have "\<exists>refs. SetControllerReference env KDr (ObjectMeta dr) ?m = (None, refs)"
    by (rule job_answers(6) [OF api]) simp
  then show "\<exists>z l' w2. restorePvcMutate env dr ?x l w1 = (Ret (None, z, l'), w2)"
    by (auto simp: restorePvcMutate_def Let_def ret_def isZero_def)
  show "\<exists>z l' w2. restoreSnapMutate env dr y m w1 = (Ret (None, z, l'), w2)"
    using job_answers(5) [OF api, of KDr "ObjectMeta dr"
        "(ObjectMeta y)\<lparr>Labels := Some (createLabels (drName dr) (drKind dr) None)\<rparr>"]
    by (auto simp: restoreSnapMutate_def Let_def ret_def)
qed

lemma restoreStatusStage_answers:
  assumes env: "env_documented view env" and api: "job_api_answers view env" and "directoryrestores (view w) (objkey dr) \<noteq> None"
  shows "\<exists>w'. restoreStatusStage fl env dr b w = (Ret (\<lparr>RequeueAfter = if b then 60 else 0\<rparr>, None), w')"
proof -
  obtain d w1 where st: "statusUpdateDR env dr w = (Ret (None, d), w1)" using statusUpdateDR_answers [OF api assms(3)] by blast
  obtain p l w2 where p: "kCreateOrUpdate (pvcClient env) (newPVC (drNamespace d) (tempName (drName d))) () (restorePvcMutate env d) w1 =
      (Ret (None, p, l), w2)"
    using restorePvcCallback.create_answers [OF env_clients(1) [OF env] job_answers(1) [OF api] restore_quiet(2)
        restore_callbacks_answer(1) [OF api] refl] by blast
  obtain j q w' where "createDSJob fl env p (SourcePVCName d) (drPodTemplate d) [''restore''] KDr (ObjectMeta d) (drKind d) w2 =
      (Ret (None, j, q), w')"
    using createDSJob_answers [OF env api] by blast
  with st p show ?thesis
    by (simp add: restoreStatusStage_def restoreObjects_def restoreJobStage_def bindM_def ret_def noResult_def)
qed

text \<open>The step on the job returns whatever the server does to the snapshot, unless the job failed.\<close>

lemma restoreProgress_returns:
  assumes env: "env_documented view env" and ok: "created j \<Longrightarrow> jobCompletionTime j \<noteq> None \<Longrightarrow> sint (jobFailed j) \<le> 0"
  shows "\<exists>dr' w'. restoreProgress env j dr w =
    (Ret (Inr (dr', \<not> (created j \<and> jobCompletionTime j \<noteq> None))), w')"
proof -
  obtain y w1 where y: "restoreProgress env j dr w = (Ret y, w1)" using noPanicD [OF restoreProgress_noPanic [OF env]] by blast
  have "\<exists>dr' b. y = Inr (dr', b)"
    using y ok by (auto simp: restoreProgress_def created_def Let_def bindM_eq_Ret ret_apply split: if_splits)
  with y restoreProgress_Inr [of env j dr w] show ?thesis by blast
qed

text \<open>While the server answers for everything but the snapshot, a reconciliation ends without an error.\<close>

lemma ReconcileRestore_answers:
  assumes env: "env_documented view env" and api: "job_api_answers view env" and stored: "directoryrestores (view w) req = Some dr"
    and ok: "\<And>j. jobs (view w) req = Some j \<Longrightarrow> jobCompletionTime j \<noteq> None \<Longrightarrow> sint (jobFailed j) \<le> 0"
    and run: "ReconcileRestore fl env req w = (r, w')"
  shows "r = Ret (\<lparr>RequeueAfter = if \<exists>j. jobs (view w) req = Some j \<and> jobCompletionTime j \<noteq> None then 0 else 60\<rparr>, None)"
proof -
  let ?j = "storedJob (view w) req"
  obtain g w1 where g: "kGet (drClient env) req w = (g, w1)" by (cases "kGet (drClient env) req w")
  from drK.get_answers [OF job_answers(4) [OF api] g] stored have g': "g = Inr dr" by simp
  note kc = env_clients(10) [OF env]
  have v1: "view w1 = view w" by (rule drK.get_view [OF kc g])
  have key: "objkey dr = req" using drK.get_Inr [OF kc g [unfolded g']] by blast
  obtain w2 where f: "fetchJob env req w1 = (Ret (Inr ?j), w2)" "view w2 = view w1"
    using fetchJob_answers [OF env api, of req w1] v1 by auto
  have c: "created ?j \<longleftrightarrow> jobs (view w) req \<noteq> None" using fetchJob_Inr [OF env f(1)] v1 by simp
  define b where "b \<longleftrightarrow> \<not> (created ?j \<and> jobCompletionTime ?j \<noteq> None)"
  obtain dr' w3 where p: "restoreProgress env ?j dr w2 = (Ret (Inr (dr', b)), w3)"
    using restoreProgress_returns [OF env, of ?j dr w2] ok c unfolding b_def by (auto simp: storedJob_def split: option.splits)
  have "directoryrestores (view w3) (objkey dr') \<noteq> None"
    using restoreProgress_effect [OF env p] restoreProgress_Inr [OF p] stored v1 f(2) key by auto
  then obtain u where "restoreStatusStage fl env dr' b w3 = (Ret (\<lparr>RequeueAfter = if b then 60 else 0\<rparr>, None), u)"
    using restoreStatusStage_answers [OF env api] by blast
  with g g' f p run have "r = Ret (\<lparr>RequeueAfter = if b then 60 else 0\<rparr>, None)"
    by (simp add: ReconcileRestore_def restoreJobSeen_def bindM_def callM_def)
  with c show ?thesis by (auto simp: b_def storedJob_def)
qed

text \<open>After a successful job the snapshot step decides about the snapshots.\<close>

lemma ReconcileRestore_takes:
  assumes env: "env_documented view env" and stored: "directoryrestores (view w) req = Some dr"
    and job: "jobs (view w) req = Some j" "jobSuccess j"
    and run: "ReconcileRestore fl env req w = (Ret (res, None), w')"
  obtains d w1 q w2 where "objkey d = req" "view w1 = view w" "takeRestoreSnapshot env d w1 = (q, w2)"
    "snapshots (view w') = snapshots (view w2)"
  using env run
proof (cases rule: ReconcileRestore_cases)
  case (stopped err)
  with stored show thesis by simp
next
  case (found dr1 w1)
  let ?d = "dr1\<lparr>drStatus := (drStatus dr1)\<lparr>StartTimestamp := Some (CreationTimestamp (ObjectMeta j)), CompletionTimestamp := jobCompletionTime j\<rparr>\<rparr>"
  have j: "storedJob (view w) req = j" "created j" using job(1) found(4) by (simp_all add: storedJob_def)
  with found(5) job(2) obtain q w2 where q: "takeRestoreSnapshot env ?d w1 = (Ret q, w2)"
    and st: "restoreStatusStage fl env ?d False w2 = (Ret (res, None), w')"
    by (auto simp: restoreJobSeen_def restoreProgress_def jobSuccess_def created_def Let_def bindM_eq_Ret ret_apply)
  have k: "objkey ?d = req" using found(2) by (simp add: objkey_def)
  have "snapshots (view w') = snapshots (view w2)"
    by (rule snapK.stays_kind [OF conjunct1 [OF restoreStatusStage_effect [OF env k st]]]) (auto simp: restoreMade_def)
  with k found(3) q show thesis by (rule that)
qed

lemma takeRestoreSnapshot_answers:
  assumes env: "env_documented view env" and api: "job_api_answers view env" and snap: "answers view snapshots (snapClient env)"
    and run: "takeRestoreSnapshot env dr w = (q, w')"
  shows "snapshots (view w') (drNamespace dr, tempName (drName dr)) \<noteq> None"
proof -
  let ?x = "newSnapshot (drNamespace dr) (tempName (drName dr))"
  obtain z l u where z: "kCreateOrUpdate (snapClient env) ?x () (restoreSnapMutate env dr) w = (Ret (None, z, l), u)"
    using restoreSnapCallback.create_answers [OF env_clients(6) [OF env] snap restore_quiet(1) restore_callbacks_answer(2) [OF api] refl]
    by blast
  with run have "u = w'" by (simp add: takeRestoreSnapshot_def bindM_def ret_def)
  with snapK.cou_present [OF env_clients(6) [OF env] restore_quiet(1) z] show ?thesis by simp
qed

text \<open>The phase a restore is in after a reconciliation.\<close>

fun nextPhase :: "restorePhase \<Rightarrow> restorePhase" where
  "nextPhase NotStarted = Running"
| "nextPhase Succeeded = Snapshotted"
| "nextPhase p = p"

text \<open>
  Property C11. A restore makes progress. While the API server answers, every reconciliation of a
  restore takes it to its next phase: one that is not started gets its job, one whose job has
  succeeded gets its snapshot, one whose job still runs or has failed stays where it is. Unless
  the job completed with failures the reconciliation ends without an error, asking to come back in
  60 seconds exactly while the job has not completed.
\<close>

theorem restore_advances:
  assumes env: "env_documented view env" and api: "job_api_answers view env" and snap: "answers view snapshots (snapClient env)"
    and stored: "directoryrestores (view w) req = Some dr" and run: "ReconcileRestore fl env req w = (r, w')"
  shows "restorePhaseOf req (view w') = nextPhase (restorePhaseOf req (view w)) \<and>
    ((\<exists>j. jobs (view w) req = Some j \<and> jobCompletionTime j \<noteq> None \<and> 0 < sint (jobFailed j)) \<or>
     r = Ret (\<lparr>RequeueAfter = if \<exists>j. jobs (view w) req = Some j \<and> jobCompletionTime j \<noteq> None then 0 else 60\<rparr>, None))"
proof
  show res: "(\<exists>j. jobs (view w) req = Some j \<and> jobCompletionTime j \<noteq> None \<and> 0 < sint (jobFailed j)) \<or>
     r = Ret (\<lparr>RequeueAfter = if \<exists>j. jobs (view w) req = Some j \<and> jobCompletionTime j \<noteq> None then 0 else 60\<rparr>, None)"
    using ReconcileRestore_answers [OF env api stored _ run] by (meson not_less)
  note e = ReconcileRestore_effect [OF env run]
  show "restorePhaseOf req (view w') = nextPhase (restorePhaseOf req (view w))"
  proof (cases "restorePhaseOf req (view w)")
    case NotStarted
    then have none: "jobs (view w) req = None" "snapshots (view w) (fst req, tempName (snd req)) = None"
      by (auto simp: restorePhaseOf_def split: if_splits option.splits)
    with res run obtain rs where "ReconcileRestore fl env req w = (Ret (rs, None), w')" by auto
    from ReconcileRestore_success [OF env stored this] obtain j where "jobs (view w') req = Some j" by blast
    with e none NotStarted show ?thesis by (auto simp: restorePhaseOf_def jobStarts_def snapshotTaken_def Let_def)
  next
    case Succeeded
    then obtain j where j: "jobs (view w) req = Some j" "jobSuccess j"
      by (auto simp: restorePhaseOf_def split: if_splits option.splits)
    with res run obtain rs where "ReconcileRestore fl env req w = (Ret (rs, None), w')" by (auto simp: jobSuccess_def)
    from env stored j this obtain d w1 q w2 where d: "objkey d = req" "takeRestoreSnapshot env d w1 = (q, w2)"
      "snapshots (view w') = snapshots (view w2)" by (rule ReconcileRestore_takes)
    from takeRestoreSnapshot_answers [OF env api snap d(2)] d(1,3) Succeeded show ?thesis
      by (auto simp: restorePhaseOf_def objkey_def)
  qed (use e in \<open>auto simp: restorePhaseOf_def jobStarts_def snapshotTaken_def jobSuccess_def Let_def split: if_splits option.splits\<close>)
qed

section \<open>A snapshot that is refused\<close>

definition refuses :: "('w \<Rightarrow> store) \<Rightarrow> ('w, 'o, 'l) kclient \<Rightarrow> bool" where
  "refuses view kc \<longleftrightarrow> (\<forall>x w. isl (fst (kCreate kc x w)) \<and> view (snd (kCreate kc x w)) = view w)"

context kind_store
begin

lemma cou_refused:
  assumes kc: "client_documented acc accS sel upd view kc" and rf: "refuses view kc"
    and quiet: "\<And>y m. pres (stays {} view) (f y m)" and none: "sel (view w) (objkey x) = None"
    and run: "kCreateOrUpdate kc x l f w = (r, w')"
  shows "view w' = view w"
proof -
  from kc have cou: "kCreateOrUpdate kc x l f = couSpec kc x l f" unfolding client_documented_def by blast
  obtain g w1 where get: "kGet kc (objkey x) w = (g, w1)" by (cases "kGet kc (objkey x) w")
  have v1: "view w1 = view w" by (rule get_view [OF kc get])
  obtain q w2 where f: "f x l w1 = (q, w2)" by (cases "f x l w1")
  have v2: "view w2 = view w" using presD [OF quiet f] v1 by (simp add: stays_empty)
  have "w' = w1 \<or> w' = w2 \<or> (\<exists>y. w' = snd (kCreate kc y w2))"
    using run get f get_Inr [OF kc, of "objkey x" w _ w1] none
    by (auto simp: cou couSpec_def couFinish_def bindM_def callM_def ret_def
        split: sum.splits result.splits if_splits prod.splits option.splits) (metis snd_conv)+
  with rf v1 v2 show ?thesis unfolding refuses_def by auto
qed

end

text \<open>
  Property C40. A restore loses its snapshot without anybody being told. If the server refuses to
  create the snapshot of a restore whose job succeeded, and answers everything else, the
  reconciliation ends without an error and without asking to be run again; the restore is recorded
  as complete, and there is no snapshot.
\<close>

theorem restore_snapshot_error_lost:
  assumes env: "env_documented view env" and api: "job_api_answers view env" and rf: "refuses view (snapClient env)"
    and stored: "directoryrestores (view w) req = Some dr" and job: "jobs (view w) req = Some j" "jobSuccess j"
    and none: "snapshots (view w) (fst req, ''temp-'' @ snd req) = None"
    and run: "ReconcileRestore fl env req w = (r, w')"
  shows "r = Ret (\<lparr>RequeueAfter = 0\<rparr>, None) \<and> snapshots (view w') = snapshots (view w) \<and>
    (\<exists>dr'. directoryrestores (view w') req = Some dr' \<and> CompletionTimestamp (drStatus dr') = jobCompletionTime j)"
proof -
  have r: "r = Ret (\<lparr>RequeueAfter = 0\<rparr>, None)"
    using ReconcileRestore_answers [OF env api stored _ run] job by (auto simp: jobSuccess_def)
  note run' = run [unfolded r]
  from env stored job run' obtain d w1 q w2 where d: "objkey d = req" "view w1 = view w" "takeRestoreSnapshot env d w1 = (q, w2)"
    "snapshots (view w') = snapshots (view w2)" by (rule ReconcileRestore_takes)
  let ?x = "newSnapshot (drNamespace d) (tempName (drName d))"
  obtain y where "kCreateOrUpdate (snapClient env) ?x () (restoreSnapMutate env d) w1 = (y, w2)"
    using d(3) by (cases "kCreateOrUpdate (snapClient env) ?x () (restoreSnapMutate env d) w1")
      (auto simp: takeRestoreSnapshot_def bindM_def ret_def split: result.splits)
  from snapK.cou_refused [OF env_clients(6) [OF env] rf restore_quiet(1) _ this] none d(1,2) have "view w2 = view w"
    by (auto simp: tempName_def objkey_def)
  moreover obtain dr' where "directoryrestores (view w') req = Some dr'" "drStatus dr' = recordJob (storedJob (view w) req) (drStatus dr)"
    using ReconcileRestore_success [OF env stored run'] by blast
  moreover have "created j"
    using env run' by (cases rule: ReconcileRestore_cases) (use stored job in \<open>auto simp: storedJob_def\<close>)
  ultimately show ?thesis
    using r d(4) job by (auto simp: recordJob_def storedJob_def jobSuccess_def created_def Let_def)
qed

text \<open>
  Property C30. A backup is set up in one go. While the API server answers, one reconciliation of a
  backup ends without an error, whatever was there before, and its job is in the cluster afterwards
  together with the claim to back up to, the snapshot of the claim to back up and the copy made
  from it.
\<close>

theorem backup_succeeds:
  assumes env: "env_documented view env" and api: "job_api_answers view env" and snap: "answers view snapshots (snapClient env)"
    and stored: "directorybackups (view w) req = Some db"
  shows "\<exists>w'. ReconcileBackup fl env req w = (Ret (\<lparr>RequeueAfter = 0\<rparr>, None), w') \<and> jobs (view w') req \<noteq> None \<and>
    pvcs (view w') req \<noteq> None \<and> snapshots (view w') (fst req, ''temp-'' @ snd req) \<noteq> None \<and>
    pvcs (view w') (fst req, ''temp-'' @ snd req) \<noteq> None"
proof -
  obtain w' where run: "ReconcileBackup fl env req w = (Ret (noResult, None), w')"
    using ReconcileBackup_answers [OF assms] by blast
  from ReconcileBackup_success [OF env stored run] run show ?thesis by (auto simp: Let_def noResult_def)
qed

section \<open>Sample runs\<close>

lemma memClient_answers:
  assumes "\<And>w. sel (view w) = lookupObj (get w)"
  shows "answers view sel (memClient get put mU mS)"
  unfolding answers_def by (auto simp: assms memClient_def memBase_def Let_def split: option.splits)

lemma memEnv_answers: "job_api_answers memView memEnv" "answers memView snapshots (snapClient memEnv)"
proof -
  show "answers memView snapshots (snapClient memEnv)"
    by (simp add: memEnv_def) (rule memClient_answers, simp add: memView_def)
  have "refs_answer memEnv" by (simp add: refs_answer_def memEnv_def memRef_def Let_def)
  moreover have "answers memView pvcs (pvcClient memEnv)" "answers memView jobs (jobClient memEnv)"
    "answers memView directorybackups (dbClient memEnv)" "answers memView directoryrestores (drClient memEnv)"
    by (auto simp: memEnv_def memView_def intro!: memClient_answers)
  ultimately show "job_api_answers memView memEnv" by (simp add: job_api_answers_def)
qed

theorem restore_advances_witness:
  "restorePhaseOf (''prod'', ''r1'') (memView (restoreWorld [finishedJob 0 1])) = Succeeded \<and>
   restorePhaseOf (''prod'', ''r1'')
     (memView (snd (ReconcileRestore plainFlags memEnv (''prod'', ''r1'') (restoreWorld [finishedJob 0 1])))) = Snapshotted"
proof -
  have "restorePhaseOf (''prod'', ''r1'') (memView (restoreWorld [finishedJob 0 1])) = Succeeded"
    by (simp add: restorePhaseOf_def restoreWorld_reads jobSuccess_def finishedJob_fields)
  with restore_advances [OF memEnv_documented memEnv_answers restoreWorld_reads(2) surjective_pairing, of plainFlags "[finishedJob 0 1]"]
  show ?thesis by simp
qed

text \<open>The in-memory cluster with an API server that creates no snapshots.\<close>

definition noSnapClient :: "(memw, volumeSnapshot, unit) kclient" where
  "noSnapClient = (let kc = (memBase mSnaps (\<lambda>xs w. w\<lparr>mSnaps := xs\<rparr>) keepStamp keepStamp)
       \<lparr>kCreate := \<lambda>x w. (Inl (Errorf ''snapshots are not supported''), w)\<rparr> in
     kc\<lparr>kCreateOrUpdate := couSpec kc\<rparr>)"

definition noSnapEnv :: "memw env" where
  "noSnapEnv = memEnv\<lparr>snapClient := noSnapClient\<rparr>"

lemma noSnapClient_ops:
  "kGet noSnapClient = kGet (snapClient memEnv)" "kUpdate noSnapClient = kUpdate (snapClient memEnv)"
  "kStatusUpdate noSnapClient = kStatusUpdate (snapClient memEnv)" "kDelete noSnapClient = kDelete (snapClient memEnv)"
  "kList noSnapClient = kList (snapClient memEnv)" "kCreate noSnapClient x w = (Inl (Errorf ''snapshots are not supported''), w)"
  "kCreateOrUpdate noSnapClient = couSpec noSnapClient"
  by (simp_all add: noSnapClient_def memEnv_def memClient_def Let_def fun_eq_iff)

lemma noSnapClient_documented:
  "client_documented snapAcc anyAcc snapshots (\<lambda>m s. s\<lparr>snapshots := m\<rparr>) memView noSnapClient"
proof -
  have "write_documented snapAcc snapshots (\<lambda>m s. s\<lparr>snapshots := m\<rparr>) memView (kCreate noSnapClient)"
    by (simp add: write_documented_def noSnapClient_ops)
  with env_clients(6) [OF memEnv_documented] show ?thesis
    by (simp add: client_documented_def get_documented_def delete_documented_def list_documented_def noSnapClient_ops)
qed

lemma noSnapEnv_documented: "env_documented memView noSnapEnv"
  using memEnv_documented noSnapClient_documented
  by (simp add: env_documented_def clients_documented_def runtime_documented_def refs_documented_def noSnapEnv_def)

lemma noSnapEnv_answers: "job_api_answers memView noSnapEnv" "refuses memView (snapClient noSnapEnv)"
  using memEnv_answers(1)
  by (simp_all add: job_api_answers_def refs_answer_def noSnapEnv_def refuses_def noSnapClient_ops)

theorem restore_snapshot_error_lost_witness:
  "\<exists>w' dr'. ReconcileRestore plainFlags noSnapEnv (''prod'', ''r1'') (restoreWorld [finishedJob 0 1]) = (Ret (\<lparr>RequeueAfter = 0\<rparr>, None), w') \<and>
     snapshots (memView w') = Map.empty \<and> directoryrestores (memView w') (''prod'', ''r1'') = Some dr' \<and>
     CompletionTimestamp (drStatus dr') = Some (Some 90)"
proof -
  let ?w = "restoreWorld [finishedJob 0 1]"
  obtain r w' where run: "ReconcileRestore plainFlags noSnapEnv (''prod'', ''r1'') ?w = (r, w')"
    by (cases "ReconcileRestore plainFlags noSnapEnv (''prod'', ''r1'') ?w")
  have j: "jobSuccess (finishedJob 0 1)" by (simp add: jobSuccess_def finishedJob_fields)
  have "snapshots (memView ?w) (fst (''prod'', ''r1''), ''temp-'' @ snd (''prod'', ''r1'')) = None" by (simp add: restoreWorld_reads)
  from restore_snapshot_error_lost [OF noSnapEnv_documented noSnapEnv_answers restoreWorld_reads(2,6) j this run] run
  show ?thesis by (auto simp: finishedJob_fields restoreWorld_reads)
qed

theorem backup_succeeds_witness:
  "\<exists>w'. ReconcileBackup plainFlags memEnv (''prod'', ''nightly'') backupWorld = (Ret (\<lparr>RequeueAfter = 0\<rparr>, None), w') \<and>
     jobs (memView w') (''prod'', ''nightly'') \<noteq> None"
proof -
  have "directorybackups (memView backupWorld) (''prod'', ''nightly'') = Some sampleDB"
    by (simp add: memView_def backupWorld_def lookupObj_Cons sampleDB_fields)
  from backup_succeeds [OF memEnv_documented memEnv_answers this, of plainFlags] show ?thesis by blast
qed

end
