(* ===== verification/Directory_Liveness.thy ===== *)
theory Directory_Liveness
  imports Convergence Liveness
begin

text \<open>
  What one reconciliation of a directory achieves while the API server answers: the cluster is as
  the resource describes it afterwards, even if the rest of the run (snapshots, the connection to
  the directory, passwords) fails or panics. And what a snapshot period that overflows does.
\<close>

section \<open>What has to be there\<close>

text \<open>
  The replica count is set (the webhook or the CRD default see to that), the secrets of accounts
  that ask for a password exist with data, and a stateful set or proxy deployment that is already
  there has containers; there is none of a proxy that is switched off.
\<close>

definition secretsUsable :: "directoryService \<Rightarrow> store \<Rightarrow> bool" where
  "secretsUsable ds s \<longleftrightarrow> (\<forall>dn a. mapGet (Passwords (Spec ds)) dn = Some a \<longrightarrow> Create a \<longrightarrow>
     (\<exists>x. secrets s (dsNamespace ds, SecretName a) = Some x \<and> Data x \<noteq> None))"

definition setUsable :: "directoryService \<Rightarrow> store \<Rightarrow> bool" where
  "setUsable ds s \<longleftrightarrow> (\<forall>x. statefulsets s (dsNamespace ds, dsName ds) = Some x \<longrightarrow>
     Containers (stsPod x) \<noteq> [] \<and> InitContainers (stsPod x) \<noteq> [])"

definition proxyUsable :: "directoryService \<Rightarrow> store \<Rightarrow> bool" where
  "proxyUsable ds s \<longleftrightarrow> (\<forall>d. deployments s (dsNamespace ds, proxyNameOf ds) = Some d \<longrightarrow>
     proxyEnabled (Proxy (Spec ds)) \<and> Containers (ptSpec (depTemplate d)) \<noteq> [] \<and> InitContainers (ptSpec (depTemplate d)) \<noteq> [])"

definition canSettle :: "directoryService \<Rightarrow> store \<Rightarrow> bool" where
  "canSettle ds s \<longleftrightarrow> Replicas (Spec ds) \<noteq> None \<and> secretsUsable ds s \<and> setUsable ds s \<and> proxyUsable ds s"

lemmas usable_defs = secretsUsable_def setUsable_def proxyUsable_def

definition directory_api_answers :: "('w \<Rightarrow> store) \<Rightarrow> 'w env \<Rightarrow> bool" where
  "directory_api_answers view env \<longleftrightarrow>
     answers view pvcs (pvcClient env) \<and> answers view secrets (secretClient env) \<and>
     answers view statefulsets (stsClient env) \<and> answers view deployments (depClient env) \<and>
     answers view services (svcClient env) \<and> answers view directoryservices (dsClient env)"

lemma directory_answers:
  assumes "directory_api_answers view env"
  shows "answers view pvcs (pvcClient env)" "answers view secrets (secretClient env)" "answers view statefulsets (stsClient env)"
    "answers view deployments (depClient env)" "answers view services (svcClient env)" "answers view directoryservices (dsClient env)"
  using assms by (simp_all add: directory_api_answers_def)

section \<open>The steps succeed\<close>

lemma forErr_returns:
  assumes "\<And>x w. x \<in> set xs \<Longrightarrow> I w \<Longrightarrow> \<exists>w'. b x w = (Ret None, w') \<and> I w'" and "I w"
  shows "\<exists>w'. forErr xs b w = (Ret None, w')"
  using assms
proof (induction xs arbitrary: w)
  case (Cons x xs)
  from Cons.prems obtain w1 where "b x w = (Ret None, w1)" "I w1" by (meson list.set_intros(1))
  with Cons.IH [of w1] Cons.prems(1) show ?case by (auto simp: checkM_apply)
qed (simp add: ret_def)

lemma reconcilePVC_answers:
  assumes env: "env_documented view env" and api: "directory_api_answers view env" and n: "Replicas (Spec ds) \<noteq> None"
  shows "\<exists>w'. reconcilePVC env ds w = (Ret None, w')"
proof -
  have "\<exists>z l' w2. pvcMutate env ds (newPVC ns m) l w1 = (Ret (None, z, l'), w2)" for ns m l w1
    using setVCT_returns [OF env, of ds w1] by (auto simp: pvcMutate_def isZero_def bindM_def ret_def)
  then have "\<exists>z l' w'. kCreateOrUpdate (pvcClient env) (newPVC ns m) () (pvcMutate env ds) u = (Ret (None, z, l'), w')" for ns m u
    by (rule pvcCallback.create_answers [OF env_clients(1) [OF env] directory_answers(1) [OF api] pvcMutate_quiet [OF env] _ refl])
  then have "\<exists>w'. reconcileOnePVC env ds i u = (Ret None, w')" for i u
    by (fastforce simp: reconcileOnePVC_def bindM_eq_Ret ret_apply)
  then have "\<exists>w'. forErr js (reconcileOnePVC env ds) w = (Ret None, w')" for js
    by (intro forErr_returns [where I = "\<lambda>_. True"]) simp_all
  with n show ?thesis by (auto simp: reconcilePVC_def)
qed

lemma secretMutate_answers:
  assumes env: "env_documented view env" and "Data s \<noteq> None"
  shows "\<exists>z l' w2. secretMutate env ds a s l w1 = (Ret (None, z, l'), w2) \<and> objkey z = objkey s"
proof -
  obtain pw w2 where "randPassword env 24 w1 = (Ret pw, w2)" using randPassword_spec [OF env, of 24 w1] by blast
  with assms(2) show ?thesis
    by (auto simp: secretMutate_def Let_def bindM_def ret_def mapPut_def objkey_def split: option.splits)
qed

lemma reconcileSecrets_answers:
  assumes env: "env_documented view env" and api: "directory_api_answers view env" and can: "secretsUsable ds (view w)"
  shows "\<exists>w'. reconcileSecrets env ds w = (Ret None, w')"
proof -
  let ?I = "\<lambda>u. \<forall>dn a. mapGet (Passwords (Spec ds)) dn = Some a \<longrightarrow> Create a \<longrightarrow>
      (\<exists>x. secrets (view u) (dsNamespace ds, SecretName a) = Some x \<and> Data x \<noteq> None)"
  have step: "\<exists>v. reconcileOneSecret env ds dn u = (Ret None, v) \<and> ?I v" if I: "?I u" for dn u
  proof (cases "Create (mapIndex zeroPasswords (Passwords (Spec ds)) dn)")
    case False
    with I show ?thesis by (auto simp: reconcileOneSecret_skips)
  next
    case True
    define a where "a = mapIndex zeroPasswords (Passwords (Spec ds)) dn"
    with True have "mapGet (Passwords (Spec ds)) dn = Some a" by (auto simp: mapIndex_def zeroPasswords_def split: option.splits)
    with I True a_def obtain x where x: "secrets (view u) (dsNamespace ds, SecretName a) = Some x" "Data x \<noteq> None" by blast
    let ?x = "newSecret (dsNamespace ds) (SecretName a)"
    have "\<exists>z l' v. kCreateOrUpdate (secretClient env) ?x () (secretMutate env ds a) u = (Ret (None, z, l'), v)"
    proof (rule secretK.cou_answers [OF env_clients(2) [OF env] directory_answers(2) [OF api] secretMutate_quiet [OF env]])
      fix y w1
      assume "y = ?x \<and> secrets (view u) (objkey ?x) = None \<or> secrets (view u) (objkey ?x) = Some y \<and> created y \<and> objkey y = objkey ?x"
      with x have "y = x" "objkey y = objkey ?x" by auto
      with secretMutate_answers [OF env x(2), of ds a "()" w1]
      show "\<exists>z l' w2. secretMutate env ds a y () w1 = (Ret (None, z, l'), w2) \<and> objkey z = objkey ?x" by simp
    qed
    then obtain v where v: "reconcileOneSecret env ds dn u = (Ret None, v)"
      using True by (fastforce simp: reconcileOneSecret_def SecretNameForDN_def Let_def a_def bindM_eq_Ret ret_apply)
    from env v a_def True [folded a_def] obtain cur z val where "secrets (view u) (dsNamespace ds, SecretName a) = Some cur"
      "secrets (view v) = (secrets (view u))((dsNamespace ds, SecretName a) \<mapsto> z)"
      "mapGet (Data z) = (mapGet (Data cur))(Key a \<mapsto> val)"
      "mapGet (Data cur) (Key a) = Some val \<or> length val = 24 \<and> set val \<subseteq> set letters"
      by (rule reconcileOneSecret_success)
    moreover from this(3) have "mapGet (Data z) (Key a) = Some val" by simp
    then have "Data z \<noteq> None" by (cases "Data z") simp_all
    ultimately show ?thesis using I v by auto
  qed
  obtain dns w1 where range: "rangeKeys env (Passwords (Spec ds)) w = (dns, w1)" by (cases "rangeKeys env (Passwords (Spec ds)) w")
  have "callM (rangeKeys env (Passwords (Spec ds))) w = (Ret dns, w1)" using range by (simp add: callM_def)
  from presD [OF env_runtime_stays(3) [OF env, of "{}"] this] can have "?I w1" by (simp add: stays_empty secretsUsable_def)
  then have "\<exists>w'. forErr dns (reconcileOneSecret env ds) w1 = (Ret None, w')" by (rule forErr_returns [rotated]) (rule step)
  with range show ?thesis by (simp add: reconcileSecrets_def bindM_def callM_def)
qed

lemma reconcileSTS_answers:
  assumes env: "env_documented view env" and api: "directory_api_answers view env" and can: "setUsable ds (view w)"
  shows "\<exists>ds' w'. reconcileSTS fl env ds svcName w = (Ret (None, ds'), w')"
proof -
  let ?x = "newSTS (dsNamespace ds) (dsName ds)" and ?f = "stsMutate fl env svcName"
  have k: "objkey ?x = objkey ds" by (simp add: objkey_def)
  have "\<exists>z l' v. kCreateOrUpdate (stsClient env) ?x (ds, False) ?f w = (Ret (None, z, l'), v)"
  proof (rule stsK.cou_answers [OF env_clients(3) [OF env] directory_answers(3) [OF api] stsMutate_quiet [OF env]])
    fix y w1
    assume y: "y = ?x \<and> statefulsets (view w) (objkey ?x) = None \<or> statefulsets (view w) (objkey ?x) = Some y \<and> created y \<and> objkey y = objkey ?x"
    have "\<exists>z l' w2. ?f y (ds, False) w1 = (Ret (None, z, l'), w2)"
    proof (cases "created y")
      case True
      with y can k obtain c cs i ics where "Containers (stsPod y) = c # cs" "InitContainers (stsPod y) = i # ics"
        by (auto simp: setUsable_def objkey_def created_def isZero_def neq_Nil_conv)
      from updateDSStatefulSet_eq [OF this, of ds w1] True show ?thesis by (auto simp: stsMutate_def created_def)
    next
      case False
      with setVCT_returns [OF env, of ds w1] show ?thesis
        by (auto simp: stsMutate_def created_def createDSStatefulSet_def Let_def bindM_def ret_def split: prod.splits)
    qed
    then obtain z l' w2 where z: "?f y (ds, False) w1 = (Ret (None, z, l'), w2)" by blast
    have "objkey z = objkey ds" by (rule stsCallback.f_key [OF _ _ z]) (use y k in auto)
    with z k show "\<exists>z l' w2. ?f y (ds, False) w1 = (Ret (None, z, l'), w2) \<and> objkey z = objkey ?x" by auto
  qed
  then obtain z ds1 b v where "kCreateOrUpdate (stsClient env) ?x (ds, False) ?f w = (Ret (None, z, ds1, b), v)" by (metis surj_pair)
  then show ?thesis by (simp add: reconcileSTS_def bindM_def ret_def Let_def)
qed

lemma reconcileProxy_answers:
  assumes env: "env_documented view env" and api: "directory_api_answers view env" and can: "proxyUsable ds (view w)"
  shows "\<exists>ds' w'. reconcileProxy env ds w = (Ret (None, ds'), w')"
proof (cases "proxyEnabled (Proxy (Spec ds))")
  case False
  let ?k = "(dsNamespace ds, proxyNameOf ds)"
  from can False have "deployments (view w) ?k = None" by (cases "deployments (view w) ?k") (auto simp: proxyUsable_def)
  moreover obtain g w1 where g: "kGet (depClient env) ?k w = (g, w1)" by (cases "kGet (depClient env) ?k w")
  ultimately have "g = Inl NotFound" using depK.get_answers [OF directory_answers(4) [OF api] g] by simp
  with False g show ?thesis by (simp add: reconcileProxy_def removeIfOwned_def bindM_def callM_def ret_def)
next
  case True
  let ?x = "newDeployment (dsNamespace ds) (proxyNameOf ds)" and ?f = "proxyMutate env"
  have "\<exists>z l' v. kCreateOrUpdate (depClient env) ?x ds ?f w = (Ret (None, z, l'), v)"
  proof (rule depK.cou_answers [OF env_clients(4) [OF env] directory_answers(4) [OF api] proxyMutate_quiet])
    fix y w1
    assume y: "y = ?x \<and> deployments (view w) (objkey ?x) = None \<or> deployments (view w) (objkey ?x) = Some y \<and> created y \<and> objkey y = objkey ?x"
    have "\<exists>z l' w2. ?f y ds w1 = (Ret (None, z, l'), w2)"
    proof (cases "created y")
      case True
      with y can obtain c cs i ics where "Containers (ptSpec (depTemplate y)) = c # cs" "InitContainers (ptSpec (depTemplate y)) = i # ics"
        by (auto simp: proxyUsable_def created_def isZero_def neq_Nil_conv)
      with True show ?thesis
        by (simp add: proxyMutate_def created_def updateDSProxyDeployment_def Let_def setFirstImage_def bindM_def ret_def)
    qed (simp add: proxyMutate_def created_def ret_def)
    then obtain z l' w2 where z: "?f y ds w1 = (Ret (None, z, l'), w2)" by blast
    have "objkey z = (dsNamespace ds, proxyNameOf ds)" by (rule proxyCallback.f_key [OF _ _ z]) (use y in auto)
    with z show "\<exists>z l' w2. ?f y ds w1 = (Ret (None, z, l'), w2) \<and> objkey z = objkey ?x" by auto
  qed
  with True show ?thesis by (fastforce simp: reconcileProxy_def bindM_eq_Ret ret_apply)
qed

lemma reconcileService_answers:
  assumes env: "env_documented view env" and api: "directory_api_answers view env"
  shows "\<exists>svc w'. reconcileService env ds n w = (Ret (svc, None), w')"
proof -
  have "\<exists>z l' w2. serviceMutate env ds y l w1 = (Ret (None, z, l'), w2)" for y l w1 by (simp add: serviceMutate_def ret_def)
  then have "\<exists>z l' w'. kCreateOrUpdate (svcClient env) (newService (dsNamespace ds) n) () (serviceMutate env ds) w = (Ret (None, z, l'), w')"
    by (rule serviceCallback.create_answers [OF env_clients(5) [OF env] directory_answers(5) [OF api] serviceMutate_quiet])
      (rule objkey_new)
  then show ?thesis by (fastforce simp: reconcileService_def bindM_eq_Ret ret_apply)
qed

section \<open>One reconciliation settles the cluster\<close>

lemma usable_stays:
  assumes st: "stays K view w w'"
  shows "KSecret \<notin> fst ` K \<Longrightarrow> secretsUsable ds (view w) \<Longrightarrow> secretsUsable ds (view w')"
    and "KSts \<notin> fst ` K \<Longrightarrow> setUsable ds (view w) \<Longrightarrow> setUsable ds (view w')"
    and "KDep \<notin> fst ` K \<Longrightarrow> proxyUsable ds (view w) \<Longrightarrow> proxyUsable ds (view w')"
  using secretK.stays_kind [OF st] stsK.stays_kind [OF st] depK.stays_kind [OF st] by (simp_all add: usable_defs)

lemma reconcileBody_answers:
  assumes env: "env_documented view env" and api: "directory_api_answers view env" and can: "canSettle ds (view w)"
    and fin: "finite (dom (mapGet (Passwords (Spec ds))))" and run: "reconcileBody fl env ds w = (r, w')"
  shows "settled ds (view w')"
proof -
  obtain w2 where p: "reconcilePVC env ds w = (Ret None, w2)" using reconcilePVC_answers [OF env api] can by (auto simp: canSettle_def)
  have a2: "stays (range (Pair KPvc)) view w w2" by (rule presD [OF reconcilePVC_stays [OF env] p]) auto
  have "secretsUsable ds (view w2)" by (rule usable_stays(1) [OF a2]) (use can in \<open>auto simp: canSettle_def\<close>)
  then obtain w3 where s: "reconcileSecrets env ds w2 = (Ret None, w3)" using reconcileSecrets_answers [OF env api] by blast
  have a3: "stays (range (Pair KPvc) \<union> range (Pair KSecret)) view w w3"
    by (rule stays_then [OF a2 presD [OF reconcileSecrets_stays [OF env] s]]) auto
  have "setUsable ds (view w3)" by (rule usable_stays(2) [OF a3]) (use can in \<open>auto simp: canSettle_def\<close>)
  then obtain ds1 w4 where sts: "reconcileSTS fl env ds (dsName ds) w3 = (Ret (None, ds1), w4)" using reconcileSTS_answers [OF env api] by blast
  have a4: "stays (range (Pair KPvc) \<union> range (Pair KSecret) \<union> range (Pair KSts)) view w w4"
    by (rule stays_then [OF a3 presD [OF reconcileSTS_stays [OF env] sts]]) auto
  have same1: "sameResource ds ds1" using reconcileSTS_success [OF env sts] by (auto simp: sameResource_def)
  have "proxyUsable ds (view w4)" by (rule usable_stays(3) [OF a4]) (use can in \<open>auto simp: canSettle_def\<close>)
  with same1 have "proxyUsable ds1 (view w4)" by (simp add: proxyUsable_def sameResource_def proxyNameOf_def)
  then obtain ds2 w5 where pr: "reconcileProxy env ds1 w4 = (Ret (None, ds2), w5)" using reconcileProxy_answers [OF env api] by blast
  have same2: "sameResource ds ds2" using reconcileProxy_same [OF env pr] same1 by (simp add: sameResource_def)
  obtain svc w6 where sv: "reconcileService env ds2 (dsName ds) w5 = (Ret (svc, None), w6)" using reconcileService_answers [OF env api] by blast
  have s6: "settled ds (view w6)" by (rule steps_settle [OF env fin p s sts pr sv same1 same2])
  from run p s sts pr sv have "snapshotStage fl env ds2 svc w6 = (r, w')"
    by (simp add: reconcileBody_def checkM_apply stsStage_def proxyStage_def serviceStage_def bindM_def)
  from snapshotStage_settled [OF env same2 s6 this] show ?thesis .
qed

text \<open>
  Property C5. One reconciliation brings a directory up, if nothing stands in its way
  (\<open>canSettle\<close>): the replica count is set; each secret that is to be filled (\<open>create: true\<close>) exists
  already, with data; a stateful set that is already there has containers and init containers, and
  so has the deployment of an enabled proxy; and there is no deployment of a proxy that is switched
  off. While the API server answers, the cluster is then as the resource describes it after a single
  reconciliation. This holds however the run goes on after the objects are made: also if a snapshot
  fails, the directory cannot be reached, or the operator panics while it checks passwords. Without
  the condition on secrets it does not hold, since a missing secret makes the operator panic.
\<close>

theorem directory_comes_up:
  assumes env: "env_documented view env" and api: "directory_api_answers view env"
    and stored: "directoryservices (view w) req = Some ds" and can: "canSettle ds (view w)"
    and fin: "finite (dom (mapGet (Passwords (Spec ds))))" and run: "Reconcile fl env req w = (r, w')"
  shows "settled ds (view w')"
  using env run
proof (cases rule: Reconcile_cases)
  case (missing err w1)
  with stored dsK.get_answers [OF directory_answers(6) [OF api] missing(1)] show ?thesis by simp
next
  case (found ds1 w1)
  with stored can have "ds1 = ds" "canSettle ds (view w1)" by simp_all
  with reconcileBody_answers [OF env api _ fin] found(5) show ?thesis by simp
qed

section \<open>Periods that overflow\<close>

lemma snapshotMutate_answers: "\<exists>z l' w'. snapshotMutate s (newSnapshot ns n) l w = (Ret (None, z, l'), w')"
  by (simp add: snapshotMutate_def isZero_def ret_def)

text \<open>A new snapshot adds at most itself to the snapshots of a directory.\<close>

lemma ownSnapshots_new:
  assumes grows: "snapshots s \<subseteq>\<^sub>m snapshots s'" and others: "\<And>k. k \<noteq> k0 \<Longrightarrow> snapshots s' k = snapshots s k"
    and fin: "finite (ownSnapshots ds s')"
  shows "card (ownSnapshots ds s') \<le> Suc (card (ownSnapshots ds s))"
proof -
  have "snapshots s' k = Some x" if "snapshots s k = Some x" for k x
    using grows that unfolding map_le_def by (metis domI)
  then have "ownSnapshots ds s \<subseteq> ownSnapshots ds s'" unfolding ownSnapshots_def by blast
  then have "finite (ownSnapshots ds s)" using fin by (rule finite_subset)
  moreover have "ownSnapshots ds s' \<subseteq> insert (the (snapshots s' k0)) (ownSnapshots ds s)"
  proof
    fix x assume "x \<in> ownSnapshots ds s'"
    then show "x \<in> insert (the (snapshots s' k0)) (ownSnapshots ds s)"
      using others [of "objkey x"] by (cases "objkey x = k0") (auto simp: ownSnapshots_def)
  qed
  ultimately have "card (ownSnapshots ds s') \<le> card (insert (the (snapshots s' k0)) (ownSnapshots ds s))"
    by (intro card_mono) simp_all
  also have "\<dots> \<le> Suc (card (ownSnapshots ds s))" by (rule card_insert_le_m1) simp_all
  finally show ?thesis .
qed

text \<open>Pruning does nothing while the directory has no more snapshots than it may retain.\<close>

lemma prune_nothing:
  assumes env: "env_documented view env" and list: "getSnapshotList env ds w = (Ret (Inr items), w1)"
    and room: "int (card (ownSnapshots ds (view w))) \<le> sint n"
  shows "pruneSnapshots env n items = ret ()"
proof -
  have "length items = card (ownSnapshots ds (view w))"
    using snapshot_list_facts(1,2) [OF env list] by (metis distinct_card distinct_map)
  with room show ?thesis by (simp add: pruneSnapshots_def)
qed

text \<open>A due run up to the status update: the snapshot named after the time is there, nothing else changed.\<close>

lemma due_snapshot_created:
  fixes ds :: directoryService
  assumes env: "env_documented view env" and snap: "answers view snapshots (snapClient env)" and now: "Now env w = (now, w0)"
  defines "s \<equiv> newVolumeSnapshot ds now" and "k0 \<equiv> (dsNamespace ds, dsName ds @ ''-'' @ formatInt (sint now))"
  obtains z l w1 w2 e ds' w3 where
    "kCreateOrUpdate (snapClient env) (newSnapshot (Namespace (ObjectMeta s)) (Name (ObjectMeta s))) () (snapshotMutate s) w0 =
       (Ret (None, z, l), w1)"
    "callM (Event env ''Created Snapshot'' (Name (ObjectMeta z))) w1 = (Ret (), w2)"
    "statusUpdateDS env (setLastSnapshot ds now) w2 = (Ret (e, ds'), w3)" "snapshots (view w3) k0 = Some z"
    "\<And>k. k \<noteq> k0 \<Longrightarrow> snapshots (view w3) k = snapshots (view w) k" "specHeld view ds w \<Longrightarrow> specHeld view ds w2"
proof -
  let ?x = "newSnapshot (Namespace (ObjectMeta s)) (Name (ObjectMeta s))"
  have meta: "objkey ?x = k0" "objkey s = k0"
    by (simp_all add: s_def k0_def newVolumeSnapshot_def Let_def zeroMeta_def objkey_def)
  note kc = env_clients(6) [OF env]
  have "callM (Now env) w = (Ret now, w0)" using now by (simp add: callM_def)
  from presD [OF env_runtime_stays(1) [OF env, of "{}"] this] have v0: "view w0 = view w" by (simp add: stays_empty)
  obtain z l w1 where cou: "kCreateOrUpdate (snapClient env) ?x () (snapshotMutate s) w0 = (Ret (None, z, l), w1)"
    using snapCallback.create_answers [OF kc snap snapshotMutate_quiet snapshotMutate_answers, of _ _ s] meta by metis
  obtain w2 where ev: "callM (Event env ''Created Snapshot'' (Name (ObjectMeta z))) w1 = (Ret (), w2)"
    by (cases "Event env ''Created Snapshot'' (Name (ObjectMeta z)) w1") (simp add: callM_def)
  from presD [OF env_runtime_stays(4) [OF env, of "{}"] ev] have v2: "view w2 = view w1" by (simp add: stays_empty)
  obtain e ds' w3 where st: "statusUpdateDS env (setLastSnapshot ds now) w2 = (Ret (e, ds'), w3)"
    using statusUpdateDS_returns [of env "setLastSnapshot ds now" w2] by auto
  have v3: "snapshots (view w3) = snapshots (view w1)"
    using presD [OF statusUpdateDS_stays [OF env, of "setLastSnapshot ds now" "{(KDs, objkey ds)}"] st] v2
    by (auto simp: stays_def same_except_def agree_def)
  have frame1: "stays {(KSnap, k0)} view w0 w1"
    by (rule presD [OF snapK.cou_stays [OF kc snapshotMutate_quiet] cou]) (simp only: meta singletonI)
  show thesis
  proof (rule that [OF cou ev st])
    show "snapshots (view w3) k0 = Some z" using snapK.cou_present [OF kc snapshotMutate_quiet cou] v3 meta by simp
    show "snapshots (view w3) k = snapshots (view w) k" if "k \<noteq> k0" for k
      using snapK.stays_at [OF frame1] that v0 v3 by simp
    show "specHeld view ds w2" if "specHeld view ds w"
      using that dsK.stays_at [OF frame1, of "objkey ds"] v0 v2 by (simp add: specHeld_def)
  qed
qed

lemma due_snapshot_taken:
  assumes env: "env_documented view env" and snap: "answers view snapshots (snapClient env)"
    and due: "snapshotDue env ds w" and now: "Now env w = (now, w0)" and held: "specHeld view ds w"
    and room: "int (card (ownSnapshots ds (view w))) < sint (SnapshotsRetained (Snapshots (Spec ds)))"
    and run: "reconcileSnapshots env ds w = (r, w')"
  shows "snapshots (view w') (dsNamespace ds, dsName ds @ ''-'' @ formatInt (sint now)) \<noteq> None \<and>
    (\<forall>ds'. r = Ret (None, ds') \<longrightarrow> LastSnapshotTimeStamp (SnapshotStatus (Status ds')) = now)"
proof (rule due_snapshot_created [OF env snap now, where ds = ds])
  let ?s = "newVolumeSnapshot ds now" and ?k = "(dsNamespace ds, dsName ds @ ''-'' @ formatInt (sint now))"
  fix z l w1 w2 e ds' w3
  assume cou: "kCreateOrUpdate (snapClient env) (newSnapshot (Namespace (ObjectMeta ?s)) (Name (ObjectMeta ?s))) ()
      (snapshotMutate ?s) w0 = (Ret (None, z, l), w1)"
    and ev: "callM (Event env ''Created Snapshot'' (Name (ObjectMeta z))) w1 = (Ret (), w2)"
    and st: "statusUpdateDS env (setLastSnapshot ds now) w2 = (Ret (e, ds'), w3)" and new: "snapshots (view w3) ?k = Some z"
    and others: "\<And>k. k \<noteq> ?k \<Longrightarrow> snapshots (view w3) k = snapshots (view w) k"
    and held2: "specHeld view ds w \<Longrightarrow> specHeld view ds w2"
  have own: "ownSnapshots ds' = ownSnapshots ds" and last: "LastSnapshotTimeStamp (SnapshotStatus (Status ds')) = now"
    using statusUpdateDS_Ret [OF env st] by (auto intro!: ownSnapshots_cong simp: setLastSnapshot_def objkey_def)
  have none: "pruneSnapshots env (SnapshotsRetained (Snapshots (Spec ds'))) items = ret ()"
    if list: "getSnapshotList env ds' w3 = (Ret (Inr items), w4)" and e: "e = None" for items w4
  proof (rule prune_nothing [OF env list])
    have "finite (ownSnapshots ds (view w3))"
      using snapshot_list_facts(1) [OF env list] own by (metis List.finite_set)
    from ownSnapshots_new [OF reconcileSnapshots_due_grows [OF env now cou ev st] others this]
    have "card (ownSnapshots ds (view w3)) \<le> Suc (card (ownSnapshots ds (view w)))" by simp
    moreover have "Spec ds' = Spec ds"
      using statusUpdateDS_spec(2) [OF env st _ held2 [OF held]] e by simp
    ultimately show "int (card (ownSnapshots ds' (view w3))) \<le> sint (SnapshotsRetained (Snapshots (Spec ds')))"
      using room own by simp
  qed
  obtain g w4 where g: "getSnapshotList env ds' w3 = (Ret g, w4)" "view w4 = view w3"
    using getSnapshotList_view [OF env] by (metis surj_pair)
  from due now have "snapEnabled (Snapshots (Spec ds))" "LastSnapshotTimeStamp (SnapshotStatus (Status ds)) \<noteq> 0"
    "\<not> sint now < sint (snapshotDeadline ds)" by (auto simp: snapshotDue_def)
  with run now cou ev st g none last new show ?thesis
    by (cases e; cases g) (auto simp: reconcileSnapshots_def Let_def bindM_def callM_def ret_def)
qed

text \<open>
  Property C34. A long period takes a snapshot at every reconciliation. The period in seconds is a
  32-bit product; from 35791395 to 71582788 minutes it wraps to a negative number. With such a
  period, snapshots enabled, a clock that has not gone back behind the last snapshot, and a server
  that answers for snapshots, every run of the snapshot step takes one, whatever its outcome: the
  snapshot named after the current time exists afterwards, and a successful run records the current
  time as the last one. The run may follow the previous one by any amount of time, for instance the
  60 seconds after which the operator reconciles again. The resource is stored with its
  specification, and has fewer snapshots than it may retain, so that pruning removes none.
\<close>

theorem period_overflow_always_due:
  assumes env: "env_documented view env" and snap: "answers view snapshots (snapClient env)"
    and period: "35791395 \<le> sint (PeriodMinutes (Snapshots (Spec ds)))"
      "sint (PeriodMinutes (Snapshots (Spec ds))) \<le> 71582788"
    and enabled: "snapEnabled (Snapshots (Spec ds))"
    and last: "0 < sint (LastSnapshotTimeStamp (SnapshotStatus (Status ds)))"
      "sint (LastSnapshotTimeStamp (SnapshotStatus (Status ds))) \<le> sint (fst (Now env w))"
    and stored: "directoryservices (view w) (objkey ds) = Some d" "Spec d = Spec ds"
    and room: "int (card (ownSnapshots ds (view w))) < sint (SnapshotsRetained (Snapshots (Spec ds)))"
    and run: "reconcileSnapshots env ds w = (r, w')"
  shows "snapshots (view w') (dsNamespace ds, dsName ds @ ''-'' @ formatInt (sint (fst (Now env w)))) \<noteq> None \<and>
    (\<forall>ds'. r = Ret (None, ds') \<longrightarrow> LastSnapshotTimeStamp (SnapshotStatus (Status ds')) = fst (Now env w))"
proof (rule due_snapshot_taken [OF env snap _ surjective_pairing _ room run])
  show "snapshotDue env ds w"
    using period_overflow_deadline [OF period last(1)] last enabled by (auto simp: snapshotDue_def)
  show "specHeld view ds w" using stored by (simp add: specHeld_def)
qed

definition longPeriodDS :: directoryService where
  "longPeriodDS = sampleDS\<lparr>Spec := sampleSpec\<lparr>Snapshots := (Snapshots sampleSpec)\<lparr>PeriodMinutes := 35791395\<rparr>\<rparr>\<rparr>"

theorem period_overflow_always_due_witness:
  "snapshots (memView (snd (reconcileSnapshots memEnv longPeriodDS (emptyMem\<lparr>mDss := [longPeriodDS], mClock := 160\<rparr>))))
     (''prod'', ''idrepo-'' @ formatInt 160) \<noteq> None"
proof -
  let ?w = "emptyMem\<lparr>mDss := [longPeriodDS], mClock := 160\<rparr>"
  note defs = longPeriodDS_def sample_defs
  have s: "directoryservices (memView ?w) (objkey longPeriodDS) = Some longPeriodDS"
    by (simp add: memView_def lookupObj_Cons) (simp add: defs created_def isZero_def)
  have none: "ownSnapshots longPeriodDS (memView ?w) = {}"
    by (simp add: ownSnapshots_def memView_def emptyMem_def)
  have now: "fst (Now memEnv ?w) = 160" by (simp add: memEnv_def)
  have "sint (PeriodMinutes (Snapshots (Spec longPeriodDS))) = 35791395" "snapEnabled (Snapshots (Spec longPeriodDS))"
    "sint (LastSnapshotTimeStamp (SnapshotStatus (Status longPeriodDS))) = 100"
    "sint (SnapshotsRetained (Snapshots (Spec longPeriodDS))) = 1"
    "dsNamespace longPeriodDS = ''prod''" "dsName longPeriodDS = ''idrepo''" by (simp_all add: defs)
  with period_overflow_always_due [OF memEnv_documented memEnv_answers(2) _ _ _ _ _ s refl _ surjective_pairing] none now
  show ?thesis by simp
qed

section \<open>A sample directory\<close>

lemma memEnv_directory_answers: "directory_api_answers memView memEnv"
proof -
  have "answers memView pvcs (pvcClient memEnv)" "answers memView secrets (secretClient memEnv)"
    "answers memView statefulsets (stsClient memEnv)" "answers memView deployments (depClient memEnv)"
    "answers memView services (svcClient memEnv)" "answers memView directoryservices (dsClient memEnv)"
    by (auto simp: memEnv_def memView_def intro!: memClient_answers)
  then show ?thesis by (simp add: directory_api_answers_def)
qed

text \<open>A cluster with the resource, the secret to be filled and nothing else.\<close>

definition freshWorld :: memw where
  "freshWorld = emptyMem\<lparr>mDss := [sampleDS], mSecrets := [sampleSecret (Some Map.empty)]\<rparr>"

lemma freshWorld_reads:
  "directoryservices (memView freshWorld) (''prod'', ''idrepo'') = Some sampleDS"
  "pvcs (memView freshWorld) = Map.empty" "statefulsets (memView freshWorld) = Map.empty"
  "canSettle sampleDS (memView freshWorld)" "finite (dom (mapGet (Passwords (Spec sampleDS))))"
proof -
  show "directoryservices (memView freshWorld) (''prod'', ''idrepo'') = Some sampleDS"
    by (simp add: freshWorld_def memView_def lookupObj_Cons sampleDS_def objkey_def created_def isZero_def)
  show e: "pvcs (memView freshWorld) = Map.empty" "statefulsets (memView freshWorld) = Map.empty"
    by (simp_all add: freshWorld_def memView_def emptyMem_def)
  have d: "deployments (memView freshWorld) = Map.empty" by (simp add: freshWorld_def memView_def emptyMem_def)
  have sec: "secrets (memView freshWorld) (''prod'', ''ds-passwords'') = Some (sampleSecret (Some Map.empty))"
    "Data (sampleSecret (Some Map.empty)) \<noteq> None"
    by (simp_all add: freshWorld_def memView_def lookup_sampleSecret) (simp add: sampleSecret_def stamp_def)
  show "canSettle sampleDS (memView freshWorld)"
    using e d sec by (auto simp: canSettle_def usable_defs sample_defs)
  show "finite (dom (mapGet (Passwords (Spec sampleDS))))" by (simp add: sample_defs)
qed

theorem directory_comes_up_witness:
  "pvcs (memView freshWorld) = Map.empty \<and> statefulsets (memView freshWorld) = Map.empty \<and>
   settled sampleDS (memView (snd (Reconcile plainFlags memEnv (''prod'', ''idrepo'') freshWorld)))"
  using directory_comes_up [OF memEnv_documented memEnv_directory_answers freshWorld_reads(1,4,5) surjective_pairing, of plainFlags]
    freshWorld_reads by simp

theorem volumes_before_pods_witness:
  "\<exists>w'. snd (Reconcile plainFlags memEnv (''prod'', ''idrepo'') freshWorld) = w' \<and>
     statefulsets (memView w') \<noteq> statefulsets (memView freshWorld) \<and>
     (\<forall>i < 2. (''prod'', dataClaimName ''idrepo'' (int i)) \<in> dom (pvcs (memView w')))"
proof -
  obtain r w' where run: "Reconcile plainFlags memEnv (''prod'', ''idrepo'') freshWorld = (r, w')"
    by (cases "Reconcile plainFlags memEnv (''prod'', ''idrepo'') freshWorld")
  have get: "Reconcile plainFlags memEnv (''prod'', ''idrepo'') freshWorld = reconcileBody plainFlags memEnv sampleDS freshWorld"
    by (simp add: Reconcile_body bindM_def callM_def memEnv_def memClient_def memBase_def freshWorld_def lookupObj_Cons
        sampleDS_def objkey_def created_def isZero_def)
  from reconcileBody_answers [OF memEnv_documented memEnv_directory_answers freshWorld_reads(4,5) run [unfolded get]]
  have "statefulsets (memView w') (dsNamespace sampleDS, dsName sampleDS) \<noteq> None" by (auto simp: settled_def setReady_def)
  then have new: "statefulsets (memView w') \<noteq> statefulsets (memView freshWorld)" unfolding freshWorld_reads(3) by auto
  have "Replicas (Spec sampleDS) = Some 2" by (simp add: sample_defs)
  with volumes_before_pods [OF memEnv_documented run] new run freshWorld_reads(1) show ?thesis by auto
qed

end
