(* ===== verification/Go_Memory.thy ===== *)
theory Go_Memory
  imports Prelude "HOL-Library.AList"
begin

text \<open>
  The memory of a Go program, as far as copying data structures needs it: variables, arrays
  and maps live in cells with an address; pointers, slices and maps are references to cells,
  so that two structures can share a cell and a write through one is seen through the other.

  \<^item> Memory, allocation, loads and stores; slices as windows of an array; the statements
    \<open>new\<close>, \<open>make\<close>, \<open>copy\<close> and the loops over slices and maps that copy their elements.
  \<^item> The interface of a deep copy (locale \<open>copier\<close>): the copy reads like the original, consists
    of fresh cells only and leaves the existing cells alone. What follows for later writes on
    either side is proved once inside the locale.
  \<^item> How deep copies compose: pointers, optional references, slices, maps, structures.
\<close>

section \<open>Cells\<close>

type_synonym addr = nat
type_synonym ptr = "addr option" \<comment> \<open>\<open>None\<close> is nil\<close>

text \<open>
  A cell is an array of values; a variable is an array of length one. Addresses from \<open>lim\<close> on
  have not been handed out.
\<close>

record 'v mem =
  cells :: "addr \<rightharpoonup> 'v list"
  lim :: addr

definition memOk :: "'v mem \<Rightarrow> bool" where
  "memOk m \<longleftrightarrow> (\<forall>a \<in> dom (cells m). a < lim m)"

text \<open>Memory grows, and what was there before is still the same.\<close>

definition extends :: "'v mem \<Rightarrow> 'v mem \<Rightarrow> bool" where
  "extends m m' \<longleftrightarrow> lim m \<le> lim m' \<and> (\<forall>a < lim m. cells m' a = cells m a)"

interpretation grows: world_order "extends :: 'v mem \<Rightarrow> 'v mem \<Rightarrow> bool"
  by unfold_locales (auto simp: extends_def)

definition alloc :: "'v list \<Rightarrow> ('v mem, addr) M" where
  "alloc vs m = (Ret (lim m), m\<lparr>cells := (cells m)(lim m \<mapsto> vs), lim := Suc (lim m)\<rparr>)"

text \<open>Memory is safe in Go: a reference that is not nil leads to a cell.\<close>

definition loadAt :: "addr \<Rightarrow> nat \<Rightarrow> ('v mem, 'v) M" where
  "loadAt a i m =
     (case cells m a of
        None \<Rightarrow> (Panic NilDeref, m)
      | Some vs \<Rightarrow> if i < length vs then (Ret (vs ! i), m) else (Panic IndexOutOfRange, m))"

definition storeAt :: "addr \<Rightarrow> nat \<Rightarrow> 'v \<Rightarrow> ('v mem, unit) M" where
  "storeAt a i v m =
     (case cells m a of
        None \<Rightarrow> (Panic NilDeref, m)
      | Some vs \<Rightarrow>
          if i < length vs then (Ret (), m\<lparr>cells := (cells m)(a \<mapsto> vs[i := v])\<rparr>)
          else (Panic IndexOutOfRange, m))"

section \<open>Values of one type among all values\<close>

text \<open>
  One type \<open>'v\<close> holds the values of every Go type; \<open>emb\<close> embeds those of one type and \<open>prj\<close>
  recognises them. Go is typed, so the last case never occurs in a running program.
\<close>

definition asType :: "('v \<Rightarrow> 'e option) \<Rightarrow> 'v \<Rightarrow> ('w, 'e) M" where
  "asType prj v = (case prj v of Some e \<Rightarrow> ret e | None \<Rightarrow> panic (ForeignPanic ''type''))"

text \<open>A copy of structures as a copy of the values that hold them.\<close>

definition onCell ::
  "('e \<Rightarrow> 'v) \<Rightarrow> ('v \<Rightarrow> 'e option) \<Rightarrow> ('e \<Rightarrow> ('w, 'e) M) \<Rightarrow> 'v \<Rightarrow> ('w, 'v) M" where
  "onCell emb prj f v = bindM (asType prj v) (\<lambda>e. bindM (f e) (\<lambda>e'. ret (emb e')))"

locale cell_type =
  fixes emb :: "'e \<Rightarrow> 'v" and prj :: "'v \<Rightarrow> 'e option"
  assumes prj_iff: "prj v = Some e \<longleftrightarrow> v = emb e"
begin

lemma prj_emb [simp]: "prj (emb e) = Some e"
  by (simp add: prj_iff)

lemma onCell_emb: "onCell emb prj f (emb e) = bindM (f e) (\<lambda>e'. ret (emb e'))"
  by (simp add: onCell_def asType_def bindM_ret)

end

section \<open>Statements that copy\<close>

text \<open>\<open>out := new(T); *out = \<dots>\<close> with the content of the variable at \<open>a\<close>, copied by \<open>step\<close>.\<close>

definition newCopy :: "'v \<Rightarrow> ('v \<Rightarrow> ('v mem, 'v) M) \<Rightarrow> addr \<Rightarrow> ('v mem, addr) M" where
  "newCopy z step a =
     bindM (alloc [z]) (\<lambda>out.
     bindM (loadAt a 0) (\<lambda>v.
     bindM (step v) (\<lambda>v'.
     bindM (storeAt out 0 v') (\<lambda>_. ret out))))"

text \<open>\<open>if in != nil { \<dots> }\<close>: nil stays nil.\<close>

definition whenSome :: "('a \<Rightarrow> ('w, 'b) M) \<Rightarrow> 'a option \<Rightarrow> ('w, 'b option) M" where
  "whenSome f p = (case p of None \<Rightarrow> ret None | Some a \<Rightarrow> bindM (f a) (\<lambda>b. ret (Some b)))"

text \<open>\<open>if in.F != nil { \<dots>; *out = f(*in) }\<close> for a field \<open>F\<close>, set in \<open>out\<close> by \<open>upd\<close>.\<close>

definition copyField :: "'p option \<Rightarrow> 'o \<Rightarrow> ('p \<Rightarrow> ('w, 'p) M) \<Rightarrow> ('p \<Rightarrow> 'o) \<Rightarrow> ('w, 'o) M" where
  "copyField p out f upd = (case p of None \<Rightarrow> ret out | Some a \<Rightarrow> bindM (f a) (\<lambda>b. ret (upd b)))"

text \<open>A slice is a window of an array.\<close>

record goslice =
  sBase :: addr
  sOff :: nat
  sLen :: nat

definition makeSlice :: "'v \<Rightarrow> nat \<Rightarrow> ('v mem, goslice) M" where
  "makeSlice z n = bindM (alloc (replicate n z)) (\<lambda>a. ret \<lparr>sBase = a, sOff = 0, sLen = n\<rparr>)"

definition sliceGet :: "goslice \<Rightarrow> nat \<Rightarrow> ('v mem, 'v) M" where
  "sliceGet s i = (if i < sLen s then loadAt (sBase s) (sOff s + i) else panic IndexOutOfRange)"

definition sliceSet :: "goslice \<Rightarrow> nat \<Rightarrow> 'v \<Rightarrow> ('v mem, unit) M" where
  "sliceSet s i v = (if i < sLen s then storeAt (sBase s) (sOff s + i) v else panic IndexOutOfRange)"

text \<open>
  \<open>for i := range *in { (*in)[i].DeepCopyInto(&(*out)[i]) }\<close>. With \<open>ret\<close> for \<open>step\<close> it is the
  builtin \<open>copy(*out, *in)\<close> on slices of different arrays and the same length.
\<close>

definition copyLoop :: "('v \<Rightarrow> ('v mem, 'v) M) \<Rightarrow> goslice \<Rightarrow> goslice \<Rightarrow> ('v mem, unit) M" where
  "copyLoop step out inn =
     forAll [0 ..< sLen inn] (\<lambda>i. bindM (sliceGet inn i) (\<lambda>v. bindM (step v) (\<lambda>v'. sliceSet out i v')))"

definition copySlice :: "'v \<Rightarrow> ('v \<Rightarrow> ('v mem, 'v) M) \<Rightarrow> goslice \<Rightarrow> ('v mem, goslice) M" where
  "copySlice z step inn =
     bindM (makeSlice z (sLen inn)) (\<lambda>out. bindM (copyLoop step out inn) (\<lambda>_. ret out))"

text \<open>
  A map is a variable holding its entries. The order in which \<open>range\<close> visits them is not
  specified by the language: \<open>order\<close>.
\<close>

definition mapSet ::
  "(('k \<times> 'e) list \<Rightarrow> 'v) \<Rightarrow> ('v \<Rightarrow> ('k \<times> 'e) list option) \<Rightarrow> addr \<Rightarrow> 'k \<times> 'e \<Rightarrow> ('v mem, unit) M" where
  "mapSet emb prj a kv =
     bindM (loadAt a 0) (\<lambda>v. bindM (asType prj v) (\<lambda>kvs.
       storeAt a 0 (emb (AList.update (fst kv) (snd kv) kvs))))"

definition copyMap ::
  "(('k \<times> 'e) list \<Rightarrow> 'v) \<Rightarrow> ('v \<Rightarrow> ('k \<times> 'e) list option) \<Rightarrow>
   (('k \<times> 'e) list \<Rightarrow> ('k \<times> 'e) list) \<Rightarrow> addr \<Rightarrow> ('v mem, addr) M" where
  "copyMap emb prj order inn =
     bindM (alloc [emb []]) (\<lambda>out.
     bindM (loadAt inn 0) (\<lambda>v.
     bindM (asType prj v) (\<lambda>kvs.
     bindM (forAll (order kvs) (mapSet emb prj out)) (\<lambda>_. ret out))))"

definition copyPair ::
  "('a \<Rightarrow> ('w, 'a) M) \<Rightarrow> ('b \<Rightarrow> ('w, 'b) M) \<Rightarrow> 'a \<times> 'b \<Rightarrow> ('w, 'a \<times> 'b) M" where
  "copyPair f g p = bindM (f (fst p)) (\<lambda>a. bindM (g (snd p)) (\<lambda>b. ret (a, b)))"

section \<open>The interface of a deep copy\<close>

text \<open>
  \<open>F m c\<close> are the cells reachable from \<open>c\<close>, \<open>V m c\<close> is the value read off them (\<open>None\<close> where
  the memory does not hold a structure of that type).
\<close>

locale copier =
  fixes F :: "'v mem \<Rightarrow> 'c \<Rightarrow> addr set"
    and V :: "'v mem \<Rightarrow> 'c \<Rightarrow> 'a option"
    and copy :: "'c \<Rightarrow> ('v mem, 'c) M"
  assumes copies: "memOk m \<Longrightarrow> V m c = Some a \<Longrightarrow>
      \<exists>c' m'. copy c m = (Ret c', m') \<and> memOk m' \<and> extends m m' \<and> V m' c' = Some a \<and>
        F m' c' \<subseteq> {lim m ..< lim m'}"
    and locality: "V m c = Some a \<Longrightarrow> \<forall>x \<in> F m c. cells m' x = cells m x \<Longrightarrow>
      V m' c = Some a \<and> F m' c = F m c"
    and owned: "V m c = Some a \<Longrightarrow> F m c \<subseteq> dom (cells m)"
begin

lemma below: "memOk m \<Longrightarrow> V m c = Some a \<Longrightarrow> F m c \<subseteq> {..< lim m}"
  using owned by (fastforce simp: memOk_def)

lemma view_extends:
  assumes "memOk m" "extends m m'" "V m c = Some a"
  shows "V m' c = Some a" "F m' c = F m c"
proof -
  have "\<forall>x \<in> F m c. cells m' x = cells m x"
    using below [OF assms(1,3)] assms(2) by (auto simp: extends_def)
  with locality [OF assms(3)] show "V m' c = Some a" "F m' c = F m c" by blast+
qed

text \<open>
  Later on, whatever happens to cells that are not the copy's leaves the copy as it is, and
  whatever happens to cells allocated since leaves the original as it is.
\<close>

lemma independent:
  assumes ok: "memOk m" and v: "V m c = Some a" and run: "copy c m = (Ret c', m')"
  shows "F m' c' \<inter> F m c = {}"
    and "\<forall>x \<in> F m' c'. cells m2 x = cells m' x \<Longrightarrow> V m2 c' = Some a"
    and "\<forall>x < lim m. cells m2 x = cells m' x \<Longrightarrow> V m2 c = Some a"
proof -
  from copies [OF ok v] run have c': "memOk m'" "extends m m'" "V m' c' = Some a"
    "F m' c' \<subseteq> {lim m ..< lim m'}" by auto
  note b = below [OF ok v]
  show "F m' c' \<inter> F m c = {}" using b c'(4) by fastforce
  show "V m2 c' = Some a" if "\<forall>x \<in> F m' c'. cells m2 x = cells m' x"
    using locality [OF c'(3) that] by simp
  show "V m2 c = Some a" if *: "\<forall>x < lim m. cells m2 x = cells m' x"
  proof -
    have "\<forall>x \<in> F m c. cells m2 x = cells m x"
      using b c'(2) * by (auto simp: extends_def)
    from locality [OF v this] show ?thesis by simp
  qed
qed

text \<open>Nor does a write to a cell outside matter.\<close>

lemma survives:
  assumes "memOk m" "V m c = Some a" "extends m m1" "b \<notin> F m c" "\<And>x. x \<noteq> b \<Longrightarrow> cells m2 x = cells m1 x"
  shows "V m2 c = Some a" "F m2 c = F m c"
proof -
  note ext = view_extends [OF assms(1,3,2)]
  have "\<forall>x \<in> F m1 c. cells m2 x = cells m1 x" using assms(4,5) ext(2) by metis
  from locality [OF ext(1) this] ext(2) show "V m2 c = Some a" "F m2 c = F m c" by simp_all
qed

end

text \<open>Values without references are copied by assignment.\<close>

interpretation flat: copier "\<lambda>_ _. {}" "\<lambda>_. Some" "ret :: 'c \<Rightarrow> ('v mem, 'c) M"
  by unfold_locales (auto simp: ret_def extends_def)

section \<open>Reading references\<close>

definition cellV :: "('v \<Rightarrow> 'e option) \<Rightarrow> ('m \<Rightarrow> 'e \<Rightarrow> 'a option) \<Rightarrow> 'm \<Rightarrow> 'v \<Rightarrow> 'a option" where
  "cellV prj V m v = Option.bind (prj v) (V m)"

definition cellF :: "('v \<Rightarrow> 'e option) \<Rightarrow> ('m \<Rightarrow> 'e \<Rightarrow> addr set) \<Rightarrow> 'm \<Rightarrow> 'v \<Rightarrow> addr set" where
  "cellF prj F m v = (case prj v of None \<Rightarrow> {} | Some e \<Rightarrow> F m e)"

definition varV :: "('v mem \<Rightarrow> 'v \<Rightarrow> 'a option) \<Rightarrow> 'v mem \<Rightarrow> addr \<Rightarrow> 'a option" where
  "varV V m a = (case cells m a of Some [v] \<Rightarrow> V m v | _ \<Rightarrow> None)"

definition varF :: "('v mem \<Rightarrow> 'v \<Rightarrow> addr set) \<Rightarrow> 'v mem \<Rightarrow> addr \<Rightarrow> addr set" where
  "varF F m a = insert a (case cells m a of Some [v] \<Rightarrow> F m v | _ \<Rightarrow> {})"

definition optV :: "('m \<Rightarrow> 'c \<Rightarrow> 'a option) \<Rightarrow> 'm \<Rightarrow> 'c option \<Rightarrow> 'a option option" where
  "optV V m p = (case p of None \<Rightarrow> Some None | Some c \<Rightarrow> map_option Some (V m c))"

definition optF :: "('m \<Rightarrow> 'c \<Rightarrow> addr set) \<Rightarrow> 'm \<Rightarrow> 'c option \<Rightarrow> addr set" where
  "optF F m p = (case p of None \<Rightarrow> {} | Some c \<Rightarrow> F m c)"

definition pairV ::
  "('m \<Rightarrow> 'c \<Rightarrow> 'a option) \<Rightarrow> ('m \<Rightarrow> 'd \<Rightarrow> 'b option) \<Rightarrow> 'm \<Rightarrow> 'c \<times> 'd \<Rightarrow> ('a \<times> 'b) option" where
  "pairV V W m p = Option.bind (V m (fst p)) (\<lambda>a. map_option (Pair a) (W m (snd p)))"

definition pairF :: "('m \<Rightarrow> 'c \<Rightarrow> addr set) \<Rightarrow> ('m \<Rightarrow> 'd \<Rightarrow> addr set) \<Rightarrow> 'm \<Rightarrow> 'c \<times> 'd \<Rightarrow> addr set" where
  "pairF F G m p = F m (fst p) \<union> G m (snd p)"

fun viewAll :: "('v \<Rightarrow> 'a option) \<Rightarrow> 'v list \<Rightarrow> 'a list option" where
  "viewAll f [] = Some []"
| "viewAll f (v # vs) = Option.bind (f v) (\<lambda>a. map_option ((#) a) (viewAll f vs))"

definition window :: "goslice \<Rightarrow> 'v list \<Rightarrow> 'v list" where
  "window s vs = take (sLen s) (drop (sOff s) vs)"

definition sliceV :: "('v mem \<Rightarrow> 'v \<Rightarrow> 'a option) \<Rightarrow> 'v mem \<Rightarrow> goslice \<Rightarrow> 'a list option" where
  "sliceV V m s =
     (case cells m (sBase s) of
        None \<Rightarrow> None
      | Some vs \<Rightarrow> if sOff s + sLen s \<le> length vs then viewAll (V m) (window s vs) else None)"

definition sliceF :: "('v mem \<Rightarrow> 'v \<Rightarrow> addr set) \<Rightarrow> 'v mem \<Rightarrow> goslice \<Rightarrow> addr set" where
  "sliceF F m s =
     insert (sBase s) (case cells m (sBase s) of None \<Rightarrow> {} | Some vs \<Rightarrow> \<Union> (F m ` set (window s vs)))"

text \<open>A map has each key once.\<close>

definition mapV :: "('v \<Rightarrow> ('k \<times> 'e) list option) \<Rightarrow> 'v mem \<Rightarrow> 'v \<Rightarrow> ('k \<rightharpoonup> 'e) option" where
  "mapV prj m v =
     (case prj v of None \<Rightarrow> None | Some kvs \<Rightarrow> if distinct (map fst kvs) then Some (map_of kvs) else None)"

section \<open>How deep copies compose\<close>

named_theorems copier_intros "deep copies of compound values from those of their parts"

lemma copierI:
  assumes "\<And>m c a. memOk m \<Longrightarrow> V m c = Some a \<Longrightarrow>
      \<exists>c' m'. copy c m = (Ret c', m') \<and> memOk m' \<and> extends m m' \<and> V m' c' = Some a \<and> F m' c' \<subseteq> {lim m ..< lim m'}"
    and "\<And>m m' c a. V m c = Some a \<Longrightarrow> \<forall>x \<in> F m c. cells m' x = cells m x \<Longrightarrow> V m' c = Some a \<and> F m' c = F m c"
    and "\<And>m c a. V m c = Some a \<Longrightarrow> F m c \<subseteq> dom (cells m)"
  shows "copier F V copy"
  using assms by unfold_locales blast+

lemma memOk_fresh: "memOk m \<Longrightarrow> cells m (lim m) = None"
  by (force simp: memOk_def)

lemma alloc_run:
  assumes "memOk m" and "m' = m\<lparr>cells := (cells m)(lim m \<mapsto> vs), lim := Suc (lim m)\<rparr>"
  shows "alloc vs m = (Ret (lim m), m')" "memOk m'" "extends m m'"
    "cells m' (lim m) = Some vs" "lim m' = Suc (lim m)"
  using assms by (auto simp: alloc_def memOk_def extends_def less_Suc_eq)

text \<open>A store into a cell that did not exist at \<open>m\<close> keeps what \<open>m\<close> had.\<close>

lemma storeAt_run:
  assumes "memOk m1" "extends m m1" "lim m \<le> a" "cells m1 a = Some vs" "i < length vs"
    and "m2 = m1\<lparr>cells := (cells m1)(a \<mapsto> vs[i := v])\<rparr>"
  shows "storeAt a i v m1 = (Ret (), m2)" "memOk m2" "extends m m2" "lim m2 = lim m1"
    "cells m2 a = Some (vs[i := v])" "\<And>x. x \<noteq> a \<Longrightarrow> cells m2 x = cells m1 x"
  using assms by (auto simp: storeAt_def memOk_def extends_def)

lemma copier_flat [copier_intros]: "copier (\<lambda>_ _. {}) (\<lambda>_. Some) ret"
  by (rule flat.copier_axioms)

text \<open>Values that are copied by assignment wherever they are recognised.\<close>

lemma copier_ret [copier_intros]: "copier (\<lambda>_ _. {}) (\<lambda>_. prj) ret"
  by (rule copierI) (auto simp: ret_def grows.R_refl)

lemma copier_onCell [copier_intros]:
  assumes "cell_type emb prj" and "copier F V f"
  shows "copier (cellF prj F) (cellV prj V) (onCell emb prj f)"
proof (rule copierI)
  note prj = cell_type.prj_iff [OF assms(1)]
  show "\<exists>v' m'. onCell emb prj f v m = (Ret v', m') \<and> memOk m' \<and> extends m m' \<and>
      cellV prj V m' v' = Some a \<and> cellF prj F m' v' \<subseteq> {lim m ..< lim m'}"
    if "memOk m" and V: "cellV prj V m v = Some a" for m v a
  proof -
    from V obtain e where e: "v = emb e" "V m e = Some a"
      by (auto simp: cellV_def bind_eq_Some_conv prj)
    from copier.copies [OF assms(2) that(1) e(2)] obtain e' m' where
      "f e m = (Ret e', m')" "memOk m'" "extends m m'" "V m' e' = Some a" "F m' e' \<subseteq> {lim m ..< lim m'}" by blast
    moreover from this have "onCell emb prj f v m = (Ret (emb e'), m')"
      by (simp add: e(1) cell_type.onCell_emb [OF assms(1)] bindM_def ret_def)
    ultimately show ?thesis
      by (intro exI [of _ "emb e'"] exI [of _ m'])
        (simp add: cellV_def cellF_def cell_type.prj_emb [OF assms(1)])
  qed
  show "cellV prj V m' v = Some a \<and> cellF prj F m' v = cellF prj F m v"
    if "cellV prj V m v = Some a" "\<forall>x \<in> cellF prj F m v. cells m' x = cells m x" for m m' v a
    using that copier.locality [OF assms(2), of m _ a m'] by (cases "prj v") (simp_all add: cellV_def cellF_def)
  show "cellF prj F m v \<subseteq> dom (cells m)" if "cellV prj V m v = Some a" for m v a
    using that copier.owned [OF assms(2), of m _ a] by (cases "prj v") (simp_all add: cellV_def cellF_def)
qed

lemma copier_whenSome [copier_intros]:
  assumes "copier F V f"
  shows "copier (optF F) (optV V) (whenSome f)"
proof (rule copierI)
  show "\<exists>p' m'. whenSome f p m = (Ret p', m') \<and> memOk m' \<and> extends m m' \<and>
      optV V m' p' = Some a \<and> optF F m' p' \<subseteq> {lim m ..< lim m'}"
    if "memOk m" and V: "optV V m p = Some a" for m p a
  proof (cases p)
    case None
    with that show ?thesis by (auto simp: whenSome_def ret_def optV_def optF_def grows.R_refl)
  next
    case (Some c)
    with V obtain b where b: "V m c = Some b" "a = Some b" by (auto simp: optV_def)
    from copier.copies [OF assms that(1) b(1)] obtain c' m' where
      "f c m = (Ret c', m')" "memOk m'" "extends m m'" "V m' c' = Some b" "F m' c' \<subseteq> {lim m ..< lim m'}" by blast
    with b(2) Some show ?thesis
      by (intro exI [of _ "Some c'"] exI [of _ m'])
        (simp add: whenSome_def bindM_def ret_def optV_def optF_def)
  qed
  show "optV V m' p = Some a \<and> optF F m' p = optF F m p"
    if "optV V m p = Some a" "\<forall>x \<in> optF F m p. cells m' x = cells m x" for m m' p a
    using that copier.locality [OF assms, of m _ _ m'] by (cases p) (fastforce simp: optV_def optF_def)+
  show "optF F m p \<subseteq> dom (cells m)" if "optV V m p = Some a" for m p a
    using that copier.owned [OF assms, of m] by (cases p) (force simp: optV_def optF_def)+
qed

text \<open>Copying one part does not disturb another, neither the original nor the copy made of it.\<close>

lemma copier_pair [copier_intros]:
  assumes f: "copier F V f" and g: "copier G W g"
  shows "copier (pairF F G) (pairV V W) (copyPair f g)"
proof (rule copierI)
  show "\<exists>p' m'. copyPair f g p m = (Ret p', m') \<and> memOk m' \<and> extends m m' \<and>
      pairV V W m' p' = Some x \<and> pairF F G m' p' \<subseteq> {lim m ..< lim m'}"
    if ok: "memOk m" and V: "pairV V W m p = Some x" for m p x
  proof -
    from V obtain a b where ab: "V m (fst p) = Some a" "W m (snd p) = Some b" "x = (a, b)"
      by (auto simp: pairV_def bind_eq_Some_conv)
    from copier.copies [OF f ok ab(1)] obtain c' m1 where
      1: "f (fst p) m = (Ret c', m1)" "memOk m1" "extends m m1" "V m1 c' = Some a" "F m1 c' \<subseteq> {lim m ..< lim m1}" by blast
    have "W m1 (snd p) = Some b" by (rule copier.view_extends(1) [OF g ok 1(3) ab(2)])
    from copier.copies [OF g 1(2) this] obtain d' m2 where
      2: "g (snd p) m1 = (Ret d', m2)" "memOk m2" "extends m1 m2" "W m2 d' = Some b" "G m2 d' \<subseteq> {lim m1 ..< lim m2}" by blast
    have "V m2 c' = Some a" "F m2 c' = F m1 c'"
      using copier.view_extends [OF f 1(2) 2(3) 1(4)] by simp_all
    moreover have "extends m m2" using grows.R_trans 1(3) 2(3) .
    moreover have "lim m \<le> lim m1" "lim m1 \<le> lim m2" using 1(3) 2(3) by (simp_all add: extends_def)
    ultimately show ?thesis using 1 2 ab(3)
      by (intro exI [of _ "(c', d')"] exI [of _ m2])
        (fastforce simp: copyPair_def bindM_def ret_def pairV_def pairF_def)
  qed
  show "pairV V W m' p = Some x \<and> pairF F G m' p = pairF F G m p"
    if "pairV V W m p = Some x" "\<forall>y \<in> pairF F G m p. cells m' y = cells m y" for m m' p x
  proof -
    from that(1) obtain a b where ab: "V m (fst p) = Some a" "W m (snd p) = Some b" "x = (a, b)"
      by (auto simp: pairV_def bind_eq_Some_conv)
    from copier.locality [OF f ab(1), of m'] copier.locality [OF g ab(2), of m'] that(2) ab(3)
    show ?thesis by (simp add: pairV_def pairF_def)
  qed
  show "pairF F G m p \<subseteq> dom (cells m)" if "pairV V W m p = Some x" for m p x
    using that copier.owned [OF f, of m "fst p"] copier.owned [OF g, of m "snd p"]
    by (fastforce simp: pairV_def pairF_def bind_eq_Some_conv)
qed

text \<open>
  A structure: \<open>get\<close> picks the fields that are references or hold some, \<open>put\<close> replaces them,
  and \<open>mk\<close> makes the value of the structure from theirs and from the plain fields.
\<close>

lemma copier_struct:
  assumes f: "copier F V f" and get: "\<And>t c. get (put t c) = t" and mk: "\<And>t c. mk (put t c) = mk c"
  shows "copier (\<lambda>m c. F m (get c)) (\<lambda>m c. map_option (mk c) (V m (get c)))
     (\<lambda>c. bindM (f (get c)) (\<lambda>t. ret (put t c)))"
proof (rule copierI)
  show "\<exists>c' m'. bindM (f (get c)) (\<lambda>t. ret (put t c)) m = (Ret c', m') \<and> memOk m' \<and> extends m m' \<and>
      map_option (mk c') (V m' (get c')) = Some a \<and> F m' (get c') \<subseteq> {lim m ..< lim m'}"
    if ok: "memOk m" and V: "map_option (mk c) (V m (get c)) = Some a" for m c a
  proof -
    from V obtain b where b: "V m (get c) = Some b" "a = mk c b" by auto
    from copier.copies [OF f ok b(1)] obtain t m' where
      "f (get c) m = (Ret t, m')" "memOk m'" "extends m m'" "V m' t = Some b" "F m' t \<subseteq> {lim m ..< lim m'}" by blast
    with b(2) show ?thesis
      by (intro exI [of _ "put t c"] exI [of _ m']) (simp add: bindM_def ret_def get mk)
  qed
qed (use copier.locality [OF f] copier.owned [OF f] in blast)+

subsection \<open>Variables behind a pointer\<close>

lemma copier_newCopy [copier_intros]:
  assumes step: "copier F V step"
  shows "copier (varF F) (varV V) (newCopy z step)"
proof (rule copierI)
  show "\<exists>b m'. newCopy z step a m = (Ret b, m') \<and> memOk m' \<and> extends m m' \<and>
      varV V m' b = Some x \<and> varF F m' b \<subseteq> {lim m ..< lim m'}"
    if ok: "memOk m" and V: "varV V m a = Some x" for m a x
  proof -
    from V obtain v where v: "cells m a = Some [v]" "V m v = Some x"
      by (auto simp: varV_def split: option.splits list.splits)
    let ?b = "lim m"
    obtain m1 where 1: "alloc [z] m = (Ret ?b, m1)" "memOk m1" "extends m m1"
      "cells m1 ?b = Some [z]" "lim m1 = Suc ?b"
      using alloc_run [OF ok refl] by blast
    have "a < lim m" using ok v(1) by (auto simp: memOk_def)
    with 1(3) v(1) have load: "loadAt a 0 m1 = (Ret v, m1)" by (simp add: loadAt_def extends_def)
    from copier.copies [OF step 1(2) copier.view_extends(1) [OF step ok 1(3) v(2)]] obtain v' m2 where
      2: "step v m1 = (Ret v', m2)" "memOk m2" "extends m1 m2" "V m2 v' = Some x" "F m2 v' \<subseteq> {lim m1 ..< lim m2}"
      by blast
    have b2: "cells m2 ?b = Some [z]" "Suc ?b \<le> lim m2" using 2(3) 1(4,5) by (simp_all add: extends_def)
    obtain m3 where 3: "storeAt ?b 0 v' m2 = (Ret (), m3)" "memOk m3" "extends m m3" "lim m3 = lim m2"
      "cells m3 ?b = Some [v']" "\<And>y. y \<noteq> ?b \<Longrightarrow> cells m3 y = cells m2 y"
      using storeAt_run [OF 2(2) grows.R_trans [OF 1(3) 2(3)] order_refl b2(1) _ refl, where i = 0 and v = v'] by auto
    have "V m3 v' = Some x \<and> F m3 v' = F m2 v'"
      by (rule copier.locality [OF step 2(4)]) (use 2(5) 1(5) 3(6) in fastforce)
    with 1 2 3 load b2(2) show ?thesis
      by (intro exI [of _ ?b] exI [of _ m3])
        (fastforce simp: newCopy_def bindM_def ret_def varV_def varF_def)
  qed
  show "varV V m' a = Some x \<and> varF F m' a = varF F m a"
    if "varV V m a = Some x" "\<forall>y \<in> varF F m a. cells m' y = cells m y" for m m' a x
  proof -
    from that(1) obtain v where v: "cells m a = Some [v]" "V m v = Some x"
      by (auto simp: varV_def split: option.splits list.splits)
    with that(2) have "cells m' a = Some [v]" "\<forall>y \<in> F m v. cells m' y = cells m y" by (auto simp: varF_def)
    with copier.locality [OF step v(2), of m'] v(1) show ?thesis by (simp add: varV_def varF_def)
  qed
  show "varF F m a \<subseteq> dom (cells m)" if "varV V m a = Some x" for m a x
    using that copier.owned [OF step, of m]
    by (fastforce simp: varV_def varF_def split: option.splits list.splits)
qed

subsection \<open>Slices\<close>

lemma viewAll_iff: "viewAll f vs = Some as \<longleftrightarrow> list_all2 (\<lambda>v a. f v = Some a) vs as"
  by (induction vs arbitrary: as) (auto simp: bind_eq_Some_conv list_all2_Cons1)

lemma viewed_elem: "list_all2 (\<lambda>v a. f v = Some a) vs as \<Longrightarrow> v \<in> set vs \<Longrightarrow> \<exists>a. f v = Some a"
  by (induction rule: list_all2_induct) auto

text \<open>
  The loop over a slice fills the new array at \<open>b\<close> from the left: after \<open>k\<close> rounds it starts
  with \<open>k\<close> copies that read like the originals and consist of cells newer than the array.
\<close>

definition filled where
  "filled F V m b s z as k m' ws \<longleftrightarrow>
     memOk m' \<and> extends m m' \<and> Suc b \<le> lim m' \<and> cells m' b = Some (ws @ replicate (sLen s - k) z) \<and>
     list_all2 (\<lambda>v a. V m' v = Some a) ws (take k as) \<and> (\<forall>w \<in> set ws. F m' w \<subseteq> {Suc b ..< lim m'})"

lemma filled_store:
  assumes cop: "copier F V step" and IH: "filled F V m b s z as k m' ws"
    and b: "b = lim m" and len: "k < sLen s" "length ws = k" "k < length as"
    and 2: "memOk m2" "extends m' m2" "V m2 v' = Some (as ! k)" "F m2 v' \<subseteq> {lim m' ..< lim m2}"
  shows "\<exists>m3. storeAt b k v' m2 = (Ret (), m3) \<and> filled F V m b s z as (Suc k) m3 (ws @ [v'])"
proof -
  note I = IH [unfolded filled_def, THEN conjunct1] IH [unfolded filled_def, THEN conjunct2]
  have l2: "lim m' \<le> lim m2" and c2: "cells m2 b = Some (ws @ replicate (sLen s - k) z)"
    using 2(2) I(2) by (simp_all add: extends_def)
  have "(ws @ replicate (sLen s - k) z)[k := v'] = (ws @ [v']) @ replicate (sLen s - Suc k) z"
    using len by (simp add: list_update_append Suc_diff_Suc [symmetric])
  with storeAt_run [OF 2(1) grows.R_trans [OF _ 2(2)] eq_refl [OF b [symmetric]] c2 _ refl, where i = k and v = v'] I len
  obtain m3 where 3: "storeAt b k v' m2 = (Ret (), m3)" "memOk m3" "extends m m3" "lim m3 = lim m2"
      "cells m3 b = Some ((ws @ [v']) @ replicate (sLen s - Suc k) z)" "\<And>y. y \<noteq> b \<Longrightarrow> cells m3 y = cells m2 y"
    by auto
  have old: "V m3 w = Some a \<and> F m3 w = F m' w" if "w \<in> set ws" "V m' w = Some a" for w a
  proof -
    have "b \<notin> F m' w" using I(2) that(1) by fastforce
    from copier.survives [OF cop I(1) that(2) 2(2) this 3(6)] show ?thesis by simp
  qed
  have new: "V m3 v' = Some (as ! k) \<and> F m3 v' = F m2 v'"
    by (rule copier.locality [OF cop 2(3)]) (use 2(4) I(2) 3(6) in fastforce)
  have seen: "list_all2 (\<lambda>v a. V m' v = Some a) ws (take k as)" using I(2) by simp
  then have "list_all2 (\<lambda>v a. V m3 v = Some a) ws (take k as)"
    by (rule list.rel_mono_strong) (use old in blast)
  then have "list_all2 (\<lambda>v a. V m3 v = Some a) (ws @ [v']) (take (Suc k) as)"
    using new len by (simp add: take_Suc_conv_app_nth list_all2_appendI)
  moreover have "F m3 w \<subseteq> {Suc b ..< lim m3}" if w: "w \<in> set ws" for w
  proof -
    obtain a where "V m' w = Some a" using viewed_elem [OF seen w] by blast
    with old [OF w] I(2) w l2 3(4) show ?thesis by fastforce
  qed
  moreover have "F m3 v' \<subseteq> {Suc b ..< lim m3}" using new 2(4) I(2) 3(4) by auto
  ultimately show ?thesis using 3 I(2) l2 by (intro exI [of _ m3]) (auto simp: filled_def)
qed

lemma copyLoop_prefix:
  assumes cop: "copier F V step"
    and ok: "memOk m" "filled F V m b s z as 0 m1 []" "b = lim m"
    and src: "cells m (sBase s) = Some vs" "sOff s + sLen s \<le> length vs"
    and as: "list_all2 (\<lambda>v a. V m v = Some a) (window s vs) as"
    and k: "k \<le> sLen s"
  shows "\<exists>m' ws. forAll [0 ..< k] (\<lambda>i. bindM (sliceGet s i) (\<lambda>v. bindM (step v)
        (sliceSet \<lparr>sBase = b, sOff = 0, sLen = sLen s\<rparr> i))) m1 = (Ret (), m') \<and> filled F V m b s z as k m' ws"
  using k
proof (induction k)
  case 0
  then show ?case using ok(2) by (auto simp: ret_def)
next
  case (Suc k)
  let ?out = "\<lparr>sBase = b, sOff = 0, sLen = sLen s\<rparr>"
  from Suc obtain m' ws where run: "forAll [0 ..< k] (\<lambda>i. bindM (sliceGet s i) (\<lambda>v. bindM (step v)
        (sliceSet ?out i))) m1 = (Ret (), m')" and IH: "filled F V m b s z as k m' ws" by auto
  from IH have I: "memOk m'" "extends m m'" "list_all2 (\<lambda>v a. V m' v = Some a) ws (take k as)"
    by (simp_all add: filled_def)
  let ?v = "vs ! (sOff s + k)"
  have len: "length as = sLen s" "length ws = k"
    using list_all2_lengthD [OF as] list_all2_lengthD [OF I(3)] src(2) Suc.prems by (simp_all add: window_def)
  have "sBase s < lim m" using ok(1) src(1) by (auto simp: memOk_def)
  then have get: "sliceGet s k m' = (Ret ?v, m')"
    using Suc.prems src I(2) by (simp add: sliceGet_def loadAt_def extends_def)
  have "V m ?v = Some (as ! k)"
    using list_all2_nthD [OF as, of k] Suc.prems src(2) by (simp add: window_def)
  then have "V m' ?v = Some (as ! k)" by (rule copier.view_extends(1) [OF cop ok(1) I(2)])
  from copier.copies [OF cop I(1) this] obtain v' m2 where
    2: "step ?v m' = (Ret v', m2)" "memOk m2" "extends m' m2" "V m2 v' = Some (as ! k)" "F m2 v' \<subseteq> {lim m' ..< lim m2}"
    by blast
  from filled_store [OF cop IH ok(3) _ len(2) _ 2(2-5)] Suc.prems len(1) obtain m3 where
    3: "storeAt b k v' m2 = (Ret (), m3)" "filled F V m b s z as (Suc k) m3 (ws @ [v'])" by auto
  moreover have "sliceSet ?out k v' m2 = (Ret (), m3)" using 3(1) Suc.prems by (simp add: sliceSet_def)
  ultimately show ?case using run get 2(1)
    by (intro exI [of _ m3] exI [of _ "ws @ [v']"]) (auto simp: forAll_append bindM_eq_Ret ret_def)
qed

lemma copier_slice [copier_intros]:
  assumes step: "copier F V step"
  shows "copier (sliceF F) (sliceV V) (copySlice z step)"
proof (rule copierI)
  have open_view: "\<exists>vs. cells m (sBase s) = Some vs \<and> sOff s + sLen s \<le> length vs \<and>
      list_all2 (\<lambda>v a. V m v = Some a) (window s vs) as" if "sliceV V m s = Some as" for m s as
    using that by (auto simp: sliceV_def viewAll_iff split: option.splits if_splits)
  show "\<exists>t m'. copySlice z step s m = (Ret t, m') \<and> memOk m' \<and> extends m m' \<and>
      sliceV V m' t = Some as \<and> sliceF F m' t \<subseteq> {lim m ..< lim m'}"
    if ok: "memOk m" and V: "sliceV V m s = Some as" for m s as
  proof -
    from open_view [OF V] obtain vs where vs: "cells m (sBase s) = Some vs" "sOff s + sLen s \<le> length vs"
      "list_all2 (\<lambda>v a. V m v = Some a) (window s vs) as" by blast
    obtain m1 where 1: "alloc (replicate (sLen s) z) m = (Ret (lim m), m1)" "memOk m1" "extends m m1"
      "cells m1 (lim m) = Some (replicate (sLen s) z)" "lim m1 = Suc (lim m)"
      using alloc_run [OF ok refl] by blast
    then have "filled F V m (lim m) s z as 0 m1 []" by (simp add: filled_def)
    from copyLoop_prefix [OF step ok this refl vs order_refl] obtain m' ws where
      run: "copyLoop step \<lparr>sBase = lim m, sOff = 0, sLen = sLen s\<rparr> s m1 = (Ret (), m')"
      and fin: "filled F V m (lim m) s z as (sLen s) m' ws" by (auto simp: copyLoop_def)
    have len: "length as = sLen s" using list_all2_lengthD [OF vs(3)] vs(2) by (simp add: window_def)
    with fin have ws: "list_all2 (\<lambda>v a. V m' v = Some a) ws as" "length ws = sLen s"
      using list_all2_lengthD by (force simp: filled_def)+
    have "copySlice z step s m = (Ret \<lparr>sBase = lim m, sOff = 0, sLen = sLen s\<rparr>, m')"
      using 1(1) run by (simp add: copySlice_def makeSlice_def bindM_def ret_def)
    moreover have "F m' w \<subseteq> {lim m ..< lim m'}" if "w \<in> set ws" for w
      using fin that by (fastforce simp: filled_def)
    ultimately show ?thesis using fin ws
      by (intro exI [of _ "\<lparr>sBase = lim m, sOff = 0, sLen = sLen s\<rparr>"] exI [of _ m'])
        (simp add: filled_def sliceV_def sliceF_def window_def viewAll_iff UN_subset_iff)
  qed
  show "sliceV V m' s = Some as \<and> sliceF F m' s = sliceF F m s"
    if "sliceV V m s = Some as" "\<forall>x \<in> sliceF F m s. cells m' x = cells m x" for m m' s as
  proof -
    from open_view [OF that(1)] obtain vs where vs: "cells m (sBase s) = Some vs" "sOff s + sLen s \<le> length vs"
      "list_all2 (\<lambda>v a. V m v = Some a) (window s vs) as" by blast
    have each: "V m' v = Some a \<and> F m' v = F m v" if "v \<in> set (window s vs)" "V m v = Some a" for v a
      by (rule copier.locality [OF step that(2)]) (use \<open>\<forall>x \<in> sliceF F m s. _ x\<close> vs(1) that(1) in \<open>auto simp: sliceF_def\<close>)
    have "list_all2 (\<lambda>v a. V m' v = Some a) (window s vs) as"
      using vs(3) by (rule list.rel_mono_strong) (use each in blast)
    moreover have "F m' v = F m v" if "v \<in> set (window s vs)" for v
      using each [OF that] viewed_elem [OF vs(3) that] by blast
    moreover have "cells m' (sBase s) = Some vs" using that(2) vs(1) by (simp add: sliceF_def)
    ultimately show ?thesis using vs by (simp add: sliceV_def sliceF_def viewAll_iff)
  qed
  show "sliceF F m s \<subseteq> dom (cells m)" if "sliceV V m s = Some as" for m s as
  proof -
    from open_view [OF that] obtain vs where vs: "cells m (sBase s) = Some vs"
      "list_all2 (\<lambda>v a. V m v = Some a) (window s vs) as" by blast
    have "F m v \<subseteq> dom (cells m)" if "v \<in> set (window s vs)" for v
      using copier.owned [OF step] viewed_elem [OF vs(2) that] by blast
    with vs(1) show ?thesis by (auto simp: sliceF_def)
  qed
qed

subsection \<open>Maps\<close>

abbreviation putAll :: "('k \<times> 'e) list \<Rightarrow> ('k \<times> 'e) list \<Rightarrow> ('k \<times> 'e) list" where
  "putAll xs kvs \<equiv> fold (\<lambda>kv. AList.update (fst kv) (snd kv)) xs kvs"

lemma putAll_distinct: "distinct (map fst kvs) \<Longrightarrow> distinct (map fst (putAll xs kvs))"
  by (induction xs arbitrary: kvs) (simp_all add: distinct_update)

lemma map_of_putAll: "distinct (map fst xs) \<Longrightarrow> map_of (putAll xs kvs) = map_of kvs ++ map_of xs"
proof (induction xs arbitrary: kvs)
  case (Cons x xs)
  then have "map_of xs (fst x) = None" by (simp add: map_of_eq_None_iff)
  with Cons show ?case
    by (cases x) (auto simp: update_conv' fun_eq_iff map_add_def split: option.splits)
qed simp

text \<open>Visiting each entry once, in whatever order, rebuilds the map.\<close>

lemma map_of_putAll_permuted:
  assumes "distinct (map fst kvs)" and "mset xs = mset kvs"
  shows "map_of (putAll xs []) = map_of kvs"
proof -
  have "mset (map fst xs) = mset (map fst kvs)" using assms(2) by simp
  then have d: "distinct (map fst xs)" by (rule mset_eq_imp_distinct_iff [THEN iffD2, OF _ assms(1)])
  then have "map_of xs = map_of kvs"
    using map_of_inject_set [OF d assms(1)] mset_eq_setD [OF assms(2)] by blast
  with map_of_putAll [OF d, of "[]"] show ?thesis by simp
qed

lemma mapSet_loop:
  assumes ct: "cell_type emb prj"
  shows "\<lbrakk>memOk m1; extends m m1; lim m \<le> b; cells m1 b = Some [emb kvs]\<rbrakk> \<Longrightarrow>
    \<exists>m'. forAll xs (mapSet emb prj b) m1 = (Ret (), m') \<and> memOk m' \<and> extends m m' \<and> lim m' = lim m1 \<and>
      cells m' b = Some [emb (putAll xs kvs)]"
proof (induction xs arbitrary: m1 kvs)
  case Nil
  then show ?case by (simp add: ret_def)
next
  case (Cons x xs)
  let ?k = "AList.update (fst x) (snd x) kvs"
  from storeAt_run [OF Cons.prems _ refl, where i = 0 and v = "emb ?k"] obtain m2 where
    2: "storeAt b 0 (emb ?k) m1 = (Ret (), m2)" "memOk m2" "extends m m2" "lim m2 = lim m1" "cells m2 b = Some [emb ?k]"
    by auto
  from 2(1) Cons.prems(4) have "mapSet emb prj b x m1 = (Ret (), m2)"
    by (simp add: mapSet_def asType_def loadAt_def bindM_def ret_def cell_type.prj_emb [OF ct])
  with Cons.IH [OF 2(2,3) Cons.prems(3) 2(5)] 2(4) show ?case by (auto simp: bindM_eq_Ret)
qed

lemma copier_map [copier_intros]:
  assumes ct: "cell_type emb prj" and order: "\<And>kvs. distinct (map fst kvs) \<Longrightarrow> mset (order kvs) = mset kvs"
  shows "copier (varF (\<lambda>_ _. {})) (varV (mapV prj)) (copyMap emb prj order)"
proof (rule copierI)
  note prj = cell_type.prj_iff [OF ct] cell_type.prj_emb [OF ct]
  have open_view: "\<exists>kvs. cells m a = Some [emb kvs] \<and> distinct (map fst kvs) \<and> f = map_of kvs"
    if "varV (mapV prj) m a = Some f" for m a f
    using that by (auto simp: varV_def mapV_def prj split: option.splits list.splits if_splits)
  show "\<exists>b m'. copyMap emb prj order a m = (Ret b, m') \<and> memOk m' \<and> extends m m' \<and>
      varV (mapV prj) m' b = Some f \<and> varF (\<lambda>_ _. {}) m' b \<subseteq> {lim m ..< lim m'}"
    if ok: "memOk m" and V: "varV (mapV prj) m a = Some f" for m a f
  proof -
    from open_view [OF V] obtain kvs where kvs: "cells m a = Some [emb kvs]" "distinct (map fst kvs)" "f = map_of kvs"
      by blast
    obtain m1 where 1: "alloc [emb []] m = (Ret (lim m), m1)" "memOk m1" "extends m m1"
      "cells m1 (lim m) = Some [emb []]" "lim m1 = Suc (lim m)"
      using alloc_run [OF ok refl] by blast
    have "a < lim m" using ok kvs(1) by (auto simp: memOk_def)
    with 1(3) kvs(1) have load: "loadAt a 0 m1 = (Ret (emb kvs), m1)" by (simp add: loadAt_def extends_def)
    from mapSet_loop [OF ct 1(2,3) order_refl 1(4)] obtain m' where
      2: "forAll (order kvs) (mapSet emb prj (lim m)) m1 = (Ret (), m')" "memOk m'" "extends m m'" "lim m' = lim m1"
        "cells m' (lim m) = Some [emb (putAll (order kvs) [])]" by blast
    from 1(1) load 2(1) have "copyMap emb prj order a m = (Ret (lim m), m')"
      by (simp add: copyMap_def bindM_def ret_def asType_def prj)
    with 2 1(5) show ?thesis
      by (intro exI [of _ "lim m"] exI [of _ m'])
        (simp add: varV_def varF_def mapV_def prj putAll_distinct kvs(3) map_of_putAll_permuted [OF kvs(2) order [OF kvs(2)]])
  qed
  show "varV (mapV prj) m' a = Some f \<and> varF (\<lambda>_ _. {}) m' a = varF (\<lambda>_ _. {}) m a"
    if "varV (mapV prj) m a = Some f" "\<forall>x \<in> varF (\<lambda>_ _. {}) m a. cells m' x = cells m x" for m m' a f
    using that by (auto simp: varV_def varF_def mapV_def split: option.splits list.splits)
  show "varF (\<lambda>_ _. {}) m a \<subseteq> dom (cells m)" if "varV (mapV prj) m a = Some f" for m a f
    using open_view [OF that] by (auto simp: varF_def)
qed

end
