(* ===== verification/Deep_Copy.thy ===== *)
theory Deep_Copy
  imports Go_Memory Api_Types
begin

text \<open>
  The generated copy functions of \<open>src/api/v1alpha1/zz_generated.deepcopy.go\<close>, over the memory
  model of \<open>Go_Memory\<close>.

  \<^item> The resource types as they lie in memory (\<open>mem\<dots>\<close>): a pointer or map field is an address
    or nil, a slice field a window of an array or nil. The structures of other packages that are
    embedded in them (\<open>ObjectMeta\<close>, \<open>ResourceRequirements\<close> and so on) are of an arbitrary type \<open>'x\<close>;
    their own copy functions are parameters, with deep copying as their documented behaviour.
  \<^item> \<open>DeepCopyInto_T\<close> maps the fields of the receiver to the fields \<open>*out\<close> has afterwards. Every
    body starts with \<open>*out = *in\<close>, so the earlier content of \<open>*out\<close> plays no part.
  \<^item> \<open>DeepCopy_T\<close> and \<open>DeepCopyObject\<close> work on pointers.
  \<^item> What a structure in memory means is the record of \<open>Api_Types\<close> that the controllers are
    modelled with, together with what that record does not show: the API version and
    which slices are nil rather than empty.
\<close>

section \<open>The resource types in memory\<close>

record 'x memPodTemplate =
  mImage :: string
  mImagePullPolicy :: string
  mImagePullSecrets :: "goslice option"
  mResources :: 'x
  mCertificates :: directorySecrets
  mVolumeClaimSpec :: 'x
  mScriptConfigMapName :: string
  mInitEnvFrom :: "goslice option"
  mEnv :: "goslice option"
  mEnvFrom :: "goslice option"
  mVolumeSnapshotClassName :: string
  mServiceAccountName :: string

record 'x memProxy =
  mpEnabled :: bool
  mpImage :: string
  mpReplicas :: int32
  mpPrimaryGroupID :: string
  mpResources :: 'x

record 'x memServiceSpec =
  msLabels :: ptr
  msPodTemplate :: "'x memPodTemplate"
  msReplicas :: ptr
  msPasswords :: ptr
  msSnapshots :: directorySnapshotSpec
  msProxy :: "'x memProxy"

record memServiceStatus =
  msActive :: "goslice option"
  msCurrentReplicas :: ptr
  msServerMessage :: string
  msProxyStatus :: directoryProxyStatus
  msSnapshotStatus :: snapshotStatus

record typeMeta =
  tmKind :: string
  tmAPIVersion :: string

record 'x memService =
  msTypeMeta :: typeMeta
  msObjectMeta :: 'x
  msSpec :: "'x memServiceSpec"
  msStatus :: memServiceStatus

record 'x memServiceList =
  slTypeMeta :: typeMeta
  slListMeta :: 'x
  slItems :: "goslice option"

record memBackupStatus =
  mbStartTimestamp :: ptr
  mbCompletionTimestamp :: ptr

record 'x memBackupSpec =
  mbPodTemplate :: "'x memPodTemplate"
  mbClaimToBackup :: string

record 'x memBackup =
  mbTypeMeta :: typeMeta
  mbObjectMeta :: 'x
  mbSpec :: "'x memBackupSpec"
  mbStatus :: memBackupStatus

record 'x memBackupList =
  blTypeMeta :: typeMeta
  blListMeta :: 'x
  blItems :: "goslice option"

record memRestoreStatus =
  mrStartTimestamp :: ptr
  mrCompletionTimestamp :: ptr

record 'x memRestoreSpec =
  mrPodTemplate :: "'x memPodTemplate"
  mrSourcePVCName :: string

record 'x memRestore =
  mrTypeMeta :: typeMeta
  mrObjectMeta :: 'x
  mrSpec :: "'x memRestoreSpec"
  mrStatus :: memRestoreStatus

record 'x memRestoreList =
  rlTypeMeta :: typeMeta
  rlListMeta :: 'x
  rlItems :: "goslice option"

text \<open>
  What a cell can hold. \<open>Ref\<close> stands for the plain structures \<open>LocalObjectReference\<close> and
  \<open>ObjectReference\<close>, \<open>Ext\<close> for the structures of other packages.
\<close>

datatype 'x goval =
    VExt 'x
  | VInt32 int32
  | VRef string
  | VLabels "(string \<times> string) list"
  | VPasswords "(string \<times> directoryPasswords) list"
  | VBackupStatus memBackupStatus
  | VBackup "'x memBackup"
  | VBackupList "'x memBackupList"
  | VBackupSpec "'x memBackupSpec"
  | VKeystores directoryKeystores
  | VPassword directoryPasswords
  | VPodTemplate "'x memPodTemplate"
  | VProxy "'x memProxy"
  | VProxyStatus directoryProxyStatus
  | VRestore "'x memRestore"
  | VRestoreList "'x memRestoreList"
  | VRestoreSpec "'x memRestoreSpec"
  | VRestoreStatus memRestoreStatus
  | VSecrets directorySecrets
  | VService "'x memService"
  | VServiceList "'x memServiceList"
  | VServiceSpec "'x memServiceSpec"
  | VServiceStatus memServiceStatus
  | VSnapshotSpec directorySnapshotSpec
  | VSnapshotStatus snapshotStatus
  | VTrustStore trustStore

definition asExt :: "'x goval \<Rightarrow> 'x option" where
  "asExt v = (case v of VExt x \<Rightarrow> Some x | _ \<Rightarrow> None)"

definition asInt32 :: "'x goval \<Rightarrow> int32 option" where
  "asInt32 v = (case v of VInt32 x \<Rightarrow> Some x | _ \<Rightarrow> None)"

definition asRef :: "'x goval \<Rightarrow> string option" where
  "asRef v = (case v of VRef x \<Rightarrow> Some x | _ \<Rightarrow> None)"

definition asLabels :: "'x goval \<Rightarrow> ((string \<times> string) list) option" where
  "asLabels v = (case v of VLabels x \<Rightarrow> Some x | _ \<Rightarrow> None)"

definition asPasswords :: "'x goval \<Rightarrow> ((string \<times> directoryPasswords) list) option" where
  "asPasswords v = (case v of VPasswords x \<Rightarrow> Some x | _ \<Rightarrow> None)"

definition asBackupStatus :: "'x goval \<Rightarrow> memBackupStatus option" where
  "asBackupStatus v = (case v of VBackupStatus x \<Rightarrow> Some x | _ \<Rightarrow> None)"

definition asBackup :: "'x goval \<Rightarrow> 'x memBackup option" where
  "asBackup v = (case v of VBackup x \<Rightarrow> Some x | _ \<Rightarrow> None)"

definition asBackupList :: "'x goval \<Rightarrow> 'x memBackupList option" where
  "asBackupList v = (case v of VBackupList x \<Rightarrow> Some x | _ \<Rightarrow> None)"

definition asBackupSpec :: "'x goval \<Rightarrow> 'x memBackupSpec option" where
  "asBackupSpec v = (case v of VBackupSpec x \<Rightarrow> Some x | _ \<Rightarrow> None)"

definition asKeystores :: "'x goval \<Rightarrow> directoryKeystores option" where
  "asKeystores v = (case v of VKeystores x \<Rightarrow> Some x | _ \<Rightarrow> None)"

definition asPassword :: "'x goval \<Rightarrow> directoryPasswords option" where
  "asPassword v = (case v of VPassword x \<Rightarrow> Some x | _ \<Rightarrow> None)"

definition asPodTemplate :: "'x goval \<Rightarrow> 'x memPodTemplate option" where
  "asPodTemplate v = (case v of VPodTemplate x \<Rightarrow> Some x | _ \<Rightarrow> None)"

definition asProxy :: "'x goval \<Rightarrow> 'x memProxy option" where
  "asProxy v = (case v of VProxy x \<Rightarrow> Some x | _ \<Rightarrow> None)"

definition asProxyStatus :: "'x goval \<Rightarrow> directoryProxyStatus option" where
  "asProxyStatus v = (case v of VProxyStatus x \<Rightarrow> Some x | _ \<Rightarrow> None)"

definition asRestore :: "'x goval \<Rightarrow> 'x memRestore option" where
  "asRestore v = (case v of VRestore x \<Rightarrow> Some x | _ \<Rightarrow> None)"

definition asRestoreList :: "'x goval \<Rightarrow> 'x memRestoreList option" where
  "asRestoreList v = (case v of VRestoreList x \<Rightarrow> Some x | _ \<Rightarrow> None)"

definition asRestoreSpec :: "'x goval \<Rightarrow> 'x memRestoreSpec option" where
  "asRestoreSpec v = (case v of VRestoreSpec x \<Rightarrow> Some x | _ \<Rightarrow> None)"

definition asRestoreStatus :: "'x goval \<Rightarrow> memRestoreStatus option" where
  "asRestoreStatus v = (case v of VRestoreStatus x \<Rightarrow> Some x | _ \<Rightarrow> None)"

definition asSecrets :: "'x goval \<Rightarrow> directorySecrets option" where
  "asSecrets v = (case v of VSecrets x \<Rightarrow> Some x | _ \<Rightarrow> None)"

definition asService :: "'x goval \<Rightarrow> 'x memService option" where
  "asService v = (case v of VService x \<Rightarrow> Some x | _ \<Rightarrow> None)"

definition asServiceList :: "'x goval \<Rightarrow> 'x memServiceList option" where
  "asServiceList v = (case v of VServiceList x \<Rightarrow> Some x | _ \<Rightarrow> None)"

definition asServiceSpec :: "'x goval \<Rightarrow> 'x memServiceSpec option" where
  "asServiceSpec v = (case v of VServiceSpec x \<Rightarrow> Some x | _ \<Rightarrow> None)"

definition asServiceStatus :: "'x goval \<Rightarrow> memServiceStatus option" where
  "asServiceStatus v = (case v of VServiceStatus x \<Rightarrow> Some x | _ \<Rightarrow> None)"

definition asSnapshotSpec :: "'x goval \<Rightarrow> directorySnapshotSpec option" where
  "asSnapshotSpec v = (case v of VSnapshotSpec x \<Rightarrow> Some x | _ \<Rightarrow> None)"

definition asSnapshotStatus :: "'x goval \<Rightarrow> snapshotStatus option" where
  "asSnapshotStatus v = (case v of VSnapshotStatus x \<Rightarrow> Some x | _ \<Rightarrow> None)"

definition asTrustStore :: "'x goval \<Rightarrow> trustStore option" where
  "asTrustStore v = (case v of VTrustStore x \<Rightarrow> Some x | _ \<Rightarrow> None)"

interpretation cExt: cell_type VExt asExt
  by unfold_locales (auto simp: asExt_def split: goval.splits)

interpretation cInt32: cell_type VInt32 asInt32
  by unfold_locales (auto simp: asInt32_def split: goval.splits)

interpretation cRef: cell_type VRef asRef
  by unfold_locales (auto simp: asRef_def split: goval.splits)

interpretation cLabels: cell_type VLabels asLabels
  by unfold_locales (auto simp: asLabels_def split: goval.splits)

interpretation cPasswords: cell_type VPasswords asPasswords
  by unfold_locales (auto simp: asPasswords_def split: goval.splits)

interpretation cBackupStatus: cell_type VBackupStatus asBackupStatus
  by unfold_locales (auto simp: asBackupStatus_def split: goval.splits)

interpretation cBackup: cell_type VBackup asBackup
  by unfold_locales (auto simp: asBackup_def split: goval.splits)

interpretation cBackupList: cell_type VBackupList asBackupList
  by unfold_locales (auto simp: asBackupList_def split: goval.splits)

interpretation cBackupSpec: cell_type VBackupSpec asBackupSpec
  by unfold_locales (auto simp: asBackupSpec_def split: goval.splits)

interpretation cKeystores: cell_type VKeystores asKeystores
  by unfold_locales (auto simp: asKeystores_def split: goval.splits)

interpretation cPassword: cell_type VPassword asPassword
  by unfold_locales (auto simp: asPassword_def split: goval.splits)

interpretation cPodTemplate: cell_type VPodTemplate asPodTemplate
  by unfold_locales (auto simp: asPodTemplate_def split: goval.splits)

interpretation cProxy: cell_type VProxy asProxy
  by unfold_locales (auto simp: asProxy_def split: goval.splits)

interpretation cProxyStatus: cell_type VProxyStatus asProxyStatus
  by unfold_locales (auto simp: asProxyStatus_def split: goval.splits)

interpretation cRestore: cell_type VRestore asRestore
  by unfold_locales (auto simp: asRestore_def split: goval.splits)

interpretation cRestoreList: cell_type VRestoreList asRestoreList
  by unfold_locales (auto simp: asRestoreList_def split: goval.splits)

interpretation cRestoreSpec: cell_type VRestoreSpec asRestoreSpec
  by unfold_locales (auto simp: asRestoreSpec_def split: goval.splits)

interpretation cRestoreStatus: cell_type VRestoreStatus asRestoreStatus
  by unfold_locales (auto simp: asRestoreStatus_def split: goval.splits)

interpretation cSecrets: cell_type VSecrets asSecrets
  by unfold_locales (auto simp: asSecrets_def split: goval.splits)

interpretation cService: cell_type VService asService
  by unfold_locales (auto simp: asService_def split: goval.splits)

interpretation cServiceList: cell_type VServiceList asServiceList
  by unfold_locales (auto simp: asServiceList_def split: goval.splits)

interpretation cServiceSpec: cell_type VServiceSpec asServiceSpec
  by unfold_locales (auto simp: asServiceSpec_def split: goval.splits)

interpretation cServiceStatus: cell_type VServiceStatus asServiceStatus
  by unfold_locales (auto simp: asServiceStatus_def split: goval.splits)

interpretation cSnapshotSpec: cell_type VSnapshotSpec asSnapshotSpec
  by unfold_locales (auto simp: asSnapshotSpec_def split: goval.splits)

interpretation cSnapshotStatus: cell_type VSnapshotStatus asSnapshotStatus
  by unfold_locales (auto simp: asSnapshotStatus_def split: goval.splits)

interpretation cTrustStore: cell_type VTrustStore asTrustStore
  by unfold_locales (auto simp: asTrustStore_def split: goval.splits)

type_synonym 'x gomem = "'x goval mem"

section \<open>What other packages provide\<close>

text \<open>
  Zero values, copy functions and, last, the order in which \<open>range\<close> visits the two kinds of
  map. \<open>Time.DeepCopy\<close> is only called on pointers that are not nil.
\<close>

record 'x thirdParty =
  zeroObjectMeta :: 'x
  zeroListMeta :: 'x
  zeroResources :: 'x
  zeroVolumeClaimSpec :: 'x
  zeroEnvFromSource :: 'x
  zeroEnvVar :: 'x
  Time_DeepCopy :: "addr \<Rightarrow> ('x gomem, addr) M"
  ObjectMeta_DeepCopyInto :: "'x \<Rightarrow> ('x gomem, 'x) M"
  ListMeta_DeepCopyInto :: "'x \<Rightarrow> ('x gomem, 'x) M"
  ResourceRequirements_DeepCopyInto :: "'x \<Rightarrow> ('x gomem, 'x) M"
  PersistentVolumeClaimSpec_DeepCopyInto :: "'x \<Rightarrow> ('x gomem, 'x) M"
  EnvFromSource_DeepCopyInto :: "'x \<Rightarrow> ('x gomem, 'x) M"
  EnvVar_DeepCopyInto :: "'x \<Rightarrow> ('x gomem, 'x) M"
  rangeLabels :: "(string \<times> string) list \<Rightarrow> (string \<times> string) list"
  rangePasswords :: "(string \<times> directoryPasswords) list \<Rightarrow> (string \<times> directoryPasswords) list"

section \<open>Zero values\<close>

definition zeroTypeMeta :: typeMeta where
  "zeroTypeMeta = \<lparr>tmKind = '''', tmAPIVersion = ''''\<rparr>"

definition zeroSecrets :: directorySecrets where
  "zeroSecrets = \<lparr>MasterSecretName = '''', SSLSecretName = '''', TruststoreSecretName = ''''\<rparr>"

definition zeroSnapshotSpec :: directorySnapshotSpec where
  "zeroSnapshotSpec = \<lparr>snapEnabled = False, PeriodMinutes = 0, SnapshotsRetained = 0, DirectoryInstance = 0\<rparr>"

definition zeroSnapshotStatus :: snapshotStatus where
  "zeroSnapshotStatus = \<lparr>LastSnapshotTimeStamp = 0\<rparr>"

definition zeroProxyStatus :: directoryProxyStatus where
  "zeroProxyStatus = \<lparr>statusReplicas = 0, statusReadyReplicas = 0, proxyServerMessage = ''''\<rparr>"

definition zeroPod :: "'x thirdParty \<Rightarrow> 'x memPodTemplate" where
  "zeroPod tp = \<lparr>mImage = '''', mImagePullPolicy = '''', mImagePullSecrets = None, mResources = zeroResources tp,
     mCertificates = zeroSecrets, mVolumeClaimSpec = zeroVolumeClaimSpec tp, mScriptConfigMapName = '''',
     mInitEnvFrom = None, mEnv = None, mEnvFrom = None, mVolumeSnapshotClassName = '''', mServiceAccountName = ''''\<rparr>"

definition zeroProxy :: "'x thirdParty \<Rightarrow> 'x memProxy" where
  "zeroProxy tp = \<lparr>mpEnabled = False, mpImage = '''', mpReplicas = 0, mpPrimaryGroupID = '''', mpResources = zeroResources tp\<rparr>"

definition zeroServiceSpec :: "'x thirdParty \<Rightarrow> 'x memServiceSpec" where
  "zeroServiceSpec tp = \<lparr>msLabels = None, msPodTemplate = zeroPod tp, msReplicas = None, msPasswords = None,
     msSnapshots = zeroSnapshotSpec, msProxy = zeroProxy tp\<rparr>"

definition zeroServiceStatus :: memServiceStatus where
  "zeroServiceStatus = \<lparr>msActive = None, msCurrentReplicas = None, msServerMessage = '''',
     msProxyStatus = zeroProxyStatus, msSnapshotStatus = zeroSnapshotStatus\<rparr>"

definition zeroDirectoryService :: "'x thirdParty \<Rightarrow> 'x memService" where
  "zeroDirectoryService tp = \<lparr>msTypeMeta = zeroTypeMeta, msObjectMeta = zeroObjectMeta tp, msSpec = zeroServiceSpec tp,
     msStatus = zeroServiceStatus\<rparr>"

definition zeroServiceList :: "'x thirdParty \<Rightarrow> 'x memServiceList" where
  "zeroServiceList tp = \<lparr>slTypeMeta = zeroTypeMeta, slListMeta = zeroListMeta tp, slItems = None\<rparr>"

definition zeroBackupStatus :: memBackupStatus where
  "zeroBackupStatus = \<lparr>mbStartTimestamp = None, mbCompletionTimestamp = None\<rparr>"

definition zeroBackupSpec :: "'x thirdParty \<Rightarrow> 'x memBackupSpec" where
  "zeroBackupSpec tp = \<lparr>mbPodTemplate = zeroPod tp, mbClaimToBackup = ''''\<rparr>"

definition zeroBackup :: "'x thirdParty \<Rightarrow> 'x memBackup" where
  "zeroBackup tp = \<lparr>mbTypeMeta = zeroTypeMeta, mbObjectMeta = zeroObjectMeta tp, mbSpec = zeroBackupSpec tp,
     mbStatus = zeroBackupStatus\<rparr>"

definition zeroBackupList :: "'x thirdParty \<Rightarrow> 'x memBackupList" where
  "zeroBackupList tp = \<lparr>blTypeMeta = zeroTypeMeta, blListMeta = zeroListMeta tp, blItems = None\<rparr>"

definition zeroRestoreStatus :: memRestoreStatus where
  "zeroRestoreStatus = \<lparr>mrStartTimestamp = None, mrCompletionTimestamp = None\<rparr>"

definition zeroRestoreSpec :: "'x thirdParty \<Rightarrow> 'x memRestoreSpec" where
  "zeroRestoreSpec tp = \<lparr>mrPodTemplate = zeroPod tp, mrSourcePVCName = ''''\<rparr>"

definition zeroRestore :: "'x thirdParty \<Rightarrow> 'x memRestore" where
  "zeroRestore tp = \<lparr>mrTypeMeta = zeroTypeMeta, mrObjectMeta = zeroObjectMeta tp, mrSpec = zeroRestoreSpec tp,
     mrStatus = zeroRestoreStatus\<rparr>"

definition zeroRestoreList :: "'x thirdParty \<Rightarrow> 'x memRestoreList" where
  "zeroRestoreList tp = \<lparr>rlTypeMeta = zeroTypeMeta, rlListMeta = zeroListMeta tp, rlItems = None\<rparr>"

section \<open>Copying into a structure\<close>

text \<open>\<open>*out = make([]T, len(*in))\<close> and the loop over the elements, for the slices in use.\<close>

definition copyEnvFrom :: "'x thirdParty \<Rightarrow> goslice \<Rightarrow> ('x gomem, goslice) M" where
  "copyEnvFrom tp = copySlice (VExt (zeroEnvFromSource tp)) (onCell VExt asExt (EnvFromSource_DeepCopyInto tp))"

definition copyEnv :: "'x thirdParty \<Rightarrow> goslice \<Rightarrow> ('x gomem, goslice) M" where
  "copyEnv tp = copySlice (VExt (zeroEnvVar tp)) (onCell VExt asExt (EnvVar_DeepCopyInto tp))"

text \<open>\<open>*out = make([]T, len(*in)); copy(*out, *in)\<close>\<close>

definition copyRefs :: "goslice \<Rightarrow> ('x gomem, goslice) M" where
  "copyRefs = copySlice (VRef '''') ret"

text \<open>\<open>*out = new(int32); **out = **in\<close>\<close>

definition copyInt32 :: "addr \<Rightarrow> ('x gomem, addr) M" where
  "copyInt32 = newCopy (VInt32 0) ret"

definition DeepCopyInto_BackupStatus ::
  "'x thirdParty \<Rightarrow> memBackupStatus \<Rightarrow> ('x gomem, memBackupStatus) M" where
  "DeepCopyInto_BackupStatus tp inn =
     (let out = inn in
      bindM (copyField (mbStartTimestamp inn) out (Time_DeepCopy tp) (\<lambda>t. out\<lparr>mbStartTimestamp := Some t\<rparr>)) (\<lambda>out.
      copyField (mbCompletionTimestamp inn) out (Time_DeepCopy tp) (\<lambda>t. out\<lparr>mbCompletionTimestamp := Some t\<rparr>)))"

definition DeepCopyInto_DirectoryPodTemplate ::
  "'x thirdParty \<Rightarrow> 'x memPodTemplate \<Rightarrow> ('x gomem, 'x memPodTemplate) M" where
  "DeepCopyInto_DirectoryPodTemplate tp inn =
     (let out = inn in
      bindM (copyField (mImagePullSecrets inn) out copyRefs (\<lambda>s. out\<lparr>mImagePullSecrets := Some s\<rparr>)) (\<lambda>out.
      bindM (ResourceRequirements_DeepCopyInto tp (mResources inn)) (\<lambda>r. let out = out\<lparr>mResources := r\<rparr> in
      let out = out\<lparr>mCertificates := mCertificates inn\<rparr> in
      bindM (PersistentVolumeClaimSpec_DeepCopyInto tp (mVolumeClaimSpec inn)) (\<lambda>v. let out = out\<lparr>mVolumeClaimSpec := v\<rparr> in
      bindM (copyField (mInitEnvFrom inn) out (copyEnvFrom tp) (\<lambda>s. out\<lparr>mInitEnvFrom := Some s\<rparr>)) (\<lambda>out.
      bindM (copyField (mEnv inn) out (copyEnv tp) (\<lambda>s. out\<lparr>mEnv := Some s\<rparr>)) (\<lambda>out.
      copyField (mEnvFrom inn) out (copyEnvFrom tp) (\<lambda>s. out\<lparr>mEnvFrom := Some s\<rparr>)))))))"

definition DeepCopyInto_DirectoryBackupSpec ::
  "'x thirdParty \<Rightarrow> 'x memBackupSpec \<Rightarrow> ('x gomem, 'x memBackupSpec) M" where
  "DeepCopyInto_DirectoryBackupSpec tp inn =
     (let out = inn in
      bindM (DeepCopyInto_DirectoryPodTemplate tp (mbPodTemplate inn)) (\<lambda>p. ret (out\<lparr>mbPodTemplate := p\<rparr>)))"

definition DeepCopyInto_DirectoryBackup ::
  "'x thirdParty \<Rightarrow> 'x memBackup \<Rightarrow> ('x gomem, 'x memBackup) M" where
  "DeepCopyInto_DirectoryBackup tp inn =
     (let out = inn in
      let out = out\<lparr>mbTypeMeta := mbTypeMeta inn\<rparr> in
      bindM (ObjectMeta_DeepCopyInto tp (mbObjectMeta inn)) (\<lambda>x. let out = out\<lparr>mbObjectMeta := x\<rparr> in
      bindM (DeepCopyInto_DirectoryBackupSpec tp (mbSpec inn)) (\<lambda>s. let out = out\<lparr>mbSpec := s\<rparr> in
      bindM (DeepCopyInto_BackupStatus tp (mbStatus inn)) (\<lambda>s. ret (out\<lparr>mbStatus := s\<rparr>)))))"

definition DeepCopyInto_DirectoryBackupList ::
  "'x thirdParty \<Rightarrow> 'x memBackupList \<Rightarrow> ('x gomem, 'x memBackupList) M" where
  "DeepCopyInto_DirectoryBackupList tp inn =
     (let out = inn in
      let out = out\<lparr>blTypeMeta := blTypeMeta inn\<rparr> in
      bindM (ListMeta_DeepCopyInto tp (blListMeta inn)) (\<lambda>x. let out = out\<lparr>blListMeta := x\<rparr> in
      copyField (blItems inn) out
        (copySlice (VBackup (zeroBackup tp)) (onCell VBackup asBackup (DeepCopyInto_DirectoryBackup tp)))
        (\<lambda>s. out\<lparr>blItems := Some s\<rparr>)))"

text \<open>Structures without references: \<open>*out = *in\<close> is all there is.\<close>

definition DeepCopyInto_DirectoryKeystores :: "directoryKeystores \<Rightarrow> ('w, directoryKeystores) M" where
  "DeepCopyInto_DirectoryKeystores inn = ret inn"

definition DeepCopyInto_DirectoryPasswords :: "directoryPasswords \<Rightarrow> ('w, directoryPasswords) M" where
  "DeepCopyInto_DirectoryPasswords inn = ret inn"

definition DeepCopyInto_DirectoryProxy ::
  "'x thirdParty \<Rightarrow> 'x memProxy \<Rightarrow> ('x gomem, 'x memProxy) M" where
  "DeepCopyInto_DirectoryProxy tp inn =
     (let out = inn in
      bindM (ResourceRequirements_DeepCopyInto tp (mpResources inn)) (\<lambda>r. ret (out\<lparr>mpResources := r\<rparr>)))"

definition DeepCopyInto_DirectoryProxyStatus :: "directoryProxyStatus \<Rightarrow> ('w, directoryProxyStatus) M" where
  "DeepCopyInto_DirectoryProxyStatus inn = ret inn"

definition DeepCopyInto_DirectoryRestoreSpec ::
  "'x thirdParty \<Rightarrow> 'x memRestoreSpec \<Rightarrow> ('x gomem, 'x memRestoreSpec) M" where
  "DeepCopyInto_DirectoryRestoreSpec tp inn =
     (let out = inn in
      bindM (DeepCopyInto_DirectoryPodTemplate tp (mrPodTemplate inn)) (\<lambda>p. ret (out\<lparr>mrPodTemplate := p\<rparr>)))"

definition DeepCopyInto_DirectoryRestoreStatus ::
  "'x thirdParty \<Rightarrow> memRestoreStatus \<Rightarrow> ('x gomem, memRestoreStatus) M" where
  "DeepCopyInto_DirectoryRestoreStatus tp inn =
     (let out = inn in
      bindM (copyField (mrStartTimestamp inn) out (Time_DeepCopy tp) (\<lambda>t. out\<lparr>mrStartTimestamp := Some t\<rparr>)) (\<lambda>out.
      copyField (mrCompletionTimestamp inn) out (Time_DeepCopy tp) (\<lambda>t. out\<lparr>mrCompletionTimestamp := Some t\<rparr>)))"

definition DeepCopyInto_DirectoryRestore ::
  "'x thirdParty \<Rightarrow> 'x memRestore \<Rightarrow> ('x gomem, 'x memRestore) M" where
  "DeepCopyInto_DirectoryRestore tp inn =
     (let out = inn in
      let out = out\<lparr>mrTypeMeta := mrTypeMeta inn\<rparr> in
      bindM (ObjectMeta_DeepCopyInto tp (mrObjectMeta inn)) (\<lambda>x. let out = out\<lparr>mrObjectMeta := x\<rparr> in
      bindM (DeepCopyInto_DirectoryRestoreSpec tp (mrSpec inn)) (\<lambda>s. let out = out\<lparr>mrSpec := s\<rparr> in
      bindM (DeepCopyInto_DirectoryRestoreStatus tp (mrStatus inn)) (\<lambda>s. ret (out\<lparr>mrStatus := s\<rparr>)))))"

definition DeepCopyInto_DirectoryRestoreList ::
  "'x thirdParty \<Rightarrow> 'x memRestoreList \<Rightarrow> ('x gomem, 'x memRestoreList) M" where
  "DeepCopyInto_DirectoryRestoreList tp inn =
     (let out = inn in
      let out = out\<lparr>rlTypeMeta := rlTypeMeta inn\<rparr> in
      bindM (ListMeta_DeepCopyInto tp (rlListMeta inn)) (\<lambda>x. let out = out\<lparr>rlListMeta := x\<rparr> in
      copyField (rlItems inn) out
        (copySlice (VRestore (zeroRestore tp)) (onCell VRestore asRestore (DeepCopyInto_DirectoryRestore tp)))
        (\<lambda>s. out\<lparr>rlItems := Some s\<rparr>)))"

definition DeepCopyInto_DirectorySecrets :: "directorySecrets \<Rightarrow> ('w, directorySecrets) M" where
  "DeepCopyInto_DirectorySecrets inn = ret inn"

definition DeepCopyInto_DirectoryServiceSpec ::
  "'x thirdParty \<Rightarrow> 'x memServiceSpec \<Rightarrow> ('x gomem, 'x memServiceSpec) M" where
  "DeepCopyInto_DirectoryServiceSpec tp inn =
     (let out = inn in
      bindM (copyField (msLabels inn) out (copyMap VLabels asLabels (rangeLabels tp))
        (\<lambda>a. out\<lparr>msLabels := Some a\<rparr>)) (\<lambda>out.
      bindM (DeepCopyInto_DirectoryPodTemplate tp (msPodTemplate inn)) (\<lambda>p. let out = out\<lparr>msPodTemplate := p\<rparr> in
      bindM (copyField (msReplicas inn) out copyInt32 (\<lambda>a. out\<lparr>msReplicas := Some a\<rparr>)) (\<lambda>out.
      bindM (copyField (msPasswords inn) out (copyMap VPasswords asPasswords (rangePasswords tp))
        (\<lambda>a. out\<lparr>msPasswords := Some a\<rparr>)) (\<lambda>out.
      let out = out\<lparr>msSnapshots := msSnapshots inn\<rparr> in
      bindM (DeepCopyInto_DirectoryProxy tp (msProxy inn)) (\<lambda>p. ret (out\<lparr>msProxy := p\<rparr>)))))))"

definition DeepCopyInto_DirectoryServiceStatus ::
  "memServiceStatus \<Rightarrow> ('x gomem, memServiceStatus) M" where
  "DeepCopyInto_DirectoryServiceStatus inn =
     (let out = inn in
      bindM (copyField (msActive inn) out copyRefs (\<lambda>s. out\<lparr>msActive := Some s\<rparr>)) (\<lambda>out.
      bindM (copyField (msCurrentReplicas inn) out copyInt32 (\<lambda>a. out\<lparr>msCurrentReplicas := Some a\<rparr>)) (\<lambda>out.
      let out = out\<lparr>msProxyStatus := msProxyStatus inn\<rparr> in
      ret (out\<lparr>msSnapshotStatus := msSnapshotStatus inn\<rparr>))))"

definition DeepCopyInto_DirectoryService ::
  "'x thirdParty \<Rightarrow> 'x memService \<Rightarrow> ('x gomem, 'x memService) M" where
  "DeepCopyInto_DirectoryService tp inn =
     (let out = inn in
      let out = out\<lparr>msTypeMeta := msTypeMeta inn\<rparr> in
      bindM (ObjectMeta_DeepCopyInto tp (msObjectMeta inn)) (\<lambda>x. let out = out\<lparr>msObjectMeta := x\<rparr> in
      bindM (DeepCopyInto_DirectoryServiceSpec tp (msSpec inn)) (\<lambda>s. let out = out\<lparr>msSpec := s\<rparr> in
      bindM (DeepCopyInto_DirectoryServiceStatus (msStatus inn)) (\<lambda>s. ret (out\<lparr>msStatus := s\<rparr>)))))"

definition DeepCopyInto_DirectoryServiceList ::
  "'x thirdParty \<Rightarrow> 'x memServiceList \<Rightarrow> ('x gomem, 'x memServiceList) M" where
  "DeepCopyInto_DirectoryServiceList tp inn =
     (let out = inn in
      let out = out\<lparr>slTypeMeta := slTypeMeta inn\<rparr> in
      bindM (ListMeta_DeepCopyInto tp (slListMeta inn)) (\<lambda>x. let out = out\<lparr>slListMeta := x\<rparr> in
      copyField (slItems inn) out
        (copySlice (VService (zeroDirectoryService tp)) (onCell VService asService (DeepCopyInto_DirectoryService tp)))
        (\<lambda>s. out\<lparr>slItems := Some s\<rparr>)))"

definition DeepCopyInto_DirectorySnapshotSpec :: "directorySnapshotSpec \<Rightarrow> ('w, directorySnapshotSpec) M" where
  "DeepCopyInto_DirectorySnapshotSpec inn = ret inn"

definition DeepCopyInto_SnapshotStatus :: "snapshotStatus \<Rightarrow> ('w, snapshotStatus) M" where
  "DeepCopyInto_SnapshotStatus inn = ret inn"

definition DeepCopyInto_TrustStore :: "trustStore \<Rightarrow> ('w, trustStore) M" where
  "DeepCopyInto_TrustStore inn = ret inn"

section \<open>Copying behind a pointer\<close>

text \<open>
  \<open>if in == nil { return nil }; out := new(T); in.DeepCopyInto(out); return out\<close>, the body of
  every generated \<open>DeepCopy\<close>.
\<close>

definition deepCopyVia ::
  "('e \<Rightarrow> 'v) \<Rightarrow> ('v \<Rightarrow> 'e option) \<Rightarrow> 'e \<Rightarrow> ('e \<Rightarrow> ('v mem, 'e) M) \<Rightarrow> ptr \<Rightarrow> ('v mem, ptr) M" where
  "deepCopyVia emb prj z into inn =
     (case inn of
        None \<Rightarrow> ret None
      | Some a \<Rightarrow> bindM (newCopy (emb z) (onCell emb prj into) a) (\<lambda>out. ret (Some out)))"

definition DeepCopy_BackupStatus :: "'x thirdParty \<Rightarrow> ptr \<Rightarrow> ('x gomem, ptr) M" where
  "DeepCopy_BackupStatus tp = deepCopyVia VBackupStatus asBackupStatus zeroBackupStatus (DeepCopyInto_BackupStatus tp)"

definition DeepCopy_DirectoryBackup :: "'x thirdParty \<Rightarrow> ptr \<Rightarrow> ('x gomem, ptr) M" where
  "DeepCopy_DirectoryBackup tp = deepCopyVia VBackup asBackup (zeroBackup tp) (DeepCopyInto_DirectoryBackup tp)"

definition DeepCopy_DirectoryBackupList :: "'x thirdParty \<Rightarrow> ptr \<Rightarrow> ('x gomem, ptr) M" where
  "DeepCopy_DirectoryBackupList tp = deepCopyVia VBackupList asBackupList (zeroBackupList tp) (DeepCopyInto_DirectoryBackupList tp)"

definition DeepCopy_DirectoryBackupSpec :: "'x thirdParty \<Rightarrow> ptr \<Rightarrow> ('x gomem, ptr) M" where
  "DeepCopy_DirectoryBackupSpec tp = deepCopyVia VBackupSpec asBackupSpec (zeroBackupSpec tp) (DeepCopyInto_DirectoryBackupSpec tp)"

definition DeepCopy_DirectoryKeystores :: "ptr \<Rightarrow> ('x gomem, ptr) M" where
  "DeepCopy_DirectoryKeystores = deepCopyVia VKeystores asKeystores \<lparr>ksSecretName = ''''\<rparr> DeepCopyInto_DirectoryKeystores"

definition DeepCopy_DirectoryPasswords :: "ptr \<Rightarrow> ('x gomem, ptr) M" where
  "DeepCopy_DirectoryPasswords = deepCopyVia VPassword asPassword zeroPasswords DeepCopyInto_DirectoryPasswords"

definition DeepCopy_DirectoryPodTemplate :: "'x thirdParty \<Rightarrow> ptr \<Rightarrow> ('x gomem, ptr) M" where
  "DeepCopy_DirectoryPodTemplate tp = deepCopyVia VPodTemplate asPodTemplate (zeroPod tp) (DeepCopyInto_DirectoryPodTemplate tp)"

definition DeepCopy_DirectoryProxy :: "'x thirdParty \<Rightarrow> ptr \<Rightarrow> ('x gomem, ptr) M" where
  "DeepCopy_DirectoryProxy tp = deepCopyVia VProxy asProxy (zeroProxy tp) (DeepCopyInto_DirectoryProxy tp)"

definition DeepCopy_DirectoryProxyStatus :: "ptr \<Rightarrow> ('x gomem, ptr) M" where
  "DeepCopy_DirectoryProxyStatus = deepCopyVia VProxyStatus asProxyStatus zeroProxyStatus DeepCopyInto_DirectoryProxyStatus"

definition DeepCopy_DirectoryRestore :: "'x thirdParty \<Rightarrow> ptr \<Rightarrow> ('x gomem, ptr) M" where
  "DeepCopy_DirectoryRestore tp = deepCopyVia VRestore asRestore (zeroRestore tp) (DeepCopyInto_DirectoryRestore tp)"

definition DeepCopy_DirectoryRestoreList :: "'x thirdParty \<Rightarrow> ptr \<Rightarrow> ('x gomem, ptr) M" where
  "DeepCopy_DirectoryRestoreList tp = deepCopyVia VRestoreList asRestoreList (zeroRestoreList tp) (DeepCopyInto_DirectoryRestoreList tp)"

definition DeepCopy_DirectoryRestoreSpec :: "'x thirdParty \<Rightarrow> ptr \<Rightarrow> ('x gomem, ptr) M" where
  "DeepCopy_DirectoryRestoreSpec tp = deepCopyVia VRestoreSpec asRestoreSpec (zeroRestoreSpec tp) (DeepCopyInto_DirectoryRestoreSpec tp)"

definition DeepCopy_DirectoryRestoreStatus :: "'x thirdParty \<Rightarrow> ptr \<Rightarrow> ('x gomem, ptr) M" where
  "DeepCopy_DirectoryRestoreStatus tp = deepCopyVia VRestoreStatus asRestoreStatus zeroRestoreStatus (DeepCopyInto_DirectoryRestoreStatus tp)"

definition DeepCopy_DirectorySecrets :: "ptr \<Rightarrow> ('x gomem, ptr) M" where
  "DeepCopy_DirectorySecrets = deepCopyVia VSecrets asSecrets zeroSecrets DeepCopyInto_DirectorySecrets"

definition DeepCopy_DirectoryService :: "'x thirdParty \<Rightarrow> ptr \<Rightarrow> ('x gomem, ptr) M" where
  "DeepCopy_DirectoryService tp = deepCopyVia VService asService (zeroDirectoryService tp) (DeepCopyInto_DirectoryService tp)"

definition DeepCopy_DirectoryServiceList :: "'x thirdParty \<Rightarrow> ptr \<Rightarrow> ('x gomem, ptr) M" where
  "DeepCopy_DirectoryServiceList tp = deepCopyVia VServiceList asServiceList (zeroServiceList tp) (DeepCopyInto_DirectoryServiceList tp)"

definition DeepCopy_DirectoryServiceSpec :: "'x thirdParty \<Rightarrow> ptr \<Rightarrow> ('x gomem, ptr) M" where
  "DeepCopy_DirectoryServiceSpec tp = deepCopyVia VServiceSpec asServiceSpec (zeroServiceSpec tp) (DeepCopyInto_DirectoryServiceSpec tp)"

definition DeepCopy_DirectoryServiceStatus :: "ptr \<Rightarrow> ('x gomem, ptr) M" where
  "DeepCopy_DirectoryServiceStatus = deepCopyVia VServiceStatus asServiceStatus zeroServiceStatus DeepCopyInto_DirectoryServiceStatus"

definition DeepCopy_DirectorySnapshotSpec :: "ptr \<Rightarrow> ('x gomem, ptr) M" where
  "DeepCopy_DirectorySnapshotSpec = deepCopyVia VSnapshotSpec asSnapshotSpec zeroSnapshotSpec DeepCopyInto_DirectorySnapshotSpec"

definition DeepCopy_SnapshotStatus :: "ptr \<Rightarrow> ('x gomem, ptr) M" where
  "DeepCopy_SnapshotStatus = deepCopyVia VSnapshotStatus asSnapshotStatus zeroSnapshotStatus DeepCopyInto_SnapshotStatus"

definition DeepCopy_TrustStore :: "ptr \<Rightarrow> ('x gomem, ptr) M" where
  "DeepCopy_TrustStore = deepCopyVia VTrustStore asTrustStore \<lparr>tsSecretName = '''', tsKeyName = '''', tsCreate = False\<rparr> DeepCopyInto_TrustStore"

section \<open>Copying a resource behind its interface\<close>

text \<open>
  A value of the interface \<open>runtime.Object\<close> is nil (\<open>None\<close>) or a pointer with its type. A pointer
  that is nil inside the interface would be \<open>Some\<close> of nothing: the functions avoid it.
\<close>

datatype runtimeObject =
    BackupObj addr
  | BackupListObj addr
  | RestoreObj addr
  | RestoreListObj addr
  | ServiceObj addr
  | ServiceListObj addr

definition asObject ::
  "(addr \<Rightarrow> runtimeObject) \<Rightarrow> ('w, ptr) M \<Rightarrow> ('w, runtimeObject option) M" where
  "asObject wrap m = bindM m (\<lambda>c. case c of Some a \<Rightarrow> ret (Some (wrap a)) | None \<Rightarrow> ret None)"

definition DeepCopyObject_DirectoryBackup :: "'x thirdParty \<Rightarrow> ptr \<Rightarrow> ('x gomem, runtimeObject option) M" where
  "DeepCopyObject_DirectoryBackup tp inn = asObject BackupObj (DeepCopy_DirectoryBackup tp inn)"

definition DeepCopyObject_DirectoryBackupList :: "'x thirdParty \<Rightarrow> ptr \<Rightarrow> ('x gomem, runtimeObject option) M" where
  "DeepCopyObject_DirectoryBackupList tp inn = asObject BackupListObj (DeepCopy_DirectoryBackupList tp inn)"

definition DeepCopyObject_DirectoryRestore :: "'x thirdParty \<Rightarrow> ptr \<Rightarrow> ('x gomem, runtimeObject option) M" where
  "DeepCopyObject_DirectoryRestore tp inn = asObject RestoreObj (DeepCopy_DirectoryRestore tp inn)"

definition DeepCopyObject_DirectoryRestoreList :: "'x thirdParty \<Rightarrow> ptr \<Rightarrow> ('x gomem, runtimeObject option) M" where
  "DeepCopyObject_DirectoryRestoreList tp inn = asObject RestoreListObj (DeepCopy_DirectoryRestoreList tp inn)"

definition DeepCopyObject_DirectoryService :: "'x thirdParty \<Rightarrow> ptr \<Rightarrow> ('x gomem, runtimeObject option) M" where
  "DeepCopyObject_DirectoryService tp inn = asObject ServiceObj (DeepCopy_DirectoryService tp inn)"

definition DeepCopyObject_DirectoryServiceList :: "'x thirdParty \<Rightarrow> ptr \<Rightarrow> ('x gomem, runtimeObject option) M" where
  "DeepCopyObject_DirectoryServiceList tp inn = asObject ServiceListObj (DeepCopy_DirectoryServiceList tp inn)"

text \<open>The call \<open>obj.DeepCopyObject()\<close> on an interface value.\<close>

definition DeepCopyObject :: "'x thirdParty \<Rightarrow> runtimeObject \<Rightarrow> ('x gomem, runtimeObject option) M" where
  "DeepCopyObject tp obj =
     (case obj of
        BackupObj a \<Rightarrow> DeepCopyObject_DirectoryBackup tp (Some a)
      | BackupListObj a \<Rightarrow> DeepCopyObject_DirectoryBackupList tp (Some a)
      | RestoreObj a \<Rightarrow> DeepCopyObject_DirectoryRestore tp (Some a)
      | RestoreListObj a \<Rightarrow> DeepCopyObject_DirectoryRestoreList tp (Some a)
      | ServiceObj a \<Rightarrow> DeepCopyObject_DirectoryService tp (Some a)
      | ServiceListObj a \<Rightarrow> DeepCopyObject_DirectoryServiceList tp (Some a))"

end
