(* ===== verification/Deep_Copy_Laws.thy ===== *)
theory Deep_Copy_Laws
  imports Deep_Copy
begin

text \<open>
  The generated copy functions are deep copies.

  \<^item> What the structures in memory mean (\<open>\<dots>V\<close>) and which cells they occupy (\<open>\<dots>F\<close>).
  \<^item> The locale \<open>third_party\<close>: the copy functions of the other packages are deep copies and
    \<open>range\<close> visits each entry of a map once. Under it every \<open>DeepCopyInto\<close> of the API meets the
    contract \<open>copier\<close>, as sublocales, and through them the copies behind pointers and interfaces.
  \<^item> The properties: a copied resource is the same resource and shares nothing with the original.
  \<^item> An instance of the locale with labels behind a pointer, on which the properties are tried out.
\<close>

section \<open>What the structures mean\<close>

record 'x thirdView =
  timeF :: "'x gomem \<Rightarrow> addr \<Rightarrow> addr set"
  timeV :: "'x gomem \<Rightarrow> addr \<Rightarrow> time option"
  metaF :: "'x gomem \<Rightarrow> 'x \<Rightarrow> addr set"
  metaV :: "'x gomem \<Rightarrow> 'x \<Rightarrow> objectMeta option"
  listMetaF :: "'x gomem \<Rightarrow> 'x \<Rightarrow> addr set"
  listMetaV :: "'x gomem \<Rightarrow> 'x \<Rightarrow> string option"
  resF :: "'x gomem \<Rightarrow> 'x \<Rightarrow> addr set"
  resV :: "'x gomem \<Rightarrow> 'x \<Rightarrow> resourceRequirements option"
  claimF :: "'x gomem \<Rightarrow> 'x \<Rightarrow> addr set"
  claimV :: "'x gomem \<Rightarrow> 'x \<Rightarrow> persistentVolumeClaimSpec option"
  envFromF :: "'x gomem \<Rightarrow> 'x \<Rightarrow> addr set"
  envFromV :: "'x gomem \<Rightarrow> 'x \<Rightarrow> envFromSource option"
  envF :: "'x gomem \<Rightarrow> 'x \<Rightarrow> addr set"
  envV :: "'x gomem \<Rightarrow> 'x \<Rightarrow> envVar option"

definition elems :: "'a list option \<Rightarrow> 'a list" where
  "elems s = (case s of None \<Rightarrow> [] | Some xs \<Rightarrow> xs)"

abbreviation extsV where
  "extsV V \<equiv> optV (sliceV (cellV asExt V))"

abbreviation extsF where
  "extsF F \<equiv> optF (sliceF (cellF asExt F))"

abbreviation refsV :: "'x gomem \<Rightarrow> goslice option \<Rightarrow> string list option option" where
  "refsV \<equiv> optV (sliceV (\<lambda>_. asRef))"

abbreviation int32V :: "'x gomem \<Rightarrow> ptr \<Rightarrow> int32 option option" where
  "int32V \<equiv> optV (varV (\<lambda>_. asInt32))"

abbreviation plainSliceF :: "'x gomem \<Rightarrow> goslice option \<Rightarrow> addr set" where
  "plainSliceF \<equiv> optF (sliceF (\<lambda>_ _. {}))"

abbreviation plainVarF :: "'x gomem \<Rightarrow> ptr \<Rightarrow> addr set" where
  "plainVarF \<equiv> optF (varF (\<lambda>_ _. {}))"

subsection \<open>Pod template and proxy\<close>

definition podRefs where
  "podRefs c = (mImagePullSecrets c, mResources c, mVolumeClaimSpec c, mInitEnvFrom c, mEnv c, mEnvFrom c)"

fun podPut where
  "podPut (ips, r, v, ief, e, ef) c =
     c\<lparr>mImagePullSecrets := ips, mResources := r, mVolumeClaimSpec := v, mInitEnvFrom := ief, mEnv := e, mEnvFrom := ef\<rparr>"

fun podMean :: "'x memPodTemplate \<Rightarrow> _ \<Rightarrow> directoryPodTemplate \<times> bool list" where
  "podMean c (ips, r, v, ief, e, ef) =
     (\<lparr>tImage = mImage c, tImagePullPolicy = mImagePullPolicy c, tImagePullSecrets = elems ips, tResources = r,
       Certificates = mCertificates c, VolumeClaimSpec = v, ScriptConfigMapName = mScriptConfigMapName c,
       tInitEnvFrom = elems ief, tEnv = elems e, tEnvFrom = elems ef,
       VolumeSnapshotClassName = mVolumeSnapshotClassName c, tServiceAccountName = mServiceAccountName c\<rparr>,
      [ips = None, ief = None, e = None, ef = None])"

definition podV :: "'x thirdView \<Rightarrow> 'x gomem \<Rightarrow> 'x memPodTemplate \<Rightarrow> (directoryPodTemplate \<times> bool list) option" where
  "podV tv = (\<lambda>m c. map_option (podMean c)
     (pairV refsV (pairV (resV tv) (pairV (claimV tv) (pairV (extsV (envFromV tv))
        (pairV (extsV (envV tv)) (extsV (envFromV tv)))))) m (podRefs c)))"

definition podF :: "'x thirdView \<Rightarrow> 'x gomem \<Rightarrow> 'x memPodTemplate \<Rightarrow> addr set" where
  "podF tv = (\<lambda>m c. pairF plainSliceF (pairF (resF tv) (pairF (claimF tv) (pairF (extsF (envFromF tv))
        (pairF (extsF (envF tv)) (extsF (envFromF tv)))))) m (podRefs c))"

definition proxyMean where
  "proxyMean c r = \<lparr>proxyEnabled = mpEnabled c, proxyImage = mpImage c, proxyReplicas = mpReplicas c,
     PrimaryGroupID = mpPrimaryGroupID c, proxyResources = r\<rparr>"

definition proxyV :: "'x thirdView \<Rightarrow> 'x gomem \<Rightarrow> 'x memProxy \<Rightarrow> directoryProxy option" where
  "proxyV tv = (\<lambda>m c. map_option (proxyMean c) (resV tv m (mpResources c)))"

definition proxyF :: "'x thirdView \<Rightarrow> 'x gomem \<Rightarrow> 'x memProxy \<Rightarrow> addr set" where
  "proxyF tv = (\<lambda>m c. resF tv m (mpResources c))"

subsection \<open>DirectoryService\<close>

definition specRefs where
  "specRefs c = (msLabels c, msPodTemplate c, msReplicas c, msPasswords c, msProxy c)"

fun specPut where
  "specPut (l, p, r, pw, px) c =
     c\<lparr>msLabels := l, msPodTemplate := p, msReplicas := r, msPasswords := pw, msProxy := px\<rparr>"

fun specMean :: "'x memServiceSpec \<Rightarrow> _ \<Rightarrow> directoryServiceSpec \<times> bool list" where
  "specMean c (l, p, r, pw, px) =
     (\<lparr>specLabels = l, PodTemplate = fst p, Replicas = r, Passwords = pw, Snapshots = msSnapshots c, Proxy = px\<rparr>, snd p)"

definition specV :: "'x thirdView \<Rightarrow> 'x gomem \<Rightarrow> 'x memServiceSpec \<Rightarrow> (directoryServiceSpec \<times> bool list) option" where
  "specV tv = (\<lambda>m c. map_option (specMean c)
     (pairV (optV (varV (mapV asLabels))) (pairV (podV tv) (pairV int32V (pairV (optV (varV (mapV asPasswords)))
        (proxyV tv)))) m (specRefs c)))"

definition specF :: "'x thirdView \<Rightarrow> 'x gomem \<Rightarrow> 'x memServiceSpec \<Rightarrow> addr set" where
  "specF tv = (\<lambda>m c. pairF plainVarF (pairF (podF tv) (pairF plainVarF (pairF plainVarF (proxyF tv)))) m (specRefs c))"

definition statusRefs where
  "statusRefs c = (msActive c, msCurrentReplicas c)"

fun statusPut where
  "statusPut (a, r) c = c\<lparr>msActive := a, msCurrentReplicas := r\<rparr>"

fun statusMean :: "memServiceStatus \<Rightarrow> _ \<Rightarrow> directoryServiceStatus \<times> bool list" where
  "statusMean c (a, r) =
     (\<lparr>Active = elems a, CurrentReplicas = r, ServerMessage = msServerMessage c, ProxyStatus = msProxyStatus c,
       SnapshotStatus = msSnapshotStatus c\<rparr>, [a = None])"

definition statusV :: "'x gomem \<Rightarrow> memServiceStatus \<Rightarrow> (directoryServiceStatus \<times> bool list) option" where
  "statusV = (\<lambda>m c. map_option (statusMean c) (pairV refsV int32V m (statusRefs c)))"

definition statusF :: "'x gomem \<Rightarrow> memServiceStatus \<Rightarrow> addr set" where
  "statusF = (\<lambda>m c. pairF plainSliceF plainVarF m (statusRefs c))"

definition serviceRefs where
  "serviceRefs c = (msObjectMeta c, msSpec c, msStatus c)"

fun servicePut where
  "servicePut (x, s, t) c = c\<lparr>msObjectMeta := x, msSpec := s, msStatus := t\<rparr>"

fun serviceMean :: "'x memService \<Rightarrow> _ \<Rightarrow> directoryService \<times> string \<times> bool list" where
  "serviceMean c (x, s, t) =
     (\<lparr>ObjectMeta = x, dsKind = tmKind (msTypeMeta c), Spec = fst s, Status = fst t\<rparr>,
      tmAPIVersion (msTypeMeta c), snd s @ snd t)"

definition serviceV :: "'x thirdView \<Rightarrow> 'x gomem \<Rightarrow> 'x memService \<Rightarrow> (directoryService \<times> string \<times> bool list) option" where
  "serviceV tv = (\<lambda>m c. map_option (serviceMean c) (pairV (metaV tv) (pairV (specV tv) statusV) m (serviceRefs c)))"

definition serviceF :: "'x thirdView \<Rightarrow> 'x gomem \<Rightarrow> 'x memService \<Rightarrow> addr set" where
  "serviceF tv = (\<lambda>m c. pairF (metaF tv) (pairF (specF tv) statusF) m (serviceRefs c))"

subsection \<open>DirectoryBackup and DirectoryRestore\<close>

definition bstatRefs where
  "bstatRefs c = (mbStartTimestamp c, mbCompletionTimestamp c)"

fun bstatPut where
  "bstatPut (s, e) c = c\<lparr>mbStartTimestamp := s, mbCompletionTimestamp := e\<rparr>"

fun timesMean :: "_ \<Rightarrow> backupStatus" where
  "timesMean (s, e) = \<lparr>StartTimestamp = s, CompletionTimestamp = e\<rparr>"

definition bstatV :: "'x thirdView \<Rightarrow> 'x gomem \<Rightarrow> memBackupStatus \<Rightarrow> backupStatus option" where
  "bstatV tv = (\<lambda>m c. map_option timesMean (pairV (optV (timeV tv)) (optV (timeV tv)) m (bstatRefs c)))"

definition bstatF :: "'x thirdView \<Rightarrow> 'x gomem \<Rightarrow> memBackupStatus \<Rightarrow> addr set" where
  "bstatF tv = (\<lambda>m c. pairF (optF (timeF tv)) (optF (timeF tv)) m (bstatRefs c))"

definition rstatRefs where
  "rstatRefs c = (mrStartTimestamp c, mrCompletionTimestamp c)"

fun rstatPut where
  "rstatPut (s, e) c = c\<lparr>mrStartTimestamp := s, mrCompletionTimestamp := e\<rparr>"

definition rstatV :: "'x thirdView \<Rightarrow> 'x gomem \<Rightarrow> memRestoreStatus \<Rightarrow> backupStatus option" where
  "rstatV tv = (\<lambda>m c. map_option timesMean (pairV (optV (timeV tv)) (optV (timeV tv)) m (rstatRefs c)))"

definition rstatF :: "'x thirdView \<Rightarrow> 'x gomem \<Rightarrow> memRestoreStatus \<Rightarrow> addr set" where
  "rstatF tv = (\<lambda>m c. pairF (optF (timeF tv)) (optF (timeF tv)) m (rstatRefs c))"

definition bspecV :: "'x thirdView \<Rightarrow> 'x gomem \<Rightarrow> 'x memBackupSpec \<Rightarrow> ((directoryPodTemplate \<times> bool list) \<times> string) option" where
  "bspecV tv = (\<lambda>m c. map_option (\<lambda>p. (p, mbClaimToBackup c)) (podV tv m (mbPodTemplate c)))"

definition bspecF :: "'x thirdView \<Rightarrow> 'x gomem \<Rightarrow> 'x memBackupSpec \<Rightarrow> addr set" where
  "bspecF tv = (\<lambda>m c. podF tv m (mbPodTemplate c))"

definition rspecV :: "'x thirdView \<Rightarrow> 'x gomem \<Rightarrow> 'x memRestoreSpec \<Rightarrow> ((directoryPodTemplate \<times> bool list) \<times> string) option" where
  "rspecV tv = (\<lambda>m c. map_option (\<lambda>p. (p, mrSourcePVCName c)) (podV tv m (mrPodTemplate c)))"

definition rspecF :: "'x thirdView \<Rightarrow> 'x gomem \<Rightarrow> 'x memRestoreSpec \<Rightarrow> addr set" where
  "rspecF tv = (\<lambda>m c. podF tv m (mrPodTemplate c))"

definition backupRefs where
  "backupRefs c = (mbObjectMeta c, mbSpec c, mbStatus c)"

fun backupPut where
  "backupPut (x, s, t) c = c\<lparr>mbObjectMeta := x, mbSpec := s, mbStatus := t\<rparr>"

fun backupMean :: "'x memBackup \<Rightarrow> _ \<Rightarrow> directoryBackup \<times> string \<times> bool list" where
  "backupMean c (x, s, t) =
     (\<lparr>ObjectMeta = x, dbKind = tmKind (mbTypeMeta c), dbPodTemplate = fst (fst s), ClaimToBackup = snd s, dbStatus = t\<rparr>,
      tmAPIVersion (mbTypeMeta c), snd (fst s))"

definition backupV :: "'x thirdView \<Rightarrow> 'x gomem \<Rightarrow> 'x memBackup \<Rightarrow> (directoryBackup \<times> string \<times> bool list) option" where
  "backupV tv = (\<lambda>m c. map_option (backupMean c) (pairV (metaV tv) (pairV (bspecV tv) (bstatV tv)) m (backupRefs c)))"

definition backupF :: "'x thirdView \<Rightarrow> 'x gomem \<Rightarrow> 'x memBackup \<Rightarrow> addr set" where
  "backupF tv = (\<lambda>m c. pairF (metaF tv) (pairF (bspecF tv) (bstatF tv)) m (backupRefs c))"

definition restoreRefs where
  "restoreRefs c = (mrObjectMeta c, mrSpec c, mrStatus c)"

fun restorePut where
  "restorePut (x, s, t) c = c\<lparr>mrObjectMeta := x, mrSpec := s, mrStatus := t\<rparr>"

fun restoreMean :: "'x memRestore \<Rightarrow> _ \<Rightarrow> directoryRestore \<times> string \<times> bool list" where
  "restoreMean c (x, s, t) =
     (\<lparr>ObjectMeta = x, drKind = tmKind (mrTypeMeta c), drPodTemplate = fst (fst s), SourcePVCName = snd s, drStatus = t\<rparr>,
      tmAPIVersion (mrTypeMeta c), snd (fst s))"

definition restoreV :: "'x thirdView \<Rightarrow> 'x gomem \<Rightarrow> 'x memRestore \<Rightarrow> (directoryRestore \<times> string \<times> bool list) option" where
  "restoreV tv = (\<lambda>m c. map_option (restoreMean c) (pairV (metaV tv) (pairV (rspecV tv) (rstatV tv)) m (restoreRefs c)))"

definition restoreF :: "'x thirdView \<Rightarrow> 'x gomem \<Rightarrow> 'x memRestore \<Rightarrow> addr set" where
  "restoreF tv = (\<lambda>m c. pairF (metaF tv) (pairF (rspecF tv) (rstatF tv)) m (restoreRefs c))"

subsection \<open>Lists of resources\<close>

text \<open>Kind and API version, list metadata, and the items unless they are nil.\<close>

type_synonym 'a seenList = "typeMeta \<times> string \<times> 'a list option"

definition slistRefs where
  "slistRefs c = (slListMeta c, slItems c)"

fun slistPut where
  "slistPut (x, s) c = c\<lparr>slListMeta := x, slItems := s\<rparr>"

definition slistV ::
  "'x thirdView \<Rightarrow> 'x gomem \<Rightarrow> 'x memServiceList \<Rightarrow> (directoryService \<times> string \<times> bool list) seenList option" where
  "slistV tv = (\<lambda>m c. map_option (Pair (slTypeMeta c))
     (pairV (listMetaV tv) (optV (sliceV (cellV asService (serviceV tv)))) m (slistRefs c)))"

definition slistF :: "'x thirdView \<Rightarrow> 'x gomem \<Rightarrow> 'x memServiceList \<Rightarrow> addr set" where
  "slistF tv = (\<lambda>m c. pairF (listMetaF tv) (optF (sliceF (cellF asService (serviceF tv)))) m (slistRefs c))"

definition blistRefs where
  "blistRefs c = (blListMeta c, blItems c)"

fun blistPut where
  "blistPut (x, s) c = c\<lparr>blListMeta := x, blItems := s\<rparr>"

definition blistV ::
  "'x thirdView \<Rightarrow> 'x gomem \<Rightarrow> 'x memBackupList \<Rightarrow> (directoryBackup \<times> string \<times> bool list) seenList option" where
  "blistV tv = (\<lambda>m c. map_option (Pair (blTypeMeta c))
     (pairV (listMetaV tv) (optV (sliceV (cellV asBackup (backupV tv)))) m (blistRefs c)))"

definition blistF :: "'x thirdView \<Rightarrow> 'x gomem \<Rightarrow> 'x memBackupList \<Rightarrow> addr set" where
  "blistF tv = (\<lambda>m c. pairF (listMetaF tv) (optF (sliceF (cellF asBackup (backupF tv)))) m (blistRefs c))"

definition rlistRefs where
  "rlistRefs c = (rlListMeta c, rlItems c)"

fun rlistPut where
  "rlistPut (x, s) c = c\<lparr>rlListMeta := x, rlItems := s\<rparr>"

definition rlistV ::
  "'x thirdView \<Rightarrow> 'x gomem \<Rightarrow> 'x memRestoreList \<Rightarrow> (directoryRestore \<times> string \<times> bool list) seenList option" where
  "rlistV tv = (\<lambda>m c. map_option (Pair (rlTypeMeta c))
     (pairV (listMetaV tv) (optV (sliceV (cellV asRestore (restoreV tv)))) m (rlistRefs c)))"

definition rlistF :: "'x thirdView \<Rightarrow> 'x gomem \<Rightarrow> 'x memRestoreList \<Rightarrow> addr set" where
  "rlistF tv = (\<lambda>m c. pairF (listMetaF tv) (optF (sliceF (cellF asRestore (restoreF tv)))) m (rlistRefs c))"

section \<open>The copy functions, field by field\<close>

text \<open>Each \<open>DeepCopyInto\<close> copies the fields that hold references, in the order of the code.\<close>

named_theorems into_eqs "DeepCopyInto as a copy of the reference fields"

lemmas copy_steps = copyField_def whenSome_def copyPair_def bindM_assoc bindM_ret Let_def

lemma pod_eq [into_eqs]:
  "DeepCopyInto_DirectoryPodTemplate tp = (\<lambda>c. bindM (copyPair (whenSome copyRefs) (copyPair (ResourceRequirements_DeepCopyInto tp)
     (copyPair (PersistentVolumeClaimSpec_DeepCopyInto tp) (copyPair (whenSome (copyEnvFrom tp))
     (copyPair (whenSome (copyEnv tp)) (whenSome (copyEnvFrom tp)))))) (podRefs c)) (\<lambda>t. ret (podPut t c)))"
proof
  show "DeepCopyInto_DirectoryPodTemplate tp c = bindM (copyPair (whenSome copyRefs) (copyPair (ResourceRequirements_DeepCopyInto tp)
     (copyPair (PersistentVolumeClaimSpec_DeepCopyInto tp) (copyPair (whenSome (copyEnvFrom tp))
     (copyPair (whenSome (copyEnv tp)) (whenSome (copyEnvFrom tp)))))) (podRefs c)) (\<lambda>t. ret (podPut t c))" for c
    by (cases c) (simp add: DeepCopyInto_DirectoryPodTemplate_def podRefs_def copy_steps split: option.splits)
qed

lemma proxy_eq [into_eqs]:
  "DeepCopyInto_DirectoryProxy tp = (\<lambda>c. bindM (ResourceRequirements_DeepCopyInto tp (mpResources c)) (\<lambda>r. ret (c\<lparr>mpResources := r\<rparr>)))"
  by (simp add: DeepCopyInto_DirectoryProxy_def Let_def fun_eq_iff)

lemma status_eq [into_eqs]:
  "DeepCopyInto_DirectoryServiceStatus = (\<lambda>c. bindM (copyPair (whenSome copyRefs) (whenSome copyInt32) (statusRefs c)) (\<lambda>t. ret (statusPut t c)))"
proof
  show "DeepCopyInto_DirectoryServiceStatus c =
     bindM (copyPair (whenSome copyRefs) (whenSome copyInt32) (statusRefs c)) (\<lambda>t. ret (statusPut t c))" for c
    by (cases c) (simp add: DeepCopyInto_DirectoryServiceStatus_def statusRefs_def copy_steps split: option.splits)
qed

lemma spec_eq [into_eqs]:
  "DeepCopyInto_DirectoryServiceSpec tp = (\<lambda>c. bindM (copyPair (whenSome (copyMap VLabels asLabels (rangeLabels tp)))
     (copyPair (DeepCopyInto_DirectoryPodTemplate tp) (copyPair (whenSome copyInt32)
     (copyPair (whenSome (copyMap VPasswords asPasswords (rangePasswords tp))) (DeepCopyInto_DirectoryProxy tp)))) (specRefs c))
     (\<lambda>t. ret (specPut t c)))"
proof
  show "DeepCopyInto_DirectoryServiceSpec tp c = bindM (copyPair (whenSome (copyMap VLabels asLabels (rangeLabels tp)))
     (copyPair (DeepCopyInto_DirectoryPodTemplate tp) (copyPair (whenSome copyInt32)
     (copyPair (whenSome (copyMap VPasswords asPasswords (rangePasswords tp))) (DeepCopyInto_DirectoryProxy tp)))) (specRefs c))
     (\<lambda>t. ret (specPut t c))" for c
    by (cases c) (simp add: DeepCopyInto_DirectoryServiceSpec_def specRefs_def copy_steps split: option.splits)
qed

lemma service_eq [into_eqs]:
  "DeepCopyInto_DirectoryService tp = (\<lambda>c. bindM (copyPair (ObjectMeta_DeepCopyInto tp)
     (copyPair (DeepCopyInto_DirectoryServiceSpec tp) DeepCopyInto_DirectoryServiceStatus) (serviceRefs c)) (\<lambda>t. ret (servicePut t c)))"
  by (simp add: DeepCopyInto_DirectoryService_def serviceRefs_def copy_steps fun_eq_iff)

lemma bstat_eq [into_eqs]:
  "DeepCopyInto_BackupStatus tp = (\<lambda>c. bindM (copyPair (whenSome (Time_DeepCopy tp)) (whenSome (Time_DeepCopy tp)) (bstatRefs c))
     (\<lambda>t. ret (bstatPut t c)))"
proof
  show "DeepCopyInto_BackupStatus tp c =
     bindM (copyPair (whenSome (Time_DeepCopy tp)) (whenSome (Time_DeepCopy tp)) (bstatRefs c)) (\<lambda>t. ret (bstatPut t c))" for c
    by (cases c) (simp add: DeepCopyInto_BackupStatus_def bstatRefs_def copy_steps split: option.splits)
qed

lemma rstat_eq [into_eqs]:
  "DeepCopyInto_DirectoryRestoreStatus tp = (\<lambda>c. bindM (copyPair (whenSome (Time_DeepCopy tp)) (whenSome (Time_DeepCopy tp)) (rstatRefs c))
     (\<lambda>t. ret (rstatPut t c)))"
proof
  show "DeepCopyInto_DirectoryRestoreStatus tp c =
     bindM (copyPair (whenSome (Time_DeepCopy tp)) (whenSome (Time_DeepCopy tp)) (rstatRefs c)) (\<lambda>t. ret (rstatPut t c))" for c
    by (cases c) (simp add: DeepCopyInto_DirectoryRestoreStatus_def rstatRefs_def copy_steps split: option.splits)
qed

lemma bspec_eq [into_eqs]:
  "DeepCopyInto_DirectoryBackupSpec tp = (\<lambda>c. bindM (DeepCopyInto_DirectoryPodTemplate tp (mbPodTemplate c)) (\<lambda>p. ret (c\<lparr>mbPodTemplate := p\<rparr>)))"
  by (simp add: DeepCopyInto_DirectoryBackupSpec_def Let_def fun_eq_iff)

lemma rspec_eq [into_eqs]:
  "DeepCopyInto_DirectoryRestoreSpec tp = (\<lambda>c. bindM (DeepCopyInto_DirectoryPodTemplate tp (mrPodTemplate c)) (\<lambda>p. ret (c\<lparr>mrPodTemplate := p\<rparr>)))"
  by (simp add: DeepCopyInto_DirectoryRestoreSpec_def Let_def fun_eq_iff)

lemma backup_eq [into_eqs]:
  "DeepCopyInto_DirectoryBackup tp = (\<lambda>c. bindM (copyPair (ObjectMeta_DeepCopyInto tp)
     (copyPair (DeepCopyInto_DirectoryBackupSpec tp) (DeepCopyInto_BackupStatus tp)) (backupRefs c)) (\<lambda>t. ret (backupPut t c)))"
  by (simp add: DeepCopyInto_DirectoryBackup_def backupRefs_def copy_steps fun_eq_iff)

lemma restore_eq [into_eqs]:
  "DeepCopyInto_DirectoryRestore tp = (\<lambda>c. bindM (copyPair (ObjectMeta_DeepCopyInto tp)
     (copyPair (DeepCopyInto_DirectoryRestoreSpec tp) (DeepCopyInto_DirectoryRestoreStatus tp)) (restoreRefs c)) (\<lambda>t. ret (restorePut t c)))"
  by (simp add: DeepCopyInto_DirectoryRestore_def restoreRefs_def copy_steps fun_eq_iff)

lemma slist_eq [into_eqs]:
  "DeepCopyInto_DirectoryServiceList tp = (\<lambda>c. bindM (copyPair (ListMeta_DeepCopyInto tp)
     (whenSome (copySlice (VService (zeroDirectoryService tp)) (onCell VService asService (DeepCopyInto_DirectoryService tp)))) (slistRefs c))
     (\<lambda>t. ret (slistPut t c)))"
proof
  show "DeepCopyInto_DirectoryServiceList tp c = bindM (copyPair (ListMeta_DeepCopyInto tp)
     (whenSome (copySlice (VService (zeroDirectoryService tp)) (onCell VService asService (DeepCopyInto_DirectoryService tp)))) (slistRefs c))
     (\<lambda>t. ret (slistPut t c))" for c
    by (cases c) (simp add: DeepCopyInto_DirectoryServiceList_def slistRefs_def copy_steps split: option.splits)
qed

lemma blist_eq [into_eqs]:
  "DeepCopyInto_DirectoryBackupList tp = (\<lambda>c. bindM (copyPair (ListMeta_DeepCopyInto tp)
     (whenSome (copySlice (VBackup (zeroBackup tp)) (onCell VBackup asBackup (DeepCopyInto_DirectoryBackup tp)))) (blistRefs c))
     (\<lambda>t. ret (blistPut t c)))"
proof
  show "DeepCopyInto_DirectoryBackupList tp c = bindM (copyPair (ListMeta_DeepCopyInto tp)
     (whenSome (copySlice (VBackup (zeroBackup tp)) (onCell VBackup asBackup (DeepCopyInto_DirectoryBackup tp)))) (blistRefs c))
     (\<lambda>t. ret (blistPut t c))" for c
    by (cases c) (simp add: DeepCopyInto_DirectoryBackupList_def blistRefs_def copy_steps split: option.splits)
qed

lemma rlist_eq [into_eqs]:
  "DeepCopyInto_DirectoryRestoreList tp = (\<lambda>c. bindM (copyPair (ListMeta_DeepCopyInto tp)
     (whenSome (copySlice (VRestore (zeroRestore tp)) (onCell VRestore asRestore (DeepCopyInto_DirectoryRestore tp)))) (rlistRefs c))
     (\<lambda>t. ret (rlistPut t c)))"
proof
  show "DeepCopyInto_DirectoryRestoreList tp c = bindM (copyPair (ListMeta_DeepCopyInto tp)
     (whenSome (copySlice (VRestore (zeroRestore tp)) (onCell VRestore asRestore (DeepCopyInto_DirectoryRestore tp)))) (rlistRefs c))
     (\<lambda>t. ret (rlistPut t c))" for c
    by (cases c) (simp add: DeepCopyInto_DirectoryRestoreList_def rlistRefs_def copy_steps split: option.splits)
qed

text \<open>Reading back what was put.\<close>

lemma podRefs_put [simp]: "podRefs (podPut t c) = t"
  by (induct t c rule: podPut.induct) (simp add: podRefs_def)

lemma specRefs_put [simp]: "specRefs (specPut t c) = t"
  by (induct t c rule: specPut.induct) (simp add: specRefs_def)

lemma statusRefs_put [simp]: "statusRefs (statusPut t c) = t"
  by (induct t c rule: statusPut.induct) (simp add: statusRefs_def)

lemma serviceRefs_put [simp]: "serviceRefs (servicePut t c) = t"
  by (induct t c rule: servicePut.induct) (simp add: serviceRefs_def)

lemma bstatRefs_put [simp]: "bstatRefs (bstatPut t c) = t"
  by (induct t c rule: bstatPut.induct) (simp add: bstatRefs_def)

lemma rstatRefs_put [simp]: "rstatRefs (rstatPut t c) = t"
  by (induct t c rule: rstatPut.induct) (simp add: rstatRefs_def)

lemma backupRefs_put [simp]: "backupRefs (backupPut t c) = t"
  by (induct t c rule: backupPut.induct) (simp add: backupRefs_def)

lemma restoreRefs_put [simp]: "restoreRefs (restorePut t c) = t"
  by (induct t c rule: restorePut.induct) (simp add: restoreRefs_def)

lemma slistRefs_put [simp]: "slistRefs (slistPut t c) = t"
  by (induct t c rule: slistPut.induct) (simp add: slistRefs_def)

lemma blistRefs_put [simp]: "blistRefs (blistPut t c) = t"
  by (induct t c rule: blistPut.induct) (simp add: blistRefs_def)

lemma rlistRefs_put [simp]: "rlistRefs (rlistPut t c) = t"
  by (induct t c rule: rlistPut.induct) (simp add: rlistRefs_def)

text \<open>The plain fields are not touched.\<close>

lemma podMean_put [simp]: "podMean (podPut t c) = podMean c"
  by (rule ext) (induct t c rule: podPut.induct; auto)

lemma specMean_put [simp]: "specMean (specPut t c) = specMean c"
  by (rule ext) (induct t c rule: specPut.induct; auto)

lemma statusMean_put [simp]: "statusMean (statusPut t c) = statusMean c"
  by (rule ext) (induct t c rule: statusPut.induct; auto)

lemma serviceMean_put [simp]: "serviceMean (servicePut t c) = serviceMean c"
  by (rule ext) (induct t c rule: servicePut.induct; auto)

lemma backupMean_put [simp]: "backupMean (backupPut t c) = backupMean c"
  by (rule ext) (induct t c rule: backupPut.induct; auto)

lemma restoreMean_put [simp]: "restoreMean (restorePut t c) = restoreMean c"
  by (rule ext) (induct t c rule: restorePut.induct; auto)

lemma slistType_put [simp]: "slTypeMeta (slistPut t c) = slTypeMeta c"
  by (induct t c rule: slistPut.induct) simp

lemma blistType_put [simp]: "blTypeMeta (blistPut t c) = blTypeMeta c"
  by (induct t c rule: blistPut.induct) simp

lemma rlistType_put [simp]: "rlTypeMeta (rlistPut t c) = rlTypeMeta c"
  by (induct t c rule: rlistPut.induct) simp

section \<open>The contract of the other packages\<close>

text \<open>
  "DeepCopyInto copies the receiver, writing into out": the copy functions of the other packages
  are deep copies of what their structures mean. A \<open>range\<close> loop visits each entry once.
\<close>

locale third_party =
  fixes tp :: "'x thirdParty" and tv :: "'x thirdView"
  assumes time_copier: "copier (timeF tv) (timeV tv) (Time_DeepCopy tp)"
    and meta_copier: "copier (metaF tv) (metaV tv) (ObjectMeta_DeepCopyInto tp)"
    and listMeta_copier: "copier (listMetaF tv) (listMetaV tv) (ListMeta_DeepCopyInto tp)"
    and res_copier: "copier (resF tv) (resV tv) (ResourceRequirements_DeepCopyInto tp)"
    and claim_copier: "copier (claimF tv) (claimV tv) (PersistentVolumeClaimSpec_DeepCopyInto tp)"
    and envFrom_copier: "copier (envFromF tv) (envFromV tv) (EnvFromSource_DeepCopyInto tp)"
    and env_copier: "copier (envF tv) (envV tv) (EnvVar_DeepCopyInto tp)"
    and rangeLabels_once: "distinct (map fst ls) \<Longrightarrow> mset (rangeLabels tp ls) = mset ls"
    and rangePasswords_once: "distinct (map fst ps) \<Longrightarrow> mset (rangePasswords tp ps) = mset ps"
begin

lemma copyEnvFrom_copier: "copier (sliceF (cellF asExt (envFromF tv))) (sliceV (cellV asExt (envFromV tv))) (copyEnvFrom tp)"
  unfolding copyEnvFrom_def by (intro copier_slice copier_onCell cExt.cell_type_axioms envFrom_copier)

lemma copyEnv_copier: "copier (sliceF (cellF asExt (envF tv))) (sliceV (cellV asExt (envV tv))) (copyEnv tp)"
  unfolding copyEnv_def by (intro copier_slice copier_onCell cExt.cell_type_axioms env_copier)

end

lemma copyRefs_copier: "copier (sliceF (\<lambda>_ _. {})) (sliceV (\<lambda>_. asRef)) copyRefs"
  unfolding copyRefs_def by (intro copier_slice copier_ret)

lemma copyInt32_copier: "copier (varF (\<lambda>_ _. {})) (varV (\<lambda>_. asInt32)) copyInt32"
  unfolding copyInt32_def by (intro copier_newCopy copier_ret)

section \<open>Every DeepCopyInto is a deep copy\<close>

text \<open>The structures without references, and the status of a service, need nothing from outside.\<close>

interpretation keystores_copy: copier "\<lambda>_ _. {}" "\<lambda>_. Some" DeepCopyInto_DirectoryKeystores
  unfolding DeepCopyInto_DirectoryKeystores_def by (rule copier_flat)

interpretation passwords_copy: copier "\<lambda>_ _. {}" "\<lambda>_. Some" DeepCopyInto_DirectoryPasswords
  unfolding DeepCopyInto_DirectoryPasswords_def by (rule copier_flat)

interpretation proxystatus_copy: copier "\<lambda>_ _. {}" "\<lambda>_. Some" DeepCopyInto_DirectoryProxyStatus
  unfolding DeepCopyInto_DirectoryProxyStatus_def by (rule copier_flat)

interpretation secrets_copy: copier "\<lambda>_ _. {}" "\<lambda>_. Some" DeepCopyInto_DirectorySecrets
  unfolding DeepCopyInto_DirectorySecrets_def by (rule copier_flat)

interpretation snapshotspec_copy: copier "\<lambda>_ _. {}" "\<lambda>_. Some" DeepCopyInto_DirectorySnapshotSpec
  unfolding DeepCopyInto_DirectorySnapshotSpec_def by (rule copier_flat)

interpretation snapshotstatus_copy: copier "\<lambda>_ _. {}" "\<lambda>_. Some" DeepCopyInto_SnapshotStatus
  unfolding DeepCopyInto_SnapshotStatus_def by (rule copier_flat)

interpretation truststore_copy: copier "\<lambda>_ _. {}" "\<lambda>_. Some" DeepCopyInto_TrustStore
  unfolding DeepCopyInto_TrustStore_def by (rule copier_flat)

interpretation status: copier statusF statusV DeepCopyInto_DirectoryServiceStatus
  unfolding statusF_def statusV_def status_eq
  by (rule copier_struct [where get = statusRefs and put = statusPut and mk = statusMean])
    (simp_all add: copier_pair copier_whenSome copyRefs_copier copyInt32_copier)

text \<open>The others, each from the parts it is made of.\<close>

sublocale third_party \<subseteq> pod: copier "podF tv" "podV tv" "DeepCopyInto_DirectoryPodTemplate tp"
  unfolding podF_def podV_def pod_eq
  by (rule copier_struct [where get = podRefs and put = podPut and mk = podMean])
    (simp_all add: copier_pair copier_whenSome copyRefs_copier res_copier claim_copier copyEnvFrom_copier copyEnv_copier)

sublocale third_party \<subseteq> proxy: copier "proxyF tv" "proxyV tv" "DeepCopyInto_DirectoryProxy tp"
  unfolding proxyF_def proxyV_def proxy_eq
  by (rule copier_struct [where get = mpResources and put = "\<lambda>r c. c\<lparr>mpResources := r\<rparr>" and mk = proxyMean])
    (simp_all add: res_copier proxyMean_def fun_eq_iff)

sublocale third_party \<subseteq> spec: copier "specF tv" "specV tv" "DeepCopyInto_DirectoryServiceSpec tp"
  unfolding specF_def specV_def spec_eq
  by (rule copier_struct [where get = specRefs and put = specPut and mk = specMean])
    (simp_all add: copier_pair copier_whenSome copier_map cLabels.cell_type_axioms cPasswords.cell_type_axioms
      rangeLabels_once rangePasswords_once pod.copier_axioms copyInt32_copier proxy.copier_axioms)

sublocale third_party \<subseteq> service: copier "serviceF tv" "serviceV tv" "DeepCopyInto_DirectoryService tp"
  unfolding serviceF_def serviceV_def service_eq
  by (rule copier_struct [where get = serviceRefs and put = servicePut and mk = serviceMean])
    (simp_all add: copier_pair meta_copier spec.copier_axioms status.copier_axioms)

sublocale third_party \<subseteq> bstat: copier "bstatF tv" "bstatV tv" "DeepCopyInto_BackupStatus tp"
  unfolding bstatF_def bstatV_def bstat_eq
  by (rule copier_struct [where get = bstatRefs and put = bstatPut and mk = "\<lambda>_. timesMean"])
    (simp_all add: copier_pair copier_whenSome time_copier)

sublocale third_party \<subseteq> rstat: copier "rstatF tv" "rstatV tv" "DeepCopyInto_DirectoryRestoreStatus tp"
  unfolding rstatF_def rstatV_def rstat_eq
  by (rule copier_struct [where get = rstatRefs and put = rstatPut and mk = "\<lambda>_. timesMean"])
    (simp_all add: copier_pair copier_whenSome time_copier)

sublocale third_party \<subseteq> bspec: copier "bspecF tv" "bspecV tv" "DeepCopyInto_DirectoryBackupSpec tp"
  unfolding bspecF_def bspecV_def bspec_eq
  by (rule copier_struct [where get = mbPodTemplate and put = "\<lambda>p c. c\<lparr>mbPodTemplate := p\<rparr>" and mk = "\<lambda>c p. (p, mbClaimToBackup c)"])
    (simp_all add: pod.copier_axioms)

sublocale third_party \<subseteq> rspec: copier "rspecF tv" "rspecV tv" "DeepCopyInto_DirectoryRestoreSpec tp"
  unfolding rspecF_def rspecV_def rspec_eq
  by (rule copier_struct [where get = mrPodTemplate and put = "\<lambda>p c. c\<lparr>mrPodTemplate := p\<rparr>" and mk = "\<lambda>c p. (p, mrSourcePVCName c)"])
    (simp_all add: pod.copier_axioms)

sublocale third_party \<subseteq> backup: copier "backupF tv" "backupV tv" "DeepCopyInto_DirectoryBackup tp"
  unfolding backupF_def backupV_def backup_eq
  by (rule copier_struct [where get = backupRefs and put = backupPut and mk = backupMean])
    (simp_all add: copier_pair meta_copier bspec.copier_axioms bstat.copier_axioms)

sublocale third_party \<subseteq> restore: copier "restoreF tv" "restoreV tv" "DeepCopyInto_DirectoryRestore tp"
  unfolding restoreF_def restoreV_def restore_eq
  by (rule copier_struct [where get = restoreRefs and put = restorePut and mk = restoreMean])
    (simp_all add: copier_pair meta_copier rspec.copier_axioms rstat.copier_axioms)

sublocale third_party \<subseteq> slist: copier "slistF tv" "slistV tv" "DeepCopyInto_DirectoryServiceList tp"
  unfolding slistF_def slistV_def slist_eq
  by (rule copier_struct [where get = slistRefs and put = slistPut and mk = "\<lambda>c. Pair (slTypeMeta c)"])
    (simp_all add: copier_pair copier_whenSome copier_slice copier_onCell cService.cell_type_axioms listMeta_copier service.copier_axioms)

sublocale third_party \<subseteq> blist: copier "blistF tv" "blistV tv" "DeepCopyInto_DirectoryBackupList tp"
  unfolding blistF_def blistV_def blist_eq
  by (rule copier_struct [where get = blistRefs and put = blistPut and mk = "\<lambda>c. Pair (blTypeMeta c)"])
    (simp_all add: copier_pair copier_whenSome copier_slice copier_onCell cBackup.cell_type_axioms listMeta_copier backup.copier_axioms)

sublocale third_party \<subseteq> rlist: copier "rlistF tv" "rlistV tv" "DeepCopyInto_DirectoryRestoreList tp"
  unfolding rlistF_def rlistV_def rlist_eq
  by (rule copier_struct [where get = rlistRefs and put = rlistPut and mk = "\<lambda>c. Pair (rlTypeMeta c)"])
    (simp_all add: copier_pair copier_whenSome copier_slice copier_onCell cRestore.cell_type_axioms listMeta_copier restore.copier_axioms)

section \<open>Copies behind pointers and interfaces\<close>

lemma deepCopyVia_whenSome: "deepCopyVia emb prj z into = whenSome (newCopy (emb z) (onCell emb prj into))"
  by (simp add: deepCopyVia_def whenSome_def fun_eq_iff split: option.splits)

lemma deepCopyVia_copier:
  "cell_type emb prj \<Longrightarrow> copier F V into \<Longrightarrow>
     copier (optF (varF (cellF prj F))) (optV (varV (cellV prj V))) (deepCopyVia emb prj z into)"
  unfolding deepCopyVia_whenSome by (intro copier_whenSome copier_newCopy copier_onCell)

text \<open>What a resource behind the interface is, with its kind.\<close>

datatype seenObject =
    SeenBackup "directoryBackup \<times> string \<times> bool list"
  | SeenBackupList "(directoryBackup \<times> string \<times> bool list) seenList"
  | SeenRestore "directoryRestore \<times> string \<times> bool list"
  | SeenRestoreList "(directoryRestore \<times> string \<times> bool list) seenList"
  | SeenService "directoryService \<times> string \<times> bool list"
  | SeenServiceList "(directoryService \<times> string \<times> bool list) seenList"

definition objV :: "'x thirdView \<Rightarrow> 'x gomem \<Rightarrow> runtimeObject \<Rightarrow> seenObject option" where
  "objV tv m obj =
     (case obj of
        BackupObj a \<Rightarrow> map_option SeenBackup (varV (cellV asBackup (backupV tv)) m a)
      | BackupListObj a \<Rightarrow> map_option SeenBackupList (varV (cellV asBackupList (blistV tv)) m a)
      | RestoreObj a \<Rightarrow> map_option SeenRestore (varV (cellV asRestore (restoreV tv)) m a)
      | RestoreListObj a \<Rightarrow> map_option SeenRestoreList (varV (cellV asRestoreList (rlistV tv)) m a)
      | ServiceObj a \<Rightarrow> map_option SeenService (varV (cellV asService (serviceV tv)) m a)
      | ServiceListObj a \<Rightarrow> map_option SeenServiceList (varV (cellV asServiceList (slistV tv)) m a))"

definition objF :: "'x thirdView \<Rightarrow> 'x gomem \<Rightarrow> runtimeObject \<Rightarrow> addr set" where
  "objF tv m obj =
     (case obj of
        BackupObj a \<Rightarrow> varF (cellF asBackup (backupF tv)) m a
      | BackupListObj a \<Rightarrow> varF (cellF asBackupList (blistF tv)) m a
      | RestoreObj a \<Rightarrow> varF (cellF asRestore (restoreF tv)) m a
      | RestoreListObj a \<Rightarrow> varF (cellF asRestoreList (rlistF tv)) m a
      | ServiceObj a \<Rightarrow> varF (cellF asService (serviceF tv)) m a
      | ServiceListObj a \<Rightarrow> varF (cellF asServiceList (slistF tv)) m a)"

text \<open>\<open>DeepCopyObject\<close> of a value that is not nil, with the result taken out of the interface.\<close>

definition copyObject :: "'x thirdParty \<Rightarrow> runtimeObject \<Rightarrow> ('x gomem, runtimeObject) M" where
  "copyObject tp obj =
     bindM (DeepCopyObject tp obj) (\<lambda>c. case c of Some obj' \<Rightarrow> ret obj' | None \<Rightarrow> panic NilDeref)"

lemma asObject_via:
  "asObject wrap (deepCopyVia emb prj z into (Some a)) =
     bindM (newCopy (emb z) (onCell emb prj into) a) (\<lambda>b. ret (Some (wrap b)))"
  by (simp add: asObject_def deepCopyVia_def bindM_assoc bindM_ret)

lemmas object_defs = DeepCopyObject_def asObject_via
  DeepCopyObject_DirectoryBackup_def DeepCopy_DirectoryBackup_def
  DeepCopyObject_DirectoryBackupList_def DeepCopy_DirectoryBackupList_def
  DeepCopyObject_DirectoryRestore_def DeepCopy_DirectoryRestore_def
  DeepCopyObject_DirectoryRestoreList_def DeepCopy_DirectoryRestoreList_def
  DeepCopyObject_DirectoryService_def DeepCopy_DirectoryService_def
  DeepCopyObject_DirectoryServiceList_def DeepCopy_DirectoryServiceList_def

lemma DeepCopyObject_copyObject:
  "DeepCopyObject tp obj = bindM (copyObject tp obj) (\<lambda>obj'. ret (Some obj'))"
  by (cases obj) (simp_all add: copyObject_def object_defs bindM_assoc bindM_ret)

text \<open>Wrapping the pointers a deep copy works on keeps the contract, kind by kind.\<close>

definition meets where
  "meets F V copy c \<longleftrightarrow>
     (\<forall>m a. memOk m \<longrightarrow> V m c = Some a \<longrightarrow>
       (\<exists>c' m'. copy c m = (Ret c', m') \<and> memOk m' \<and> extends m m' \<and> V m' c' = Some a \<and> F m' c' \<subseteq> {lim m ..< lim m'})) \<and>
     (\<forall>m m' a. V m c = Some a \<longrightarrow> (\<forall>x \<in> F m c. cells m' x = cells m x) \<longrightarrow> V m' c = Some a \<and> F m' c = F m c) \<and>
     (\<forall>m a. V m c = Some a \<longrightarrow> F m c \<subseteq> dom (cells m))"

lemma copier_meets:
  assumes "\<And>c. meets F V copy c"
  shows "copier F V copy"
proof -
  note parts = assms [unfolded meets_def]
  show ?thesis
    by (rule copierI [OF parts [THEN conjunct1, THEN spec, THEN spec, THEN mp, THEN mp]
          parts [THEN conjunct2, THEN conjunct1, THEN spec, THEN spec, THEN spec, THEN mp, THEN mp]
          parts [THEN conjunct2, THEN conjunct2, THEN spec, THEN spec, THEN mp]])
qed

lemma meets_wrap:
  assumes f: "copier F V f" and copy: "copy (wrap a) = bindM (f a) (\<lambda>b. ret (wrap b))"
    and V: "\<And>m b. V' m (wrap b) = map_option seen (V m b)" and F: "\<And>m b. F' m (wrap b) = F m b"
  shows "meets F' V' copy (wrap a)"
proof -
  have "\<exists>c' m'. copy (wrap a) m = (Ret c', m') \<and> memOk m' \<and> extends m m' \<and> V' m' c' = Some x \<and> F' m' c' \<subseteq> {lim m ..< lim m'}"
    if "memOk m" and x: "V' m (wrap a) = Some x" for m x
  proof -
    from x obtain y where y: "V m a = Some y" "x = seen y" by (auto simp: V)
    from copier.copies [OF f that(1) y(1)] obtain b m' where
      "f a m = (Ret b, m')" "memOk m'" "extends m m'" "V m' b = Some y" "F m' b \<subseteq> {lim m ..< lim m'}" by blast
    with y(2) show ?thesis by (intro exI [of _ "wrap b"] exI [of _ m']) (simp add: copy bindM_def ret_def V F)
  qed
  moreover have "V' m' (wrap a) = Some x \<and> F' m' (wrap a) = F' m (wrap a)"
    if "V' m (wrap a) = Some x" "\<forall>x \<in> F' m (wrap a). cells m' x = cells m x" for m m' x
  proof -
    from that(1) obtain y where y: "V m a = Some y" "x = seen y" by (auto simp: V)
    from copier.locality [OF f y(1), of m'] that(2) y(2) show ?thesis by (simp add: V F)
  qed
  moreover have "F' m (wrap a) \<subseteq> dom (cells m)" if "V' m (wrap a) = Some x" for m x
    using that copier.owned [OF f, of m a] by (force simp: V F)
  ultimately show ?thesis unfolding meets_def by blast
qed

sublocale third_party \<subseteq> object: copier "objF tv" "objV tv" "copyObject tp"
proof (rule copier_meets)
  show "meets (objF tv) (objV tv) (copyObject tp) obj" for obj
  proof (cases obj)
    case (BackupObj a)
    show ?thesis unfolding BackupObj
      by (rule meets_wrap [OF copier_newCopy [OF copier_onCell [OF cBackup.cell_type_axioms backup.copier_axioms]]])
        (simp_all add: copyObject_def object_defs objV_def objF_def bindM_assoc bindM_ret)
  next
    case (BackupListObj a)
    show ?thesis unfolding BackupListObj
      by (rule meets_wrap [OF copier_newCopy [OF copier_onCell [OF cBackupList.cell_type_axioms blist.copier_axioms]]])
        (simp_all add: copyObject_def object_defs objV_def objF_def bindM_assoc bindM_ret)
  next
    case (RestoreObj a)
    show ?thesis unfolding RestoreObj
      by (rule meets_wrap [OF copier_newCopy [OF copier_onCell [OF cRestore.cell_type_axioms restore.copier_axioms]]])
        (simp_all add: copyObject_def object_defs objV_def objF_def bindM_assoc bindM_ret)
  next
    case (RestoreListObj a)
    show ?thesis unfolding RestoreListObj
      by (rule meets_wrap [OF copier_newCopy [OF copier_onCell [OF cRestoreList.cell_type_axioms rlist.copier_axioms]]])
        (simp_all add: copyObject_def object_defs objV_def objF_def bindM_assoc bindM_ret)
  next
    case (ServiceObj a)
    show ?thesis unfolding ServiceObj
      by (rule meets_wrap [OF copier_newCopy [OF copier_onCell [OF cService.cell_type_axioms service.copier_axioms]]])
        (simp_all add: copyObject_def object_defs objV_def objF_def bindM_assoc bindM_ret)
  next
    case (ServiceListObj a)
    show ?thesis unfolding ServiceListObj
      by (rule meets_wrap [OF copier_newCopy [OF copier_onCell [OF cServiceList.cell_type_axioms slist.copier_axioms]]])
        (simp_all add: copyObject_def object_defs objV_def objF_def bindM_assoc bindM_ret)
  qed
qed

text \<open>The contract as a fact about the parameters.\<close>

context third_party
begin

lemmas object_copier = object.copier_axioms

end

text \<open>Nil in, nil out: a nil interface value, not an interface holding a nil pointer.\<close>

lemma asObject_nil: "asObject wrap (deepCopyVia emb prj z into None) = ret None"
  by (simp add: asObject_def deepCopyVia_def bindM_ret)

section \<open>An instance\<close>

text \<open>
  Structures of the other packages with the labels of an object behind a pointer and everything
  else plain. A map may be visited in any order: here backwards.
\<close>

datatype extStruct =
    XMeta "objectMeta \<times> ptr"
  | XList string
  | XRes string
  | XClaim persistentVolumeClaimSpec
  | XEnvFrom string
  | XEnv envVar
  | XTime time

definition asXMeta :: "extStruct \<Rightarrow> (objectMeta \<times> ptr) option" where
  "asXMeta x = (case x of XMeta p \<Rightarrow> Some p | _ \<Rightarrow> None)"

interpretation cXMeta: cell_type XMeta asXMeta
  by unfold_locales (auto simp: asXMeta_def split: extStruct.splits)

definition demoTime :: "extStruct goval \<Rightarrow> time option" where
  "demoTime v = (case v of VExt (XTime t) \<Rightarrow> Some t | _ \<Rightarrow> None)"

definition demoLabels :: "extStruct gomem \<Rightarrow> objectMeta \<times> ptr \<Rightarrow> objectMeta option" where
  "demoLabels = (\<lambda>m c. map_option (\<lambda>l. (fst c)\<lparr>Labels := l\<rparr>) (optV (varV (mapV asLabels)) m (snd c)))"

definition demoLabelsF :: "extStruct gomem \<Rightarrow> objectMeta \<times> ptr \<Rightarrow> addr set" where
  "demoLabelsF = (\<lambda>m c. plainVarF m (snd c))"

definition demoMetaCopy :: "objectMeta \<times> ptr \<Rightarrow> (extStruct gomem, objectMeta \<times> ptr) M" where
  "demoMetaCopy = (\<lambda>c. bindM (whenSome (copyMap VLabels asLabels rev) (snd c)) (\<lambda>p. ret (fst c, p)))"

definition demoTP :: "extStruct thirdParty" where
  "demoTP = \<lparr>zeroObjectMeta = XMeta (zeroMeta, None), zeroListMeta = XList '''', zeroResources = XRes '''',
     zeroVolumeClaimSpec = XClaim \<lparr>DataSource = None, pvcOther = ''''\<rparr>, zeroEnvFromSource = XEnvFrom '''',
     zeroEnvVar = XEnv \<lparr>envName = '''', envValue = '''', envValueFrom = None\<rparr>,
     Time_DeepCopy = newCopy (VExt (XTime None)) ret,
     ObjectMeta_DeepCopyInto = onCell XMeta asXMeta demoMetaCopy, ListMeta_DeepCopyInto = ret,
     ResourceRequirements_DeepCopyInto = ret, PersistentVolumeClaimSpec_DeepCopyInto = ret,
     EnvFromSource_DeepCopyInto = ret, EnvVar_DeepCopyInto = ret, rangeLabels = rev, rangePasswords = rev\<rparr>"

definition demoTV :: "extStruct thirdView" where
  "demoTV = \<lparr>timeF = varF (\<lambda>_ _. {}), timeV = varV (\<lambda>_. demoTime),
     metaF = cellF asXMeta demoLabelsF, metaV = cellV asXMeta demoLabels,
     listMetaF = (\<lambda>_ _. {}), listMetaV = (\<lambda>_ x. case x of XList s \<Rightarrow> Some s | _ \<Rightarrow> None),
     resF = (\<lambda>_ _. {}), resV = (\<lambda>_ x. case x of XRes s \<Rightarrow> Some s | _ \<Rightarrow> None),
     claimF = (\<lambda>_ _. {}), claimV = (\<lambda>_ x. case x of XClaim s \<Rightarrow> Some s | _ \<Rightarrow> None),
     envFromF = (\<lambda>_ _. {}), envFromV = (\<lambda>_ x. case x of XEnvFrom s \<Rightarrow> Some s | _ \<Rightarrow> None),
     envF = (\<lambda>_ _. {}), envV = (\<lambda>_ x. case x of XEnv s \<Rightarrow> Some s | _ \<Rightarrow> None)\<rparr>"

lemma demoMetaCopy_copier: "copier demoLabelsF demoLabels demoMetaCopy"
  unfolding demoLabelsF_def demoLabels_def demoMetaCopy_def
  by (rule copier_struct [where get = snd and put = "\<lambda>p c. (fst c, p)" and mk = "\<lambda>c l. (fst c)\<lparr>Labels := l\<rparr>"])
    (simp_all add: copier_whenSome copier_map cLabels.cell_type_axioms)

interpretation demo: third_party demoTP demoTV
  by (rule third_party.intro) (simp_all add: demoTP_def demoTV_def copier_newCopy copier_ret copier_onCell
      cXMeta.cell_type_axioms demoMetaCopy_copier)

text \<open>
  A service whose specification and metadata share one map of labels, with one environment
  variable out of an array of three and a replica count behind a pointer.
\<close>

definition demoEnv :: "string \<Rightarrow> extStruct goval" where
  "demoEnv n = VExt (XEnv \<lparr>envName = n, envValue = ''1'', envValueFrom = None\<rparr>)"

definition demoService :: "extStruct memService" where
  "demoService = (zeroDirectoryService demoTP)\<lparr>
     msTypeMeta := \<lparr>tmKind = ''DirectoryService'', tmAPIVersion = GroupVersion\<rparr>,
     msObjectMeta := XMeta (named ''ns'' ''ds'', Some 1),
     msSpec := (zeroServiceSpec demoTP)\<lparr>
       msLabels := Some 1,
       msPodTemplate := (zeroPod demoTP)\<lparr>mEnv := Some \<lparr>sBase = 3, sOff = 1, sLen = 1\<rparr>\<rparr>,
       msReplicas := Some 2\<rparr>\<rparr>"

definition demoMem :: "extStruct gomem" where
  "demoMem = \<lparr>cells = [0 \<mapsto> [VService demoService], 1 \<mapsto> [VLabels [(''a'', ''x''), (''b'', ''y'')]],
     2 \<mapsto> [VInt32 3], 3 \<mapsto> [demoEnv ''P'', demoEnv ''Q'', demoEnv ''R'']], lim = 4\<rparr>"

lemma demoMem_ok: "memOk demoMem"
  by (auto simp: memOk_def demoMem_def split: if_splits)

lemmas view_defs = serviceV_def specV_def statusV_def podV_def proxyV_def pairV_def optV_def varV_def cellV_def sliceV_def
  mapV_def window_def serviceRefs_def specRefs_def statusRefs_def podRefs_def asService_def asLabels_def asInt32_def asExt_def

lemma demoService_view:
  "serviceV demoTV demoMem demoService = Some
     (\<lparr>ObjectMeta = (named ''ns'' ''ds'')\<lparr>Labels := Some [''a'' \<mapsto> ''x'', ''b'' \<mapsto> ''y'']\<rparr>, dsKind = ''DirectoryService'',
       Spec = \<lparr>specLabels = Some [''a'' \<mapsto> ''x'', ''b'' \<mapsto> ''y''],
         PodTemplate = \<lparr>tImage = '''', tImagePullPolicy = '''', tImagePullSecrets = [], tResources = '''',
           Certificates = zeroSecrets, VolumeClaimSpec = \<lparr>DataSource = None, pvcOther = ''''\<rparr>, ScriptConfigMapName = '''',
           tInitEnvFrom = [], tEnv = [\<lparr>envName = ''Q'', envValue = ''1'', envValueFrom = None\<rparr>], tEnvFrom = [],
           VolumeSnapshotClassName = '''', tServiceAccountName = ''''\<rparr>,
         Replicas = Some 3, Passwords = None, Snapshots = zeroSnapshotSpec,
         Proxy = \<lparr>proxyEnabled = False, proxyImage = '''', proxyReplicas = 0, PrimaryGroupID = '''', proxyResources = ''''\<rparr>\<rparr>,
       Status = \<lparr>Active = [], CurrentReplicas = None, ServerMessage = '''', ProxyStatus = zeroProxyStatus,
         SnapshotStatus = zeroSnapshotStatus\<rparr>\<rparr>,
      GroupVersion, [True, True, False, True, True])"
  by (simp add: view_defs demoTV_def demoMem_def demoService_def demoEnv_def demoTP_def zeroServiceSpec_def zeroPod_def
      zeroProxy_def zeroDirectoryService_def zeroServiceStatus_def demoLabels_def asXMeta_def elems_def proxyMean_def
      fun_eq_iff)

lemma demoObject_view: "objV demoTV demoMem (ServiceObj 0) \<noteq> None"
proof -
  have "objV demoTV demoMem (ServiceObj 0) = map_option SeenService (serviceV demoTV demoMem demoService)"
    by (simp add: objV_def varV_def cellV_def asService_def demoMem_def)
  then show ?thesis by (simp add: demoService_view)
qed

section \<open>Properties\<close>

text \<open>
  Property C18. Copying a resource through \<open>runtime.Object\<close>, whichever of the six root types it
  is, succeeds and gives the same resource: same kind, metadata, specification and status, same
  items in a list, nil where the original is nil. The copy consists of cells that did
  not exist before, the original is as it was, and the two have no cell in common, even where
  parts of the original share one.
\<close>

theorem deepCopyObject_same:
  assumes "third_party tp tv" and "memOk m" and "objV tv m obj = Some x"
  shows "\<exists>obj' m'. DeepCopyObject tp obj m = (Ret (Some obj'), m') \<and> memOk m' \<and> extends m m' \<and>
    objV tv m' obj' = Some x \<and> objV tv m' obj = Some x \<and>
    objF tv m' obj' \<inter> dom (cells m) = {} \<and> objF tv m' obj' \<inter> objF tv m' obj = {}"
proof -
  note cop = third_party.object_copier [OF assms(1)]
  from copier.copies [OF cop assms(2,3)] obtain obj' m' where
    run: "copyObject tp obj m = (Ret obj', m')" "memOk m'" "extends m m'" "objV tv m' obj' = Some x"
      "objF tv m' obj' \<subseteq> {lim m ..< lim m'}" by blast
  have "dom (cells m) \<subseteq> {..< lim m}" using assms(2) by (auto simp: memOk_def)
  with run(5) have "objF tv m' obj' \<inter> dom (cells m) = {}" by fastforce
  moreover have "objF tv m' obj = objF tv m obj" "objV tv m' obj = Some x"
    using copier.view_extends [OF cop assms(2) run(3) assms(3)] by simp_all
  moreover have "objF tv m' obj' \<inter> objF tv m obj = {}"
    by (rule copier.independent(1) [OF cop assms(2,3) run(1)])
  moreover have "DeepCopyObject tp obj m = (Ret (Some obj'), m')"
    using run(1) by (simp add: DeepCopyObject_copyObject bindM_def ret_def)
  ultimately show ?thesis using run by (intro exI [of _ obj'] exI [of _ m']) simp
qed

theorem deepCopyObject_same_witness:
  "\<exists>obj' m'. DeepCopyObject demoTP (ServiceObj 0) demoMem = (Ret (Some obj'), m') \<and>
     objV demoTV m' obj' = objV demoTV demoMem (ServiceObj 0) \<and>
     objF demoTV m' obj' \<inter> dom (cells demoMem) = {}"
proof -
  obtain x where x: "objV demoTV demoMem (ServiceObj 0) = Some x" using demoObject_view by blast
  from deepCopyObject_same [OF demo.third_party_axioms demoMem_ok x] x show ?thesis by auto
qed

text \<open>
  Property C17. After the copy the two resources are independent: whatever is written into cells of
  the copy, the original still reads the same, and whatever is written anywhere else, the
  copy still reads the same.
\<close>

theorem deepCopyObject_independent:
  assumes "third_party tp tv" and "memOk m" and "objV tv m obj = Some x"
    and "DeepCopyObject tp obj m = (Ret (Some obj'), m')"
  shows "(\<forall>m2. (\<forall>a. a \<notin> objF tv m' obj' \<longrightarrow> cells m2 a = cells m' a) \<longrightarrow> objV tv m2 obj = Some x) \<and>
    (\<forall>m2. (\<forall>a \<in> objF tv m' obj'. cells m2 a = cells m' a) \<longrightarrow> objV tv m2 obj' = Some x)"
proof -
  note cop = third_party.object_copier [OF assms(1)]
  have run: "copyObject tp obj m = (Ret obj', m')"
    using assms(4) by (auto simp: DeepCopyObject_copyObject bindM_eq_Ret ret_def)
  with copier.copies [OF cop assms(2,3)] have "objF tv m' obj' \<subseteq> {lim m ..< lim m'}" by auto
  then have "\<forall>a < lim m. a \<notin> objF tv m' obj'" by fastforce
  with copier.independent(2,3) [OF cop assms(2,3) run] show ?thesis by blast
qed

theorem deepCopyObject_independent_witness:
  "\<exists>obj' m' m2. DeepCopyObject demoTP (ServiceObj 0) demoMem = (Ret (Some obj'), m') \<and>
     m2 = m'\<lparr>cells := (cells m')(1 \<mapsto> [VLabels []], 2 \<mapsto> [VInt32 0])\<rparr> \<and>
     objV demoTV m2 obj' = objV demoTV demoMem (ServiceObj 0)"
proof -
  obtain x where x: "objV demoTV demoMem (ServiceObj 0) = Some x" using demoObject_view by blast
  from copier.copies [OF demo.object.copier_axioms demoMem_ok x] obtain obj' m' where
    c: "copyObject demoTP (ServiceObj 0) demoMem = (Ret obj', m')" "objF demoTV m' obj' \<subseteq> {lim demoMem ..< lim m'}" by blast
  have run: "DeepCopyObject demoTP (ServiceObj 0) demoMem = (Ret (Some obj'), m')"
    using c(1) by (simp add: DeepCopyObject_copyObject bindM_def ret_def)
  have "4 \<le> a" if "a \<in> objF demoTV m' obj'" for a using c(2) that by (auto simp: demoMem_def)
  then have "\<forall>a \<in> objF demoTV m' obj'. cells (m'\<lparr>cells := (cells m')(1 \<mapsto> [VLabels []], 2 \<mapsto> [VInt32 0])\<rparr>) a = cells m' a"
    by force
  with deepCopyObject_independent [OF demo.third_party_axioms demoMem_ok x run] x run show ?thesis by simp
qed

end
