(* ===== verification/Process_Start.thy ===== *)
theory Process_Start
  imports Ds_Controller Backups Restores "HOL-Library.Sublist"
begin

text \<open>
  The start of the operator process: \<open>src/main.go\<close>, the \<open>SetupWithManager\<close> methods of the three
  controllers, the registration of the webhook and of the API types.

  \<^item> The command line, as the package \<open>flag\<close> of the standard library parses it.
  \<^item> The calls into the controller library, in the order the code makes them. The library
    (schemes, manager, builders) is a parameter; every call is recorded, so that the order can be
    stated.
  \<^item> The plan of a start as a list of calls, and the proof that \<open>main\<close> works it off up to the first
    failure.
  \<^item> What the registration of the backup controller amounts to: the objects it makes do not wake it.

  The \<open>init\<close> functions of the controllers package make none of the recorded calls: one sets the
  switches of \<open>initFlags\<close>, the other seeds the random source.
\<close>

section \<open>The command line\<close>

text \<open>Lines 51 to 59 of \<open>main.go\<close>: two flags of the operator, further ones bound by libraries.\<close>

record startOptions =
  metricsAddr :: string
  enableLeaderElection :: bool

definition defaultOptions :: startOptions where
  "defaultOptions = \<lparr>metricsAddr = '':8080'', enableLeaderElection = False\<rparr>"

datatype flagKind = BoolFlag | ValueFlag

text \<open>The flags of libraries: name to kind, and which values are acceptable.\<close>

type_synonym libFlags = "string \<Rightarrow> (flagKind \<times> (string \<Rightarrow> bool)) option"

text \<open>\<open>strconv.ParseBool\<close>\<close>

definition parseBool :: "string \<Rightarrow> bool option" where
  "parseBool s =
     (if s \<in> {''1'', ''t'', ''T'', ''TRUE'', ''true'', ''True''} then Some True
      else if s \<in> {''0'', ''f'', ''F'', ''FALSE'', ''false'', ''False''} then Some False
      else None)"

definition kindOfFlag :: "libFlags \<Rightarrow> string \<Rightarrow> flagKind option" where
  "kindOfFlag lf n =
     (if n = ''metrics-addr'' then Some ValueFlag
      else if n = ''enable-leader-election'' then Some BoolFlag
      else map_option fst (lf n))"

text \<open>Setting a flag; \<open>None\<close> if its value is not acceptable.\<close>

definition setFlag :: "libFlags \<Rightarrow> startOptions \<Rightarrow> string \<Rightarrow> string \<Rightarrow> startOptions option" where
  "setFlag lf opts n v =
     (if n = ''metrics-addr'' then Some (opts\<lparr>metricsAddr := v\<rparr>)
      else if n = ''enable-leader-election'' then map_option (\<lambda>b. opts\<lparr>enableLeaderElection := b\<rparr>) (parseBool v)
      else case lf n of Some (_, ok) \<Rightarrow> if ok v then Some opts else None | None \<Rightarrow> None)"

text \<open>An argument is no flag (parsing ends), malformed, or a name with perhaps a value.\<close>

datatype flagForm = NoFlag | BadFlag | NameOnly string | NameValue string string

definition splitName :: "string \<Rightarrow> flagForm" where
  "splitName n =
     (case n of
        [] \<Rightarrow> BadFlag
      | c # cs \<Rightarrow>
          if c = CHR ''-'' \<or> c = CHR ''='' then BadFlag
          else if CHR ''='' \<in> set cs then
            NameValue (c # takeWhile (\<lambda>d. d \<noteq> CHR ''='') cs) (tl (dropWhile (\<lambda>d. d \<noteq> CHR ''='') cs))
          else NameOnly n)"

definition flagArg :: "string \<Rightarrow> flagForm" where
  "flagArg s =
     (case s of
        a # b # cs \<Rightarrow>
          if a \<noteq> CHR ''-'' then NoFlag
          else if b = CHR ''-'' then (if cs = [] then NoFlag else splitName cs)
          else splitName (b # cs)
      | _ \<Rightarrow> NoFlag)"

text \<open>
  \<open>flag.Parse\<close> with the error handling of the command line: the status with which the process
  exits (0 after a request for help, 2 after an error), or the options.
\<close>

fun parseFlags :: "libFlags \<Rightarrow> startOptions \<Rightarrow> string list \<Rightarrow> int + startOptions" where
  "parseFlags lf opts [] = Inr opts"
| "parseFlags lf opts (s # args) =
     (case flagArg s of
        NoFlag \<Rightarrow> Inr opts
      | BadFlag \<Rightarrow> Inl 2
      | NameValue n v \<Rightarrow>
          (case kindOfFlag lf n of
             None \<Rightarrow> Inl (if n = ''help'' \<or> n = ''h'' then 0 else 2)
           | Some _ \<Rightarrow> (case setFlag lf opts n v of None \<Rightarrow> Inl 2 | Some opts' \<Rightarrow> parseFlags lf opts' args))
      | NameOnly n \<Rightarrow>
          (case kindOfFlag lf n of
             None \<Rightarrow> Inl (if n = ''help'' \<or> n = ''h'' then 0 else 2)
           | Some BoolFlag \<Rightarrow>
               (case setFlag lf opts n ''true'' of None \<Rightarrow> Inl 2 | Some opts' \<Rightarrow> parseFlags lf opts' args)
           | Some ValueFlag \<Rightarrow>
               (case args of
                  [] \<Rightarrow> Inl 2
                | v # args' \<Rightarrow>
                    (case setFlag lf opts n v of None \<Rightarrow> Inl 2 | Some opts' \<Rightarrow> parseFlags lf opts' args'))))"

section \<open>Calls into the libraries\<close>

text \<open>What a controller is built for: the kind it reconciles and the kinds it owns.\<close>

record controllerSetup =
  csFor :: kind
  csOwns :: "kind list"

record managerOptions =
  optMetrics :: string
  optLeaderElection :: bool
  optLeaderElectionID :: string

datatype startCall =
    CallRegister "string list"
  | CallAddToScheme string
  | CallGetConfig
  | CallNewManager managerOptions
  | CallRecorder string
  | CallController controllerSetup
  | CallWebhook kind
  | CallStart

text \<open>
  The configuration, the scheme and the manager live in the outside world \<open>'w\<close>.
  \<open>GetConfigOrDie\<close> yields the status if it ends the process; \<open>Must\<close> is \<open>utilruntime.Must\<close>.
\<close>

record 'w startLib =
  boundFlags :: libFlags
  Register :: "string list \<Rightarrow> 'w \<Rightarrow> unit \<times> 'w"
  AddToScheme :: "string \<Rightarrow> 'w \<Rightarrow> goerr option \<times> 'w"
  Must :: "goerr option \<Rightarrow> unit result"
  GetConfigOrDie :: "'w \<Rightarrow> int option \<times> 'w"
  NewManager :: "managerOptions \<Rightarrow> 'w \<Rightarrow> goerr option \<times> 'w"
  GetEventRecorderFor :: "string \<Rightarrow> 'w \<Rightarrow> unit \<times> 'w"
  CompleteController :: "controllerSetup \<Rightarrow> 'w \<Rightarrow> goerr option \<times> 'w"
  CompleteWebhook :: "kind \<Rightarrow> 'w \<Rightarrow> goerr option \<times> 'w"
  StartManager :: "'w \<Rightarrow> goerr option \<times> 'w"

text \<open>The calls made so far, and the world.\<close>

type_synonym 'w proc = "startCall list \<times> 'w"

definition external :: "startCall \<Rightarrow> ('w \<Rightarrow> 'a \<times> 'w) \<Rightarrow> ('w proc, 'a) M" where
  "external c f = callM (\<lambda>(calls, w). case f w of (x, w') \<Rightarrow> (x, (calls @ [c], w')))"

section \<open>Package initialisation\<close>

text \<open>The \<open>init\<close> functions of the API package, in the order of the file names.\<close>

definition initBackupTypes :: "'w startLib \<Rightarrow> ('w proc, unit) M" where
  "initBackupTypes lib = (let ts = [''DirectoryBackup'', ''DirectoryBackupList''] in external (CallRegister ts) (Register lib ts))"

definition initRestoreTypes :: "'w startLib \<Rightarrow> ('w proc, unit) M" where
  "initRestoreTypes lib = (let ts = [''DirectoryRestore'', ''DirectoryRestoreList''] in external (CallRegister ts) (Register lib ts))"

definition initServiceTypes :: "'w startLib \<Rightarrow> ('w proc, unit) M" where
  "initServiceTypes lib = (let ts = [''DirectoryService'', ''DirectoryServiceList''] in external (CallRegister ts) (Register lib ts))"

definition must :: "'w startLib \<Rightarrow> goerr option \<Rightarrow> ('v, unit) M" where
  "must lib err w = (Must lib err, w)"

definition initMain :: "'w startLib \<Rightarrow> ('w proc, unit) M" where
  "initMain lib =
     bindM (external (CallAddToScheme ''client-go'') (AddToScheme lib ''client-go'')) (\<lambda>err.
     bindM (must lib err) (\<lambda>_.
     bindM (external (CallAddToScheme GroupVersion) (AddToScheme lib GroupVersion)) (\<lambda>err.
     must lib err)))"

section \<open>Registering controllers and webhook\<close>

definition serviceSetup :: controllerSetup where
  "serviceSetup = \<lparr>csFor = KDs, csOwns = [KSecret, KSts]\<rparr>"

definition SetupWithManager_DirectoryService :: "'w startLib \<Rightarrow> ('w proc, goerr option) M" where
  "SetupWithManager_DirectoryService lib =
     bindM (external (CallRecorder ''DirectoryService'') (GetEventRecorderFor lib ''DirectoryService'')) (\<lambda>_.
     external (CallController serviceSetup) (CompleteController lib serviceSetup))"

definition backupSetup :: controllerSetup where
  "backupSetup = \<lparr>csFor = KDb, csOwns = [KPvc, KSnap, KJob]\<rparr>"

definition SetupWithManager_DirectoryBackup :: "'w startLib \<Rightarrow> ('w proc, goerr option) M" where
  "SetupWithManager_DirectoryBackup lib = external (CallController backupSetup) (CompleteController lib backupSetup)"

definition restoreSetup :: controllerSetup where
  "restoreSetup = \<lparr>csFor = KDr, csOwns = []\<rparr>"

definition SetupWithManager_DirectoryRestore :: "'w startLib \<Rightarrow> ('w proc, goerr option) M" where
  "SetupWithManager_DirectoryRestore lib = external (CallController restoreSetup) (CompleteController lib restoreSetup)"

definition SetupWebhookWithManager :: "'w startLib \<Rightarrow> ('w proc, goerr option) M" where
  "SetupWebhookWithManager lib = external (CallWebhook KDs) (CompleteWebhook lib KDs)"

section \<open>main\<close>

text \<open>How the process ends: by \<open>os.Exit\<close>, or because \<open>main\<close> returns.\<close>

datatype finish = Exited int | Finished

definition exit1 :: "goerr \<Rightarrow> ('w, finish) M" where
  "exit1 err = ret (Exited 1)"

definition managerOptionsOf :: "startOptions \<Rightarrow> managerOptions" where
  "managerOptionsOf opts = \<lparr>optMetrics = metricsAddr opts, optLeaderElection = enableLeaderElection opts,
     optLeaderElectionID = ''5bca1d4b.forgerock.io''\<rparr>"

text \<open>Lines 91 to 112 of \<open>main.go\<close>, after the webhooks.\<close>

definition mainControllers :: "'w startLib \<Rightarrow> ('w proc, finish) M" where
  "mainControllers lib =
     checkM (SetupWithManager_DirectoryBackup lib) exit1
     (checkM (SetupWithManager_DirectoryRestore lib) exit1
     (checkM (external CallStart (StartManager lib)) exit1
     (ret Finished)))"

definition main :: "'w startLib \<Rightarrow> (string \<Rightarrow> string) \<Rightarrow> string list \<Rightarrow> ('w proc, finish) M" where
  "main lib getenv args =
     (case parseFlags (boundFlags lib) defaultOptions args of
        Inl status \<Rightarrow> ret (Exited status)
      | Inr opts \<Rightarrow>
          bindM (external (CallAddToScheme ''snapshot'') (AddToScheme lib ''snapshot'')) (\<lambda>_.
          bindM (external CallGetConfig (GetConfigOrDie lib)) (\<lambda>died.
          case died of
            Some status \<Rightarrow> ret (Exited status)
          | None \<Rightarrow>
              (let mo = managerOptionsOf opts in
               checkM (external (CallNewManager mo) (NewManager lib mo)) exit1
               (checkM (SetupWithManager_DirectoryService lib) exit1
               (if getenv ''ENABLE_WEBHOOKS'' = ''true''
                then checkM (SetupWebhookWithManager lib) exit1 (mainControllers lib)
                else mainControllers lib))))))"

text \<open>The process: package initialisation, imported packages first, then \<open>main\<close>.\<close>

definition process :: "'w startLib \<Rightarrow> (string \<Rightarrow> string) \<Rightarrow> string list \<Rightarrow> ('w proc, finish) M" where
  "process lib getenv args =
     bindM (initBackupTypes lib) (\<lambda>_.
     bindM (initRestoreTypes lib) (\<lambda>_.
     bindM (initServiceTypes lib) (\<lambda>_.
     bindM (initMain lib) (\<lambda>_.
     main lib getenv args))))"

section \<open>The plan of a start\<close>

definition webhooksEnabled :: "(string \<Rightarrow> string) \<Rightarrow> bool" where
  "webhooksEnabled getenv \<longleftrightarrow> getenv ''ENABLE_WEBHOOKS'' = ''true''"

definition startPlan :: "(string \<Rightarrow> string) \<Rightarrow> startOptions \<Rightarrow> startCall list" where
  "startPlan getenv opts =
     [CallAddToScheme ''snapshot'', CallGetConfig, CallNewManager (managerOptionsOf opts),
      CallRecorder ''DirectoryService'', CallController serviceSetup] @
     (if webhooksEnabled getenv then [CallWebhook KDs] else []) @
     [CallController backupSetup, CallController restoreSetup, CallStart]"

definition initPlan :: "startCall list" where
  "initPlan =
     [CallRegister [''DirectoryBackup'', ''DirectoryBackupList''],
      CallRegister [''DirectoryRestore'', ''DirectoryRestoreList''],
      CallRegister [''DirectoryService'', ''DirectoryServiceList''],
      CallAddToScheme ''client-go'', CallAddToScheme GroupVersion]"

text \<open>One call of the plan: the exit status if it ends the process. The error of \<open>AddToScheme\<close> is dropped.\<close>

definition statusOf :: "goerr option \<Rightarrow> int option" where
  "statusOf err = map_option (\<lambda>_. 1) err"

definition perform :: "'w startLib \<Rightarrow> startCall \<Rightarrow> 'w \<Rightarrow> int option \<times> 'w" where
  "perform lib c w =
     (case c of
        CallRegister ts \<Rightarrow> (None, snd (Register lib ts w))
      | CallAddToScheme s \<Rightarrow> (None, snd (AddToScheme lib s w))
      | CallGetConfig \<Rightarrow> GetConfigOrDie lib w
      | CallNewManager mo \<Rightarrow> apfst statusOf (NewManager lib mo w)
      | CallRecorder n \<Rightarrow> (None, snd (GetEventRecorderFor lib n w))
      | CallController cs \<Rightarrow> apfst statusOf (CompleteController lib cs w)
      | CallWebhook k \<Rightarrow> apfst statusOf (CompleteWebhook lib k w)
      | CallStart \<Rightarrow> apfst statusOf (StartManager lib w))"

fun runPlan :: "'w startLib \<Rightarrow> startCall list \<Rightarrow> 'w \<Rightarrow> int option \<times> startCall list \<times> 'w" where
  "runPlan lib [] w = (None, [], w)"
| "runPlan lib (c # cs) w =
     (case perform lib c w of
        (Some st, w') \<Rightarrow> (Some st, [c], w')
      | (None, w') \<Rightarrow> (case runPlan lib cs w' of (r, made, w'') \<Rightarrow> (r, c # made, w'')))"

lemma runPlan_made:
  assumes "runPlan lib cs w = (r, made, w')"
  shows "prefix made cs" "r = None \<Longrightarrow> made = cs"
  using assms by (induction cs arbitrary: w made) (auto split: prod.splits option.splits)

text \<open>The last call of a plan is made only if everything before it went well.\<close>

lemma runPlan_last:
  "runPlan lib (cs @ [c]) w = (r, made, w') \<Longrightarrow> c \<notin> set cs \<Longrightarrow> c \<in> set made \<Longrightarrow>
     made = cs @ [c] \<and> fst (runPlan lib cs w) = None"
  by (induction cs arbitrary: w made) (fastforce split: prod.splits option.splits)+

lemma external_run: "bindM (external c f) k (calls, w) = k (fst (f w)) (calls @ [c], snd (f w))"
  by (simp add: external_def callM_def bindM_def split: prod.splits)

lemma checkM_external_run:
  "checkM (external c f) exit1 k (calls, w) =
     (case f w of (Some err, w') \<Rightarrow> (Ret (Exited 1), (calls @ [c], w')) | (None, w') \<Rightarrow> k (calls @ [c], w'))"
  by (simp add: checkM_def external_run exit1_def ret_def split: prod.splits option.splits)

text \<open>What \<open>main\<close> makes of the outcome of a plan.\<close>

definition finishing :: "startCall list \<Rightarrow> int option \<times> startCall list \<times> 'w \<Rightarrow> finish result \<times> 'w proc" where
  "finishing calls p = (case p of (st, made, w) \<Rightarrow> (Ret (case st of None \<Rightarrow> Finished | Some s \<Rightarrow> Exited s), (calls @ made, w)))"

lemma finishing_Cons:
  "finishing calls (runPlan lib (c # cs) w) =
     (case perform lib c w of
        (Some st, w') \<Rightarrow> (Ret (Exited st), (calls @ [c], w'))
      | (None, w') \<Rightarrow> finishing (calls @ [c]) (runPlan lib cs w'))"
  by (simp add: finishing_def split: prod.splits option.splits)

lemma finishing_Nil: "finishing calls (runPlan lib [] w) = (Ret Finished, (calls, w))"
  by (simp add: finishing_def)

lemma mainControllers_plan:
  "mainControllers lib (calls, w) =
     finishing calls (runPlan lib [CallController backupSetup, CallController restoreSetup, CallStart] w)"
  unfolding mainControllers_def SetupWithManager_DirectoryBackup_def SetupWithManager_DirectoryRestore_def
  by (simp add: finishing_Cons finishing_Nil checkM_external_run perform_def statusOf_def apfst_def ret_def
      del: runPlan.simps split: prod.splits option.splits)

lemma webhook_plan:
  "(if webhooksEnabled getenv then checkM (SetupWebhookWithManager lib) exit1 (mainControllers lib) else mainControllers lib) (calls, w) =
     finishing calls (runPlan lib ((if webhooksEnabled getenv then [CallWebhook KDs] else []) @
       [CallController backupSetup, CallController restoreSetup, CallStart]) w)"
  by (simp add: SetupWebhookWithManager_def checkM_external_run mainControllers_plan finishing_Cons perform_def statusOf_def apfst_def
      del: runPlan.simps split: prod.splits option.splits)

lemma setupService_run:
  "checkM (SetupWithManager_DirectoryService lib) exit1 k (calls, w) =
     (case CompleteController lib serviceSetup (snd (GetEventRecorderFor lib ''DirectoryService'' w)) of
        (Some err, w') \<Rightarrow> (Ret (Exited 1), (calls @ [CallRecorder ''DirectoryService'', CallController serviceSetup], w'))
      | (None, w') \<Rightarrow> k (calls @ [CallRecorder ''DirectoryService'', CallController serviceSetup], w'))"
  by (simp add: checkM_def SetupWithManager_DirectoryService_def bindM_assoc external_run exit1_def ret_def split: prod.splits option.splits)

lemma main_plan:
  assumes "parseFlags (boundFlags lib) defaultOptions args = Inr opts"
  shows "main lib getenv args (calls, w) = finishing calls (runPlan lib (startPlan getenv opts) w)"
proof -
  have "main lib getenv args (calls, w) =
    (case GetConfigOrDie lib (snd (AddToScheme lib ''snapshot'' w)) of
       (Some st, w1) \<Rightarrow> (Ret (Exited st), (calls @ [CallAddToScheme ''snapshot'', CallGetConfig], w1))
     | (None, w1) \<Rightarrow> (case NewManager lib (managerOptionsOf opts) w1 of
         (Some err, w2) \<Rightarrow> (Ret (Exited 1), (calls @ [CallAddToScheme ''snapshot'', CallGetConfig, CallNewManager (managerOptionsOf opts)], w2))
       | (None, w2) \<Rightarrow>
           checkM (SetupWithManager_DirectoryService lib) exit1
             (if webhooksEnabled getenv then checkM (SetupWebhookWithManager lib) exit1 (mainControllers lib) else mainControllers lib)
             (calls @ [CallAddToScheme ''snapshot'', CallGetConfig, CallNewManager (managerOptionsOf opts)], w2)))"
    using assms by (simp add: main_def external_run checkM_external_run ret_def webhooksEnabled_def Let_def split: prod.splits option.splits)
  then show ?thesis
    unfolding startPlan_def append_Cons append_Nil setupService_run webhook_plan
    by (simp add: finishing_Cons perform_def statusOf_def apfst_def del: runPlan.simps split: prod.splits option.splits)
qed

text \<open>Package initialisation ends in \<open>main\<close> or, if a scheme cannot be filled, in the panic of \<open>Must\<close>.\<close>

lemma must_run: "bindM (must lib e) k u = (case Must lib e of Ret x \<Rightarrow> k x u | Panic p \<Rightarrow> (Panic p, u))"
  by (simp add: must_def bindM_def split: result.splits)

lemma init_runs:
  assumes must: "Must lib None = Ret ()" "\<And>e. \<exists>p. Must lib (Some e) = Panic p"
  shows "\<exists>w0. process lib getenv args ([], w) = main lib getenv args (initPlan, w0) \<or>
    (\<exists>p n u. process lib getenv args ([], w) = (Panic p, (take n initPlan, u)) \<and> n \<le> 5)"
proof -
  let ?w1 = "snd (Register lib [''DirectoryService'', ''DirectoryServiceList''] (snd (Register lib [''DirectoryRestore'', ''DirectoryRestoreList'']
    (snd (Register lib [''DirectoryBackup'', ''DirectoryBackupList''] w)))))"
  obtain e1 w2 where 1: "AddToScheme lib ''client-go'' ?w1 = (e1, w2)" by fastforce
  obtain e2 w3 where 2: "AddToScheme lib GroupVersion w2 = (e2, w3)" by fastforce
  note run = process_def initBackupTypes_def initRestoreTypes_def initServiceTypes_def initMain_def Let_def bindM_assoc external_run
  show ?thesis
  proof (cases e1)
    case None
    show ?thesis
    proof (cases e2)
      case None
      with \<open>e1 = None\<close> 1 2 have "process lib getenv args ([], w) = main lib getenv args (initPlan, w3)"
        by (simp add: run must_run must(1) initPlan_def)
      then show ?thesis by blast
    next
      case (Some e)
      obtain p where p: "Must lib (Some e) = Panic p" using must(2) by blast
      with \<open>e1 = None\<close> Some 1 2 have "process lib getenv args ([], w) = (Panic p, (take 5 initPlan, w3))"
        by (simp add: run must_run must(1) initPlan_def)
      then show ?thesis by (metis order_refl)
    qed
  next
    case (Some e)
    obtain p where p: "Must lib (Some e) = Panic p" using must(2) by blast
    with Some 1 have "process lib getenv args ([], w) = (Panic p, (take 4 initPlan, w2))"
      by (simp add: run must_run initPlan_def)
    moreover have "(4 :: nat) \<le> 5" by simp
    ultimately show ?thesis by blast
  qed
qed

text \<open>
  Property C19. The process starts in a fixed order. Whatever the libraries answer, the calls made
  are an initial piece of one list: the API types and schemes, configuration, manager,
  the three controllers with the webhook in between exactly if \<open>ENABLE_WEBHOOKS\<close> is \<open>true\<close>, and
  the start of the manager. Reconciliation therefore begins only after every controller was
  registered without an error; any other error ends the process with a status before
  anything else is called, and a command line that cannot be parsed before anything is.
\<close>

theorem start_in_order:
  assumes must: "Must lib None = Ret ()" "\<And>e. \<exists>p. Must lib (Some e) = Panic p"
    and run: "process lib getenv args ([], w) = (r, (calls, w'))"
  shows "(case parseFlags (boundFlags lib) defaultOptions args of
      Inl status \<Rightarrow> prefix calls initPlan \<and> (r = Ret (Exited status) \<or> (\<exists>p. r = Panic p))
    | Inr opts \<Rightarrow> prefix calls (initPlan @ startPlan getenv opts) \<and>
        (CallStart \<in> set calls \<longrightarrow> calls = initPlan @ startPlan getenv opts \<and>
           (\<exists>w1 st. runPlan lib (startPlan getenv opts) w1 = (st, startPlan getenv opts, w') \<and>
              fst (runPlan lib (butlast (startPlan getenv opts)) w1) = None)) \<and>
        (r = Ret Finished \<longrightarrow> CallStart \<in> set calls))"
proof -
  obtain w0 where init: "process lib getenv args ([], w) = main lib getenv args (initPlan, w0) \<or>
      (\<exists>p n u. process lib getenv args ([], w) = (Panic p, (take n initPlan, u)) \<and> n \<le> 5)"
    using init_runs [OF must] by blast
  have pre: "prefix (take n initPlan) (initPlan @ xs)" "CallStart \<notin> set (take n initPlan)" for n xs
    by (simp add: take_is_prefix prefix_prefix) (auto simp: initPlan_def dest: in_set_takeD)
  show ?thesis
  proof (cases "\<exists>p n u. process lib getenv args ([], w) = (Panic p, (take n initPlan, u)) \<and> n \<le> 5")
    case True
    with run pre pre(1) [of _ "[]"] show ?thesis by (auto split: sum.splits)
  next
    case False
    with init run have m: "main lib getenv args (initPlan, w0) = (r, (calls, w'))" by auto
    show ?thesis
    proof (cases "parseFlags (boundFlags lib) defaultOptions args")
      case (Inl status)
      with m show ?thesis by (simp add: main_def ret_def)
    next
      case (Inr opts)
      obtain st made u where p: "runPlan lib (startPlan getenv opts) w0 = (st, made, u)" by (metis prod_cases3)
      with m main_plan [OF Inr, of getenv initPlan w0] have c: "calls = initPlan @ made" "r = Ret Finished \<longleftrightarrow> st = None" "u = w'"
        by (auto simp: finishing_def split: option.splits)
      have s: "startPlan getenv opts = butlast (startPlan getenv opts) @ [CallStart]" "CallStart \<notin> set (butlast (startPlan getenv opts))"
        by (auto simp: startPlan_def butlast_append)
      have "CallStart \<notin> set initPlan" using pre(2) [of 5] by (simp add: initPlan_def)
      moreover have "runPlan lib (butlast (startPlan getenv opts) @ [CallStart]) w0 = (st, made, u)"
        using p by (subst s(1) [symmetric])
      note runPlan_last [OF this s(2), unfolded s(1) [symmetric]]
      ultimately
      have "CallStart \<in> set calls \<longrightarrow> calls = initPlan @ startPlan getenv opts \<and>
          runPlan lib (startPlan getenv opts) w0 = (st, startPlan getenv opts, w') \<and>
          fst (runPlan lib (butlast (startPlan getenv opts)) w0) = None"
        using c(1,3) p by auto
      moreover have "r = Ret Finished \<longrightarrow> CallStart \<in> set calls"
        using runPlan_made(2) [OF p] c by (simp add: startPlan_def)
      ultimately show ?thesis using Inr runPlan_made(1) [OF p] c(1) by auto
    qed
  qed
qed

section \<open>A sample start\<close>

text \<open>Libraries that accept everything, and a scheme of the snapshot types that fails.\<close>

definition sampleLib :: "unit startLib" where
  "sampleLib = \<lparr>boundFlags = (\<lambda>n. if n = ''zap-devel'' then Some (BoolFlag, (\<lambda>v. v = ''true'')) else None),
     Register = (\<lambda>_ w. ((), w)),
     AddToScheme = (\<lambda>s w. (if s = ''snapshot'' then Some (ApiErr ''scheme'') else None, w)),
     Must = (\<lambda>e. case e of None \<Rightarrow> Ret () | Some _ \<Rightarrow> Panic (ForeignPanic ''Must'')),
     GetConfigOrDie = (\<lambda>w. (None, w)), NewManager = (\<lambda>_ w. (None, w)), GetEventRecorderFor = (\<lambda>_ w. ((), w)),
     CompleteController = (\<lambda>_ w. (None, w)), CompleteWebhook = (\<lambda>_ w. (None, w)), StartManager = (\<lambda>w. (None, w))\<rparr>"

definition sampleArgs :: "string list" where
  "sampleArgs = [''--metrics-addr=:9090'', ''-zap-devel'', ''--enable-leader-election'']"

lemma sampleArgs_parse:
  "parseFlags (boundFlags sampleLib) defaultOptions sampleArgs = Inr \<lparr>metricsAddr = '':9090'', enableLeaderElection = True\<rparr>"
  by (simp add: sampleArgs_def sampleLib_def flagArg_def splitName_def kindOfFlag_def setFlag_def parseBool_def defaultOptions_def)

lemma sample_plan: "runPlan sampleLib cs () = (None, cs, ())"
proof (induction cs)
  case (Cons c cs)
  moreover have "perform sampleLib c () = (None, ())"
    by (cases c) (simp_all add: perform_def sampleLib_def statusOf_def)
  ultimately show ?case by simp
qed simp

lemma sample_start:
  "process sampleLib (\<lambda>_. '''') sampleArgs ([], ()) =
     (Ret Finished, (initPlan @ startPlan (\<lambda>_. '''') \<lparr>metricsAddr = '':9090'', enableLeaderElection = True\<rparr>, ()))"
proof -
  have "process sampleLib (\<lambda>_. '''') sampleArgs ([], ()) = main sampleLib (\<lambda>_. '''') sampleArgs (initPlan, ())"
    by (simp add: process_def initBackupTypes_def initRestoreTypes_def initServiceTypes_def initMain_def Let_def bindM_assoc external_run
        must_run initPlan_def sampleLib_def GroupVersion_def)
  then show ?thesis by (simp add: main_plan [OF sampleArgs_parse] sample_plan finishing_def)
qed

theorem start_in_order_witness:
  "CallStart \<in> set (fst (snd (process sampleLib (\<lambda>_. '''') sampleArgs ([], ())))) \<and>
   CallWebhook KDs \<notin> set (fst (snd (process sampleLib (\<lambda>_. '''') sampleArgs ([], ())))) \<and>
   (\<exists>w1 st. runPlan sampleLib (startPlan (\<lambda>_. '''') \<lparr>metricsAddr = '':9090'', enableLeaderElection = True\<rparr>) w1 =
      (st, startPlan (\<lambda>_. '''') \<lparr>metricsAddr = '':9090'', enableLeaderElection = True\<rparr>, ()))"
proof -
  have must: "Must sampleLib None = Ret ()" "\<exists>p. Must sampleLib (Some e) = Panic p" for e by (simp_all add: sampleLib_def)
  have s: "CallStart \<in> set (initPlan @ startPlan (\<lambda>_. '''') opts)" "CallWebhook KDs \<notin> set (initPlan @ startPlan (\<lambda>_. '''') opts)" for opts
    by (simp_all add: startPlan_def initPlan_def webhooksEnabled_def)
  from start_in_order [OF must sample_start] s show ?thesis
    by (auto simp: sampleArgs_parse sample_start)
qed

section \<open>Flags\<close>

text \<open>The ways to write the two flags of the operator on a command line.\<close>

datatype setting = AddrEq string | AddrNext string | LeaderEq bool | LeaderOn

fun render :: "setting \<Rightarrow> string list" where
  "render (AddrEq v) = [''--metrics-addr='' @ v]"
| "render (AddrNext v) = [''-metrics-addr'', v]"
| "render (LeaderEq b) = [''--enable-leader-election='' @ (if b then ''true'' else ''false'')]"
| "render LeaderOn = [''-enable-leader-election'']"

fun applySetting :: "setting \<Rightarrow> startOptions \<Rightarrow> startOptions" where
  "applySetting (AddrEq v) opts = opts\<lparr>metricsAddr := v\<rparr>"
| "applySetting (AddrNext v) opts = opts\<lparr>metricsAddr := v\<rparr>"
| "applySetting (LeaderEq b) opts = opts\<lparr>enableLeaderElection := b\<rparr>"
| "applySetting LeaderOn opts = opts\<lparr>enableLeaderElection := True\<rparr>"

lemmas flag_defs = flagArg_def splitName_def kindOfFlag_def setFlag_def parseBool_def

lemma parseFlags_render: "parseFlags lf opts (render s @ args) = parseFlags lf (applySetting s opts) args"
  by (cases s) (simp_all add: flag_defs)

text \<open>
  The command line round trip: any sequence of settings of the two flags, each
  written in any of the ways the flag package allows, is read back as exactly these settings, the
  last one of a flag winning; the first argument after them that is not a flag ends the parsing. An
  address may be any string, also one that looks like a flag or contains an equals sign. A flag
  that nobody declared ends the process with status 2.
\<close>

theorem flags_roundtrip:
  "parseFlags lf opts (concat (map render ss)) = Inr (fold applySetting ss opts) \<and>
   parseFlags lf opts (concat (map render ss) @ ''--'' # rest) = Inr (fold applySetting ss opts) \<and>
   (lf ''replicas'' = None \<longrightarrow> parseFlags lf opts (concat (map render ss) @ ''-replicas'' # rest) = Inl 2)"
proof -
  have "parseFlags lf opts (concat (map render ss) @ args) = parseFlags lf (fold applySetting ss opts) args" for args
    by (induction ss arbitrary: opts) (simp_all add: parseFlags_render del: parseFlags.simps)
  from this [of "[]"] this [of "''--'' # rest"] this [of "''-replicas'' # rest"] show ?thesis
    by (simp add: flag_defs)
qed

theorem flags_roundtrip_witness:
  "parseFlags (\<lambda>_. None) defaultOptions [''-metrics-addr'', ''--x=y'', ''--enable-leader-election=true'', ''-replicas''] = Inl 2"
  using flags_roundtrip [of "\<lambda>_. None" defaultOptions "[AddrNext ''--x=y'', LeaderEq True]" "[]"] by simp

section \<open>Who wakes the backup controller\<close>

text \<open>
  \<open>enqueue cs kd m\<close> are the requests the library makes for the controller set up by \<open>cs\<close> when an object
  of kind \<open>kd\<close> with metadata \<open>m\<close> changes. As documented for \<open>Owns\<close>, an object of another kind than the
  one the controller is for counts only if its kind is owned, and only through an owner reference of
  the controller type.
\<close>

definition hasController :: "objectMeta \<Rightarrow> bool" where
  "hasController m \<longleftrightarrow> (\<exists>r \<in> set (OwnerReferences m). orController r)"

definition owns_documented :: "(controllerSetup \<Rightarrow> kind \<Rightarrow> objectMeta \<Rightarrow> nsname list) \<Rightarrow> bool" where
  "owns_documented enqueue \<longleftrightarrow>
     (\<forall>cs kd m. kd \<noteq> csFor cs \<longrightarrow> enqueue cs kd m \<noteq> [] \<longrightarrow> kd \<in> set (csOwns cs) \<and> hasController m)"

text \<open>\<open>SetOwnerReference\<close> adds the owner without making it the controller.\<close>

definition ownerReferences_plain :: "'w env \<Rightarrow> bool" where
  "ownerReferences_plain env \<longleftrightarrow>
     (\<forall>kd owner m refs. SetOwnerReference env kd owner m = (None, refs) \<longrightarrow>
        (\<forall>r \<in> set refs. orController r \<longrightarrow> r \<in> set (OwnerReferences m)))"

text \<open>No claim, snapshot or job gets a controller it did not have.\<close>

definition addsNoController :: "store \<Rightarrow> store \<Rightarrow> bool" where
  "addsNoController s s' \<longleftrightarrow>
     (\<forall>k x. pvcs s' k = Some x \<longrightarrow> hasController (ObjectMeta x) \<longrightarrow> (\<exists>y. pvcs s k = Some y \<and> hasController (ObjectMeta y))) \<and>
     (\<forall>k x. snapshots s' k = Some x \<longrightarrow> hasController (ObjectMeta x) \<longrightarrow> (\<exists>y. snapshots s k = Some y \<and> hasController (ObjectMeta y))) \<and>
     (\<forall>k x. jobs s' k = Some x \<longrightarrow> hasController (ObjectMeta x) \<longrightarrow> (\<exists>y. jobs s k = Some y \<and> hasController (ObjectMeta y)))"

interpretation uncontrolled: world_order "\<lambda>w w'. addsNoController (view w) (view w')" for view :: "'w \<Rightarrow> store"
proof
  show "addsNoController (view w) (view w)" for w unfolding addsNoController_def by blast
  show "addsNoController (view u) (view w)" if "addsNoController (view u) (view v)" "addsNoController (view v) (view w)" for u v w
    using that unfolding addsNoController_def by meson
qed

lemma hasController_kept: "metaKept m m' \<Longrightarrow> hasController m' \<longleftrightarrow> hasController m"
  by (simp add: hasController_def metaKept_def)

lemma hasController_named [simp]: "\<not> hasController (named ns n)"
  by (simp add: hasController_def named_def zeroMeta_def)

lemma hasController_upd [simp]:
  "hasController (m\<lparr>Labels := l\<rparr>) = hasController m" "hasController (m\<lparr>Annotations := a\<rparr>) = hasController m"
  by (simp_all add: hasController_def)

lemma hasController_owner:
  assumes "ownerReferences_plain env" and "SetOwnerReference env kd owner m = (None, refs)"
    and "hasController (m\<lparr>OwnerReferences := refs\<rparr>)"
  shows "hasController m"
  using assms unfolding ownerReferences_plain_def hasController_def by fastforce

text \<open>The callbacks of the backup controller leave the controller of an object as it is.\<close>

definition plainCallback :: "('w, 'x k8sobj_scheme, 'l) mutateFn \<Rightarrow> bool" where
  "plainCallback f \<longleftrightarrow> (\<forall>x l w y l' w'. f x l w = (Ret (None, y, l'), w') \<longrightarrow>
     hasController (ObjectMeta y) \<longrightarrow> hasController (ObjectMeta x))"

lemma backup_callbacks_plain:
  assumes "ownerReferences_plain env"
  shows "plainCallback (backupPvcMutate db)" and "plainCallback (backupSnapMutate env db)"
    and "plainCallback (backupDataMutate env db n)" and "plainCallback (jobMutate env pod kd owner knd)"
  by (auto simp: plainCallback_def backupPvcMutate_def backupSnapMutate_def backupDataMutate_def jobMutate_def
      ownedByBackup_def ret_apply Let_def split: if_splits prod.splits dest!: hasController_owner [OF assms])

context kind_store
begin

lemma cou_uncontrolled:
  assumes kc: "client_documented acc accS sel upd view kc" and quiet: "\<And>y m. pres (stays {} view) (f y m)"
    and plain: "plainCallback f" and kept: "\<forall>old y z. acc old y z \<longrightarrow> metaKept (ObjectMeta y) (ObjectMeta z)"
    and new: "\<not> hasController (ObjectMeta x)" and run: "kCreateOrUpdate kc x l f w = (r, w')"
  shows "view w' = view w \<or> (\<exists>z. view w' = upd ((sel (view w))(objkey x \<mapsto> z)) (view w) \<and>
    (hasController (ObjectMeta z) \<longrightarrow> (\<exists>y. sel (view w) (objkey x) = Some y \<and> hasController (ObjectMeta y))))"
  using cou_effect [OF kc quiet run]
proof (elim disjE exE conjE)
  fix b y z l1 w1 w2
  assume f: "f b l w1 = (Ret (None, y, l1), w2)" and acc: "acc (sel (view w) (objkey x)) y z"
    and v: "view w' = upd ((sel (view w))(objkey x \<mapsto> z)) (view w)"
  have z: "hasController (ObjectMeta b)" if "hasController (ObjectMeta z)"
    using that f acc plain kept hasController_kept unfolding plainCallback_def by metis
  { assume "b = x"
    with z new v show ?thesis by blast
  next
    assume "sel (view w) (objkey x) = Some b"
    with z v show ?thesis by blast }
qed simp

end

abbreviation uncontrolledM :: "('w \<Rightarrow> store) \<Rightarrow> ('w, 'a) M \<Rightarrow> bool" where
  "uncontrolledM view \<equiv> pres (\<lambda>w w'. addsNoController (view w) (view w'))"

lemma backup_cou_uncontrolled:
  assumes env: "env_documented view env" and plain: "ownerReferences_plain env"
  shows "uncontrolledM view (kCreateOrUpdate (pvcClient env) (newPVC ns n) l (backupPvcMutate db))"
    and "uncontrolledM view (kCreateOrUpdate (snapClient env) (newSnapshot ns n) l (backupSnapMutate env db))"
    and "uncontrolledM view (kCreateOrUpdate (pvcClient env) (newPVC ns n) l (backupDataMutate env db sn))"
    and "uncontrolledM view (createDSJob fl env p b t args kd owner knd)"
proof -
  have acc: "\<forall>old y z. pvcAcc old y z \<longrightarrow> metaKept (ObjectMeta y) (ObjectMeta z)"
    "\<forall>old y z. snapAcc old y z \<longrightarrow> metaKept (ObjectMeta y) (ObjectMeta z)"
    "\<forall>old y z. jobAcc old y z \<longrightarrow> metaKept (ObjectMeta y) (ObjectMeta z)"
    by (simp_all add: pvcAcc_def snapAcc_def jobAcc_def)
  have new: "\<not> hasController (ObjectMeta (newPVC a c))" "\<not> hasController (ObjectMeta (newSnapshot a c))"
    "\<not> hasController (ObjectMeta (newJob a c))" for a c by (simp_all add: newPVC_def newSnapshot_def newJob_def)
  note plain = backup_callbacks_plain [OF plain]
  show "uncontrolledM view (kCreateOrUpdate (pvcClient env) (newPVC ns n) l (backupPvcMutate db))"
    by (rule presI, drule pvcK.cou_uncontrolled [OF env_clients(1) [OF env] backup_quiet(1) plain(1) acc(1) new(1)])
      (auto simp: addsNoController_def split: if_splits)
  show "uncontrolledM view (kCreateOrUpdate (snapClient env) (newSnapshot ns n) l (backupSnapMutate env db))"
    by (rule presI, drule snapK.cou_uncontrolled [OF env_clients(6) [OF env] backup_quiet(2) plain(2) acc(2) new(2)])
      (auto simp: addsNoController_def split: if_splits)
  show "uncontrolledM view (kCreateOrUpdate (pvcClient env) (newPVC ns n) l (backupDataMutate env db sn))"
    by (rule presI, drule pvcK.cou_uncontrolled [OF env_clients(1) [OF env] backup_quiet(3) plain(3) acc(1) new(1)])
      (auto simp: addsNoController_def split: if_splits)
  show "uncontrolledM view (createDSJob fl env p b t args kd owner knd)"
    unfolding createDSJob_def
    by (rule presI, drule jobK.cou_uncontrolled [OF env_clients(7) [OF env] jobMutate_quiet plain(4) acc(3) new(3)])
      (auto simp: addsNoController_def split: if_splits)
qed

lemma uncontrolled_quiet:
  assumes "\<And>K. (KDb, k) \<in> K \<Longrightarrow> pres (stays K view) m"
  shows "uncontrolledM view m"
  by (rule pres_mono [OF assms [of "{(KDb, k)}"]]) (auto simp: addsNoController_def stays_def same_except_def agree_def)

lemma ReconcileBackup_uncontrolled:
  assumes env: "env_documented view env" and plain: "ownerReferences_plain env"
  shows "uncontrolledM view (ReconcileBackup fl env req)"
proof -
  note cou = backup_cou_uncontrolled [OF env plain]
  have objs: "uncontrolledM view (backupObjects fl env db)" for db
    unfolding backupObjects_def backupSnapStage_def backupDataStage_def backupJobStage_def
    by (auto intro!: uncontrolled.pres_bindM uncontrolled.pres_ret cou split: option.splits)
  have st: "uncontrolledM view (statusUpdateDB env db)" for db
    by (rule uncontrolled_quiet) (rule statusUpdateDB_stays [OF env])
  have job: "uncontrolledM view (fetchJob env req)" by (rule uncontrolled_quiet) (rule fetchJob_quiet [OF env])
  have get: "uncontrolledM view (callM (kGet (dbClient env) req))"
    by (rule uncontrolled_quiet) (rule dbK.get_stays [OF env_clients(9) [OF env]])
  show ?thesis
    unfolding ReconcileBackup_def
    by (auto intro!: uncontrolled.pres_bindM uncontrolled.pres_ret objs st job get split: option.splits sum.splits)
qed

lemma ReconcileBackup_no_requeue: "yields (\<lambda>(res, err). res = noResult) (ReconcileBackup fl env req)"
  unfolding ReconcileBackup_def backupObjects_def backupSnapStage_def backupDataStage_def backupJobStage_def
  by (auto intro!: yields_bindM simp: yields_ret split: option.splits sum.splits prod.splits)

text \<open>
  Property C32. Nothing a backup creates wakes its controller. Whatever the outcome of a
  reconciliation of a backup, no claim, snapshot or job it has made has an owner reference of the
  controller type, so the library makes no request for the controller when that object changes,
  now or later (as long as its owner references stay as they are); and no reconciliation asks to be
  repeated after a delay. The reconciliation that creates the job succeeds with the status of the
  backup unchanged: that the job started and that it completed is only recorded once something
  else, such as a change of the resource or a restart, makes the controller run again. The comment in
  \<open>SetupWithManager\<close> and the three calls of \<open>Owns\<close> mean to have it woken.
\<close>

theorem backup_not_woken:
  assumes env: "env_documented view env" and plain: "ownerReferences_plain env" and owns: "owns_documented enqueue"
    and stored: "directorybackups (view w) req = Some db" and run: "ReconcileBackup fl env req w = (r, w')"
  shows "(\<forall>k x m. pvcs (view w) k = None \<longrightarrow> pvcs (view w') k = Some x \<longrightarrow>
        OwnerReferences m = OwnerReferences (ObjectMeta x) \<longrightarrow> enqueue backupSetup KPvc m = []) \<and>
    (\<forall>k x m. snapshots (view w) k = None \<longrightarrow> snapshots (view w') k = Some x \<longrightarrow>
        OwnerReferences m = OwnerReferences (ObjectMeta x) \<longrightarrow> enqueue backupSetup KSnap m = []) \<and>
    (\<forall>k x m. jobs (view w) k = None \<longrightarrow> jobs (view w') k = Some x \<longrightarrow>
        OwnerReferences m = OwnerReferences (ObjectMeta x) \<longrightarrow> enqueue backupSetup KJob m = []) \<and>
    (\<forall>res err. r = Ret (res, err) \<longrightarrow> RequeueAfter res = 0) \<and>
    (\<forall>res. r = Ret (res, None) \<longrightarrow> jobs (view w) req = None \<longrightarrow>
       jobs (view w') req \<noteq> None \<and>
       (\<exists>db'. directorybackups (view w') req = Some db' \<and> dbStatus db' = dbStatus db))"
proof -
  have new: "addsNoController (view w) (view w')"
    by (rule presD [OF ReconcileBackup_uncontrolled [OF env plain] run])
  have idle: "enqueue backupSetup kd m = []" if "\<not> hasController x" "OwnerReferences m = OwnerReferences x" "kd \<noteq> KDb" for kd m x
  proof -
    have "kd \<noteq> csFor backupSetup" "\<not> hasController m" using that by (simp_all add: backupSetup_def hasController_def)
    with owns show ?thesis unfolding owns_documented_def by blast
  qed
  have "\<not> hasController (ObjectMeta p)" if "pvcs (view w) k = None" "pvcs (view w') k = Some p" for k p
    using new that unfolding addsNoController_def by fastforce
  moreover have "\<not> hasController (ObjectMeta s)" if "snapshots (view w) k = None" "snapshots (view w') k = Some s" for k s
    using new that unfolding addsNoController_def by fastforce
  moreover have "\<not> hasController (ObjectMeta j)" if "jobs (view w) k = None" "jobs (view w') k = Some j" for k j
    using new that unfolding addsNoController_def by fastforce
  moreover have "\<forall>res err. r = Ret (res, err) \<longrightarrow> RequeueAfter res = 0"
    using yieldsD [OF ReconcileBackup_no_requeue] run by (fastforce simp: noResult_def)
  moreover have "\<forall>res. r = Ret (res, None) \<longrightarrow> jobs (view w) req = None \<longrightarrow> jobs (view w') req \<noteq> None \<and>
       (\<exists>db'. directorybackups (view w') req = Some db' \<and> dbStatus db' = dbStatus db)"
  proof (intro allI impI)
    fix res assume r: "r = Ret (res, None)" and none: "jobs (view w) req = None"
    have "recordJob (storedJob (view w) req) (dbStatus db) = dbStatus db"
      using none by (simp add: storedJob_def recordJob_def isZero_def)
    with ReconcileBackup_success [OF env stored run [unfolded r]]
    show "jobs (view w') req \<noteq> None \<and> (\<exists>db'. directorybackups (view w') req = Some db' \<and> dbStatus db' = dbStatus db)"
      by (auto simp: Let_def)
  qed
  ultimately show ?thesis using idle by (intro conjI allI impI) (metis kind.distinct)+
qed

text \<open>A queue that answers controller references of owned kinds.\<close>

definition sampleEnqueue :: "controllerSetup \<Rightarrow> kind \<Rightarrow> objectMeta \<Rightarrow> nsname list" where
  "sampleEnqueue cs kd m =
     (if kd = csFor cs then [(Namespace m, Name m)]
      else if kd \<in> set (csOwns cs) then map (\<lambda>r. (Namespace m, orName r)) (filter orController (OwnerReferences m))
      else [])"

theorem backup_not_woken_witness:
  "\<exists>w' j. ReconcileBackup plainFlags memEnv (''prod'', ''nightly'') backupWorld = (Ret (noResult, None), w') \<and>
     jobs (memView w') (''prod'', ''nightly'') = Some j \<and> sampleEnqueue backupSetup KJob (ObjectMeta j) = []"
proof -
  obtain w' where run: "ReconcileBackup plainFlags memEnv (''prod'', ''nightly'') backupWorld = (Ret (noResult, None), w')"
    using sample_backup_run by blast
  have plain: "ownerReferences_plain memEnv"
    by (auto simp: ownerReferences_plain_def memEnv_def memRef_def Let_def)
  have owns: "owns_documented sampleEnqueue"
    by (auto simp: owns_documented_def sampleEnqueue_def hasController_def filter_empty_conv split: if_splits)
  have none: "jobs (memView backupWorld) (''prod'', ''nightly'') = None" by (simp add: memView_def backupWorld_def emptyMem_def)
  from backup_not_woken [OF memEnv_documented plain owns sample_backup_stored run] none run show ?thesis by auto
qed

end
