(* ===== verification/Spec2Isabelle.thy ===== *)
theory Spec2Isabelle
  imports Coexistence Directory_Liveness Deep_Copy_Laws Process_Start
begin

text \<open>
  The ForgeRock DS operator, \<open>src/\<close>: a Kubernetes operator that runs replicated LDAP directories
  (\<open>DirectoryService\<close>) and backs them up and restores them (\<open>DirectoryBackup\<close>, \<open>DirectoryRestore\<close>).
  This library models all of its controllers, the LDAP client, the admission webhook, the copy
  functions of the API types and the start of the process, and proves what they do to the cluster.

  \<^bold>\<open>The program.\<close> A controller is called with the name of a resource, reads it, brings the objects
  that belong to it into line one after the other, writes its status back and says when it wants
  to be called again. Almost every write goes through \<open>CreateOrUpdate\<close>: fetch the object, run a
  callback on it, create or update it. Any call can fail, a controller then returns and is called
  again later; Go code can also panic, which ends the run in the middle.

  \<^bold>\<open>How it is modelled.\<close> A Go function is a HOL function of the same name into the monad \<open>M\<close> of
  \<open>Prelude\<close>: it takes the outside world to a returned value or a panic and the next world.
  Errors are values of \<open>goerr\<close>; a nil map write, nil dereference or index out of range is a \<open>Panic\<close>
  wherever the code can run into one. Structs are records, pointers are options, \<open>int32\<close> and
  \<open>int64\<close> are words, Go maps are optional partial maps (nil and empty differ), and loops are
  structural recursion, so every function is total without fuel. The variables a callback
  captures are an extra argument and result of it. The world \<open>'w\<close> is arbitrary; what the code
  calls outside \<open>src/\<close> (API server and client, owner references, clock, random numbers, map
  iteration order, \<open>sort.Slice\<close>, events, go-ldap) is the parameter \<open>env\<close>, whose documented behaviour
  is the hypothesis \<open>env_documented\<close>: reads return what is stored, a write replaces one object and
  keeps what was sent of it (labels may be added to a pod template, an empty map may come back nil), a
  failed write may or may not have happened, a deletion removes the object or is held back,
  \<open>CreateOrUpdate\<close> does what its documentation says. No other actor writes during a single run; between the runs of a
  restore they may (\<open>restoreReach\<close>). \<open>Mem_Cluster\<close> gives an in-memory cluster that meets all these
  hypotheses; the witnesses run on it.

  \<^bold>\<open>Theories.\<close>
  \<^item> \<open>Prelude\<close>: errors, panics, the monad and its loops; what a computation does to the world
    (\<open>pres\<close>, locale \<open>world_order\<close>), returns (\<open>yields\<close>), that it does not panic (\<open>noPanic\<close>); Go maps;
    decimal formatting and parsing with their round trip.
  \<^item> \<open>K8s_Types\<close>, \<open>Api_Types\<close>: the Kubernetes types the code fills in; the resources of
    \<open>api/v1alpha1\<close> and the webhook, \<open>directoryservice_webhook.go\<close>.
  \<^item> \<open>Environment\<close>, \<open>Operator_Env\<close>: the object store, the client of one kind of object and its
    documented behaviour; the locale \<open>kind_store\<close> proves once for all ten kinds what
    \<open>CreateOrUpdate\<close> can do, \<open>mutate_fn\<close> and \<open>create_only\<close> are the contracts of the callbacks, which
    every component interprets with its own callback.
  \<^item> \<open>Util\<close>: \<open>util.go\<close>. \<open>Snapshots\<close>: \<open>snapshots.go\<close>. \<open>Pvc\<close>: \<open>pvc.go\<close>. \<open>Secrets\<close>: \<open>secrets.go\<close>. \<open>Sts\<close>: \<open>sts.go\<close>.
    \<open>Services\<close>: \<open>service.go\<close> and \<open>proxy_service.go\<close>. \<open>Proxies\<close>: \<open>proxy.go\<close>. \<open>Ldap\<close>: \<open>pkg/ldap/client.go\<close>.
    \<open>Passwords_Sync\<close>: \<open>passwords.go\<close>. \<open>Ds_Controller\<close>: \<open>directoryservice_controller.go\<close>. \<open>Jobs\<close>: \<open>job.go\<close>.
    \<open>Backups\<close> and \<open>Restores\<close>: \<open>directorybackup_controller.go\<close> and \<open>directoryrestore_controller.go\<close>.
    Each has the functions of its file in the order of the code, then its lemmas. A long Go
    function is cut into stages, from the end backwards, each of which does one step and goes on.
  \<^item> \<open>Convergence\<close>: what a directory's cluster looks like when it is as the resource describes it, that
    a successful reconciliation gets it there, and that it then stays there. \<open>Liveness\<close> and
    \<open>Directory_Liveness\<close>: what backups, restores and directories achieve while the API server answers,
    stated by the hypotheses \<open>answers\<close>, \<open>job_api_answers\<close> and \<open>directory_api_answers\<close>, which the in-memory
    cluster meets. They extend the locale \<open>kind_store\<close> with what a
    callback that changes nothing, one that succeeds and a server that refuses mean for \<open>CreateOrUpdate\<close>.
  \<^item> \<open>Coexistence\<close> and this theory: properties of several controllers together.
  \<^item> \<open>Go_Memory\<close>, \<open>Deep_Copy\<close>, \<open>Deep_Copy_Laws\<close>: \<open>zz_generated.deepcopy.go\<close>. Everywhere else a Go
    structure is an immutable value, because nothing depends on sharing; here it does, so these
    theories have a memory of cells, with pointers, slices and maps as references into it. The locale
    \<open>copier\<close> is the contract of a deep copy (reads the same, fresh cells only, old cells unchanged);
    copies of pointers, slices, maps and structures are built from copies of their parts, and
    every \<open>DeepCopyInto\<close> is a sublocale of \<open>third_party\<close>, which assumes the contract for the copy
    functions of other packages. Structures in memory mean the records of \<open>Api_Types\<close>.
  \<^item> \<open>Process_Start\<close>: \<open>main.go\<close>, the \<open>SetupWithManager\<close> methods, the registration of webhook and types,
    and the command line as the package \<open>flag\<close> reads it. The controller library is a parameter; the
    calls into it are recorded, and \<open>main\<close> is shown to work off a list of calls. Which changes of
    objects the library turns into calls of a controller is a further parameter, with the documented
    behaviour of \<open>Owns\<close> as its hypothesis (\<open>owns_documented\<close>).

  \<^bold>\<open>What is shown.\<close> Each controller changes its own objects only, however a run ends
  (\<open>reconcile_footprint\<close>, \<open>backup_footprint\<close>, \<open>restore_snapshot_guarded\<close>, \<open>other_snapshots_untouched\<close>).
  A reconciliation without an error has brought about all the resource describes
  (\<open>reconcile_settles\<close>); from then on no number of repetitions, however they end, changes anything but
  the resource's status and metadata, the periodic snapshots and the deployment of a proxy that is
  switched off (\<open>reconcile_idempotent\<close>), and the user's specification is never changed
  (\<open>specification_kept\<close>). Volumes exist before the pods, are initialised from the newest snapshot and are never
  overwritten; passwords are generated once and never lost; the directory ends up with the
  passwords of the secrets; stateful set, proxy and services follow the resource and are well
  formed; snapshots are rate limited, the newest ones are kept, and each one above the retention count
  is asked to be deleted (\<open>snapshot_retention\<close>, which does not assume that deletions succeed). A backup copies a frozen
  snapshot of the claim; a restore is snapshotted only after its job succeeded, as the refinement
  of a small state machine and as an invariant of its whole life under interference. While the API server answers, one reconciliation brings a
  directory up that has its secrets, whatever becomes of the rest of the run (\<open>directory_comes_up\<close>,
  whose condition \<open>canSettle\<close> names all that can stand in the way), one sets a backup up
  (\<open>backup_succeeds\<close>) and each takes a restore to its next phase (\<open>restore_advances\<close>). Error
  behaviour is shown as it is: the panics on missing annotations, new secrets, negative retention
  and an unreachable directory, the 32-bit overflow of the snapshot period that makes every run take a
  snapshot, the lost minutes of directory time stamps, the status that is only refreshed when the
  snapshot step writes it (\<open>status_only_with_snapshots\<close>), the backup whose own objects never wake its
  controller (\<open>backup_not_woken\<close>), the failed restore that is never recorded, the restore whose refused snapshot nobody is told about, and the restore that takes the
  job of a backup of the same name for its own. Backup and
  restore fit together: a restore reads the claim the backup wrote (\<open>restore_reads_the_backup\<close>). A
  copied resource is the same resource and shares nothing with the original
  (\<open>deepCopyObject_same\<close>, \<open>deepCopyObject_independent\<close>). The process makes its calls in order and
  starts the manager only when everything is registered (\<open>start_in_order\<close>), and reads its flags back as
  they were written (\<open>flags_roundtrip\<close>).

  \<^bold>\<open>Not modelled.\<close> Logging has no effect on the cluster. Leader election, caches, the work queue
  that calls the controllers and the signal handler belong to the controller library; of its
  builders and the manager only the calls the code makes appear. The test suites are left out. Fields
  the operator passes through unread (resource requirements, \<open>envFrom\<close> sources, the rest of a
  volume claim) are opaque strings. In the memory model a pointer leads to a whole variable,
  not into the middle of a structure.
\<close>

section \<open>Snapshots of others\<close>

definition backupSnap :: volumeSnapshot where
  "backupSnap = stamp 40 ((newSnapshot ''prod'' ''temp-nightly'')\<lparr>ObjectMeta := (named ''prod'' ''temp-nightly'')
     \<lparr>Labels := Some (createLabels ''temp-nightly'' ''DirectoryBackup'' None)\<rparr>\<rparr>)"

text \<open>
  Property C12. Reconciling a directory leaves everybody else's snapshots alone. A snapshot that
  carries the labels the operator gives out for another name or another kind of resource, such as
  the snapshots of backups and restores and those of other directories, is still there unchanged
  after any reconciliation of the directory, also one that fails or panics while pruning.
\<close>

theorem other_snapshots_untouched:
  assumes env: "env_documented view env" and stored: "directoryservices (view w) req = Some ds"
    and run: "Reconcile fl env req w = (r, w')"
    and snap: "snapshots (view w) k = Some x" and labels: "Labels (ObjectMeta x) = Some (createLabels n knd None)"
    and other: "(n, knd) \<noteq> (dsName ds, dsKind ds)"
  shows "snapshots (view w') k = Some x"
  using env run
proof (cases rule: Reconcile_cases)
  case (missing err w1)
  with snap show ?thesis by simp
next
  case (found d w1)
  with stored have "d = ds" by simp
  with presD [OF reconcileBody_foreign [OF env] found(5)] found(4)
  have "foreignKept view (dsNamespace ds) (createLabels (dsName ds) (dsKind ds) None) w w'" by (simp add: foreignKept_def)
  moreover have "\<not> labelsMatch (createLabels (dsName ds) (dsKind ds) None) x"
    using labelsMatch_createLabels [OF labels] other by simp
  ultimately show ?thesis using snap unfolding foreignKept_def by blast
qed

theorem other_snapshots_untouched_witness:
  "snapEnabled (Snapshots (Spec sampleDS)) \<and>
   snapshots (memView (snd (Reconcile plainFlags memEnv (''prod'', ''idrepo'') (freshWorld\<lparr>mSnaps := [backupSnap, sampleSnap 300]\<rparr>))))
     (''prod'', ''temp-nightly'') = Some backupSnap"
proof -
  let ?w = "freshWorld\<lparr>mSnaps := [backupSnap, sampleSnap 300]\<rparr>"
  have s: "directoryservices (memView ?w) (''prod'', ''idrepo'') = Some sampleDS"
    using freshWorld_reads(1) by (simp add: memView_def)
  have x: "snapshots (memView ?w) (''prod'', ''temp-nightly'') = Some backupSnap"
    by (simp add: memView_def lookupObj_Cons backupSnap_def) (simp add: objkey_def)
  have l: "Labels (ObjectMeta backupSnap) = Some (createLabels ''temp-nightly'' ''DirectoryBackup'' None)"
    by (simp add: backupSnap_def stamp_def)
  have "snapEnabled (Snapshots (Spec sampleDS))" by (simp add: sample_defs)
  moreover have "snapshots (memView (snd (Reconcile plainFlags memEnv (''prod'', ''idrepo'') ?w))) (''prod'', ''temp-nightly'') = Some backupSnap"
    by (rule other_snapshots_untouched [OF memEnv_documented s surjective_pairing x l]) (simp add: sample_defs)
  ultimately show ?thesis ..
qed

section \<open>Backup and restore always return\<close>

text \<open>
  Property C31. The backup and the restore controller never panic: whatever is in the cluster and
  however the API server fails, a reconciliation returns a result.
\<close>

theorem job_controllers_return:
  assumes env: "env_documented view env"
  shows "(\<exists>x w'. ReconcileBackup fl env req w = (Ret x, w')) \<and> (\<exists>x w'. ReconcileRestore fl env req w = (Ret x, w'))"
  using noPanicD [OF ReconcileBackup_noPanic [OF env]] noPanicD [OF ReconcileRestore_noPanic [OF env]] by blast

theorem job_controllers_return_witness:
  "(\<exists>x w'. ReconcileBackup plainFlags memEnv (''prod'', ''nightly'') backupWorld = (Ret x, w')) \<and>
   (\<exists>x w'. ReconcileRestore plainFlags memEnv (''prod'', ''nightly'') backupWorld = (Ret x, w'))"
  by (rule job_controllers_return [OF memEnv_documented])

section \<open>From a backup to a restore\<close>

text \<open>
  Property C13. A restore reads what a backup wrote. A backup \<open>b\<close> of a claim is reconciled with
  success, then, after whatever others do as long as they leave the backup claim alone, a
  restore \<open>r\<close> that names it. If neither had a job before, the chain is unbroken: the snapshot is of the
  claim to back up, the backup job writes to the claim \<open>b\<close>, this claim is still the same after the
  restore was reconciled, and the restore job reads from it and writes to the claim \<open>temp-r\<close>.
  The one name to avoid is \<open>temp-r\<close> for the backup.
\<close>

theorem restore_reads_the_backup:
  assumes env: "env_documented view env" and db: "directorybackups (view w) (ns, b) = Some db"
    and backup: "ReconcileBackup fl env (ns, b) w = (Ret (res1, None), w1)"
    and between: "pvcs (view w2) (ns, b) = pvcs (view w1) (ns, b)"
    and dr: "directoryrestores (view w2) (ns, r) = Some dr" "SourcePVCName dr = b" "b \<noteq> ''temp-'' @ r"
    and restore: "ReconcileRestore fl env (ns, r) w2 = (Ret (res2, None), w3)"
    and new: "jobs (view w) (ns, b) = None" "snapshots (view w) (ns, ''temp-'' @ b) = None" "jobs (view w2) (ns, r) = None"
  shows "\<exists>p snap jb jr. snapshots (view w1) (ns, ''temp-'' @ b) = Some snap \<and> vsSourcePVC snap = Some (ClaimToBackup db) \<and>
    jobs (view w1) (ns, b) = Some jb \<and>
    {\<lparr>volName = ''backup'', volSource = PvcVolume b\<rparr>, \<lparr>volName = ''data'', volSource = PvcVolume (''temp-'' @ b)\<rparr>}
      \<subseteq> set (Volumes (ptSpec (jobTemplate jb))) \<and>
    pvcs (view w1) (ns, b) = Some p \<and> pvcs (view w3) (ns, b) = Some p \<and>
    jobs (view w3) (ns, r) = Some jr \<and>
    {\<lparr>volName = ''backup'', volSource = PvcVolume b\<rparr>, \<lparr>volName = ''data'', volSource = PvcVolume (''temp-'' @ r)\<rparr>}
      \<subseteq> set (Volumes (ptSpec (jobTemplate jr)))"
proof -
  note made = ReconcileBackup_success [OF env db backup]
  note used = ReconcileRestore_success [OF env dr(1) restore]
  have "stays (restoreOwn (ns, r)) view w2 w3" using ReconcileRestore_effect [OF env restore] by blast
  moreover have "(KPvc, ns, b) \<notin> restoreOwn (ns, r)" using dr(3) by (simp add: restoreOwn_def restoreMade_def tempName_def)
  ultimately have "pvcs (view w3) (ns, b) = pvcs (view w2) (ns, b)" by (rule pvcK.stays_at)
  with made used between dr(2) new show ?thesis by (auto simp: Let_def)
qed

text \<open>The sample restore finds the claim of the sample backup.\<close>

lemma sample_restore_after:
  assumes "lookupObj ps (''prod'', ''temp-r1'') = None"
  shows "\<exists>res w'. ReconcileRestore plainFlags memEnv (''prod'', ''r1'') ((restoreWorld [])\<lparr>mPvcs := ps\<rparr>) = (Ret (res, None), w')"
proof -
  let ?w = "(restoreWorld [])\<lparr>mPvcs := ps\<rparr>"
  have "kGet (drClient memEnv) (''prod'', ''r1'') ?w = (Inr sampleDR, ?w)" "fetchJob memEnv (''prod'', ''r1'') ?w = (Ret (Inr (newJob '''' '''')), ?w)"
    by (simp_all add: mem_defs restoreWorld_def lookupObj_Cons sampleDR_fields fetchJob_def bindM_def callM_def ret_def IgnoreNotFound_def)
  moreover have "restoreProgress memEnv (newJob '''' '''') sampleDR w = (Ret (Inr (sampleDR, True)), w)" for w
    by (simp add: restoreProgress_def isZero_def ret_def)
  moreover have "\<exists>res w'. restoreStatusStage plainFlags memEnv sampleDR True ?w = (Ret (res, None), w')"
    by (rule mem_restoreStatusStage) (use assms in \<open>simp_all add: restoreWorld_def lookupObj_Cons sampleDR_fields tempName_def\<close>)
  ultimately show ?thesis
    by (simp add: ReconcileRestore_def restoreJobSeen_def bindM_def callM_def)
qed

lemma ReconcileBackup_stays:
  assumes env: "env_documented view env" and db: "directorybackups (view w) req = Some db"
    and run: "ReconcileBackup fl env req w = (r, w')"
  shows "stays (backupOwn db) view w w'"
  using env run
proof (cases rule: ReconcileBackup_cases)
  case (missing err w1)
  then show ?thesis by (simp add: stays_def same_except_refl)
next
  case (found d w1)
  with db presD [OF backupBody_stays [OF env] found(4)] show ?thesis by (simp add: stays_def)
qed

theorem restore_reads_the_backup_witness:
  "\<exists>w1 w3 jr. ReconcileBackup plainFlags memEnv (''prod'', ''nightly'') backupWorld = (Ret (noResult, None), w1) \<and>
     snd (ReconcileRestore plainFlags memEnv (''prod'', ''r1'') ((restoreWorld [])\<lparr>mPvcs := mPvcs w1\<rparr>)) = w3 \<and>
     pvcs (memView w3) (''prod'', ''nightly'') = pvcs (memView w1) (''prod'', ''nightly'') \<and>
     jobs (memView w3) (''prod'', ''r1'') = Some jr \<and>
     \<lparr>volName = ''backup'', volSource = PvcVolume ''nightly''\<rparr> \<in> set (Volumes (ptSpec (jobTemplate jr)))"
proof -
  obtain w1 where b: "ReconcileBackup plainFlags memEnv (''prod'', ''nightly'') backupWorld = (Ret (noResult, None), w1)"
    using sample_backup_run by blast
  let ?w2 = "(restoreWorld [])\<lparr>mPvcs := mPvcs w1\<rparr>"
  have "(KPvc, ''prod'', ''temp-r1'') \<notin> backupOwn sampleDB"
    by (simp add: backupOwn_def backupMade_def sampleDB_fields tempName_def)
  from pvcK.stays_at [OF ReconcileBackup_stays [OF memEnv_documented sample_backup_stored b] this]
  have "lookupObj (mPvcs w1) (''prod'', ''temp-r1'') = None" by (simp add: memView_def backupWorld_def emptyMem_def)
  then obtain res w3 where r: "ReconcileRestore plainFlags memEnv (''prod'', ''r1'') ?w2 = (Ret (res, None), w3)"
    using sample_restore_after by blast
  have w2: "pvcs (memView ?w2) (''prod'', ''nightly'') = pvcs (memView w1) (''prod'', ''nightly'')"
    "directoryrestores (memView ?w2) (''prod'', ''r1'') = Some sampleDR" "jobs (memView ?w2) (''prod'', ''r1'') = None"
    "jobs (memView backupWorld) (''prod'', ''nightly'') = None" "snapshots (memView backupWorld) (''prod'', ''temp-'' @ ''nightly'') = None"
    by (simp_all add: memView_def restoreWorld_def backupWorld_def emptyMem_def lookupObj_Cons sampleDR_fields)
  have dr: "SourcePVCName sampleDR = ''nightly''" "''nightly'' \<noteq> ''temp-'' @ ''r1''" by (simp_all add: sampleDR_def)
  from restore_reads_the_backup [OF memEnv_documented sample_backup_stored b w2(1,2) dr r w2(4,5,3)] b r show ?thesis by auto
qed

text \<open>
  Property C38. A restore must not have the name of a backup, nor of any other job: it takes the job
  of that name for its own. Whatever that job is, a successful reconciliation of the restore leaves
  it as it is, so no restore is run, and records the times of that job as the restore's; in
  particular a completed backup job makes the restore complete.
\<close>

theorem restore_adopts_job_of_same_name:
  assumes env: "env_documented view env" and dr: "directoryrestores (view w) req = Some dr"
    and job: "jobs (view w) req = Some j" "created j" "jobCompletionTime j = Some t"
    and run: "ReconcileRestore fl env req w = (Ret (res, None), w')"
  shows "jobs (view w') = jobs (view w) \<and> RequeueAfter res = 0 \<and>
    (\<exists>dr'. directoryrestores (view w') req = Some dr' \<and> StartTimestamp (drStatus dr') = Some (CreationTimestamp (ObjectMeta j)) \<and>
      CompletionTimestamp (drStatus dr') = Some t)"
proof -
  have "jobs (view w') = jobs (view w)"
    using ReconcileRestore_effect [OF env run] job(1) by (auto simp: jobStarts_def)
  with ReconcileRestore_success [OF env dr run] job show ?thesis
    by (auto simp: storedJob_def recordJob_def created_def)
qed

theorem restore_adopts_job_of_same_name_witness:
  "\<exists>res w' dr'. ReconcileRestore plainFlags memEnv (''prod'', ''r1'') (restoreWorld [finishedJob 0 1]) = (Ret (res, None), w') \<and>
     jobs (memView w') (''prod'', ''r1'') = Some (finishedJob 0 1) \<and>
     directoryrestores (memView w') (''prod'', ''r1'') = Some dr' \<and> CompletionTimestamp (drStatus dr') = Some (Some 90)"
proof -
  obtain res w' where run: "ReconcileRestore plainFlags memEnv (''prod'', ''r1'') (restoreWorld [finishedJob 0 1]) = (Ret (res, None), w')"
    using sample_restore_done by blast
  from restore_adopts_job_of_same_name [OF memEnv_documented restoreWorld_reads(2) restoreWorld_reads(6) finishedJob_fields(2,3) run] run
  show ?thesis by (auto simp: restoreWorld_reads)
qed

end
